(* ===== verification/SM_Prelude.thy ===== *)
theory SM_Prelude
  imports Main "HOL-Library.Word" "HOL-Library.Multiset" "HOL-Library.Monad_Syntax"
begin

text \<open>
  Shared vocabulary of the development: Go's machine integers and error values, bounds-checked
  slice access, and the generic lemmas on lists, options and words that the components use.

  Conventions.
  \<^item> A Go function that returns \<open>(T, error)\<close> returns a pair \<open>T \<times> error option\<close>; \<open>None\<close> is a nil
    error. Both halves are kept, because callers of this code base sometimes go on using the
    value that came with an error.
  \<^item> A computation that may panic (index out of range, nil dereference) or may not return has an
    \<open>option\<close> result; \<open>None\<close> means that it does not return normally.
  \<^item> Whatever the code obtains from outside the repository is an operation on an abstract world
    \<open>'w\<close> and returns the new world beside its result.
\<close>

named_theorems page_simps \<open>status and body of the pages that HTTP handlers write\<close>
named_theorems send_simps \<open>the send functions as operations on messages\<close>
named_theorems action_elims \<open>a sequence of start-up steps that did not end the process\<close>

type_synonym uint = "64 word"
type_synonym error = string

abbreviation nil_error :: "error option" where
  "nil_error \<equiv> None"

subsection \<open>Signed 64-bit arithmetic\<close>

text \<open>Go's \<open>int64\<close> (and \<open>time.Duration\<close>) arithmetic wraps around; it is written out on \<open>int\<close>.\<close>

definition wrap64 :: "int \<Rightarrow> int" where
  "wrap64 i = (i + 2 ^ 63) mod 2 ^ 64 - 2 ^ 63"

lemma wrap64_id [simp]:
  assumes "- (2 ^ 63) \<le> i" and "i < 2 ^ 63"
  shows "wrap64 i = i"
  using assms by (simp add: wrap64_def)

lemma wrap64_range: "- (2 ^ 63) \<le> wrap64 i \<and> wrap64 i < 2 ^ 63"
  by (simp add: wrap64_def)

lemma wrap64_sint: "wrap64 i = sint (word_of_int i :: 64 word)"
  by (simp add: wrap64_def sint_sbintrunc' signed_take_bit_eq_take_bit_shift take_bit_eq_mod)

subsection \<open>Slices\<close>

text \<open>Reading and writing a slice element: out of range is a run-time panic.\<close>

definition go_index :: "'a list \<Rightarrow> nat \<Rightarrow> 'a option" where
  "go_index xs i = (if i < length xs then Some (xs ! i) else None)"

definition go_store :: "'a list \<Rightarrow> nat \<Rightarrow> 'a \<Rightarrow> 'a list option" where
  "go_store xs i v = (if i < length xs then Some (xs[i := v]) else None)"

lemma go_index_in [simp]: "i < length xs \<Longrightarrow> go_index xs i = Some (xs ! i)"
  by (simp add: go_index_def)

lemma go_index_out [simp]: "length xs \<le> i \<Longrightarrow> go_index xs i = None"
  by (simp add: go_index_def)

lemma go_store_in [simp]: "i < length xs \<Longrightarrow> go_store xs i v = Some (xs[i := v])"
  by (simp add: go_store_def)

lemma go_store_out [simp]: "length xs \<le> i \<Longrightarrow> go_store xs i v = None"
  by (simp add: go_store_def)

lemma mset_nth_split:
  assumes "i < length xs"
  shows "mset xs = add_mset (xs ! i) (mset (take i xs @ drop (Suc i) xs))"
  using assms by (metis id_take_nth_drop mset.simps(2) mset_append union_mset_add_mset_right)

lemma mset_update_split:
  assumes "i < length xs"
  shows "mset (xs[i := v]) = add_mset v (mset (take i xs @ drop (Suc i) xs))"
  using assms by (simp add: upd_conv_take_nth_drop)

lemma drop_nth_Cons: "i < length xs \<Longrightarrow> drop i xs = xs ! i # drop (Suc i) xs"
  by (simp add: Cons_nth_drop_Suc)

lemma length3_conv: "length xs = 3 \<longleftrightarrow> (\<exists>a b c. xs = [a, b, c])"
  by (auto simp: numeral_3_eq_3 length_Suc_conv)

subsection \<open>Saturating counters on words\<close>

lemma word_bump_le: "x \<le> n \<Longrightarrow> (if x < n then x + 1 else x) \<le> n" for x n :: "'a::len word"
  by (simp add: inc_le)

lemma word_drop_le: "x \<le> n \<Longrightarrow> (if x < k then 0 else x - k) \<le> n" for x n k :: "'a::len word"
  by (auto simp: not_less intro: order_trans [OF word_sub_le])

lemma unat_bump: "x \<le> n \<Longrightarrow> unat (if x < n then x + 1 else x) = min (unat n) (unat x + 1)"
  for x n :: "'a::len word"
proof -
  have n: "unat n < 2 ^ LENGTH('a)" by (rule unsigned_less)
  have "Suc (unat x) mod 2 ^ LENGTH('a) = Suc (unat x)" if "unat x < unat n"
    using that n by (intro mod_less) linarith
  then show ?thesis if "x \<le> n"
    using that by (auto simp: min_def word_less_nat_alt word_le_nat_alt unat_word_ariths)
qed

lemma unat_drop: "unat (if x < k then 0 else x - k) = unat x - unat k"
  for x k :: "'a::len word"
  by (auto simp: word_less_nat_alt unat_sub word_le_nat_alt)

end
