(* ===== verification/World_Ops.thy ===== *)
theory World_Ops
  imports SM_Prelude
begin

text \<open>
  What the service manager shares with code outside the repository: the struct types of
  \<open>p2putil\<close>, \<open>registry\<close> and \<open>go-libp2p-core/peer\<close> (only the fields the sources touch), and the
  operations it calls there. The operations are fields of a record of functions on an abstract
  world \<open>'w\<close>, so every definition that uses one takes the record as its first argument and
  nothing is assumed about them here. Components extend the record with the operations they add.

  Times are instants in nanoseconds since Go's zero time, durations are \<open>time.Duration\<close> values in nanoseconds.
\<close>

type_synonym time = int
type_synonym duration = int
type_synonym peer_id = string

definition Second :: duration where
  "Second = 1000000000"

text \<open>\<open>p2putil.PerfInd\<close>, a performance indicator; the sources use its round-trip time only.\<close>

record PerfInd =
  RTT :: duration

text \<open>\<open>p2putil.PeerInfo\<close>.\<close>

record PeerInfo =
  ID :: peer_id
  Perf :: PerfInd
  ServName :: string
  ServHash :: string

text \<open>\<open>registry.ServiceInfo\<close>.\<close>

record ServiceInfo =
  ContentHash :: string
  DockerHash :: string
  NetworkSoftReq :: PerfInd
  NetworkHardReq :: PerfInd

definition zero_PerfInd :: PerfInd where
  "zero_PerfInd = \<lparr>RTT = 0\<rparr>"

definition zero_ServiceInfo :: ServiceInfo where
  "zero_ServiceInfo = \<lparr>ContentHash = '''', DockerHash = '''',
     NetworkSoftReq = zero_PerfInd, NetworkHardReq = zero_PerfInd\<rparr>"

text \<open>
  The operations every component may use: the clock (\<open>time.Now\<close>), the registry query
  (\<open>registry.GetServiceWithHostRouting\<close>), the first result received from \<open>ping.Ping\<close> under a
  timeout (its \<open>RTT\<close>; the zero value when the peer does not answer), and the comparison
  \<open>PerfInd.LessThan\<close>, which is a pure function.
\<close>

record 'w world_ops =
  Now :: "'w \<Rightarrow> time \<times> 'w"
  GetServiceWithHostRouting :: "string \<Rightarrow> 'w \<Rightarrow> (ServiceInfo \<times> error option) \<times> 'w"
  Ping :: "duration \<Rightarrow> peer_id \<Rightarrow> 'w \<Rightarrow> duration \<times> 'w"
  LessThan :: "PerfInd \<Rightarrow> PerfInd \<Rightarrow> bool"

text \<open>
  A concrete world, used where a statement is evaluated on an input. Its state is the clock,
  which advances by one millisecond at each reading and by ten at each ping; the registry knows
  the services \<open>web\<close> and \<open>db\<close>; a peer's round-trip time is fixed by its name; a performance
  indicator is less than another when its round-trip time is shorter.
\<close>

definition demo_info :: "string \<Rightarrow> ServiceInfo" where
  "demo_info name = \<lparr>ContentHash = ''h-'' @ name, DockerHash = ''d-'' @ name,
     NetworkSoftReq = \<lparr>RTT = 100\<rparr>, NetworkHardReq = \<lparr>RTT = 1000\<rparr>\<rparr>"

definition demo_ops :: "int world_ops" where
  "demo_ops = \<lparr>
     Now = (\<lambda>w. (w, w + 1000000)),
     GetServiceWithHostRouting = (\<lambda>name w.
        if name = ''web'' \<or> name = ''db'' then ((demo_info name, None), w)
        else ((zero_ServiceInfo, Some ''not found''), w)),
     Ping = (\<lambda>timeout p w.
        (if p = ''near'' then 50 else if p = ''mid'' then 500 else if p = ''far'' then 5000 else 0,
         w + 10000000)),
     LessThan = (\<lambda>a b. RTT a < RTT b)\<rparr>"

text \<open>
  The law a comparison must satisfy to be usable by \<open>sort.Slice\<close>: a strict weak order.
\<close>

definition strict_weak_order :: "('a \<Rightarrow> 'a \<Rightarrow> bool) \<Rightarrow> bool" where
  "strict_weak_order lt \<longleftrightarrow>
     (\<forall>x. \<not> lt x x) \<and> (\<forall>x y z. lt x y \<longrightarrow> lt y z \<longrightarrow> lt x z) \<and>
     (\<forall>x y z. \<not> lt x y \<longrightarrow> \<not> lt y z \<longrightarrow> \<not> lt x z)"

lemma strict_weak_order_negtrans:
  "strict_weak_order lt \<Longrightarrow> \<not> lt x y \<Longrightarrow> \<not> lt y z \<Longrightarrow> \<not> lt x z"
  unfolding strict_weak_order_def by blast

lemma strict_weak_order_asym: "strict_weak_order lt \<Longrightarrow> lt x y \<Longrightarrow> \<not> lt y x"
  unfolding strict_weak_order_def by blast

lemma strict_weak_order_measure: "strict_weak_order (\<lambda>x y. f x < (f y :: int))"
  unfolding strict_weak_order_def by auto

lemma strict_weak_order_image: "strict_weak_order lt \<Longrightarrow> strict_weak_order (\<lambda>x y. lt (f x) (f y))"
  unfolding strict_weak_order_def by blast

end
