(* ===== verification/Registry_Cache.thy ===== *)
theory Registry_Cache
  imports World_Ops
begin

text \<open>
  The registry cache (\<open>src/rcache/registry-cache.go\<close>): a map from service names to the registry's
  answer with an expiry time. The state is the record \<open>RegistryCache\<close> (the context, host and
  discovery handles are only passed on to the registry query, which is an operation of the world;
  every operation holds the mutex while it touches the map, so the operations are atomic).
\<close>

section \<open>State and operations\<close>

record cacheEntry =
  Info :: ServiceInfo
  Expiry :: time

record RegistryCache =
  ttl :: duration
  data :: "string \<rightharpoonup> cacheEntry"

text \<open>The argument of the constructor, a 64-bit \<open>int\<close> in the code, is any integer here; the product with a second wraps.\<close>

definition NewRegistryCache :: "int \<Rightarrow> RegistryCache" where
  "NewRegistryCache ttl_s = \<lparr>ttl = wrap64 (ttl_s * Second), data = Map.empty\<rparr>"

definition Add :: "('w, 'z) world_ops_scheme \<Rightarrow> RegistryCache \<Rightarrow> string \<Rightarrow> ServiceInfo \<Rightarrow> 'w
    \<Rightarrow> RegistryCache \<times> 'w" where
  "Add E rc serviceName info w =
     (let (t, w1) = Now E w;
          entry = \<lparr>Info = info, Expiry = t + ttl rc\<rparr>
      in (rc\<lparr>data := (data rc)(serviceName \<mapsto> entry)\<rparr>, w1))"

definition Get :: "('w, 'z) world_ops_scheme \<Rightarrow> RegistryCache \<Rightarrow> string \<Rightarrow> 'w
    \<Rightarrow> (ServiceInfo \<times> bool) \<times> 'w" where
  "Get E rc serviceName w =
     (case data rc serviceName of
        None \<Rightarrow> ((zero_ServiceInfo, False), w)
      | Some entry \<Rightarrow>
          (let (t, w1) = Now E w
           in if Expiry entry < t then ((zero_ServiceInfo, False), w1)
              else ((Info entry, True), w1)))"

definition Delete :: "RegistryCache \<Rightarrow> string \<Rightarrow> RegistryCache" where
  "Delete rc serviceName = rc\<lparr>data := (data rc)(serviceName := None)\<rparr>"

definition GetOrRequestService :: "('w, 'z) world_ops_scheme \<Rightarrow> RegistryCache \<Rightarrow> string \<Rightarrow> 'w
    \<Rightarrow> (ServiceInfo \<times> error option) \<times> RegistryCache \<times> 'w" where
  "GetOrRequestService E rc serviceName w =
     (let ((info, ok), w1) = Get E rc serviceName w
      in if \<not> ok then
           (let ((info2, err), w2) = GetServiceWithHostRouting E serviceName w1
            in if err \<noteq> nil_error then ((info2, err), rc, w2)
               else (let (rc2, w3) = Add E rc serviceName info2 w2
                     in ((info2, nil_error), rc2, w3)))
         else ((info, nil_error), rc, w1))"

section \<open>The contract: a cache whose entries live for a fixed time\<close>

text \<open>
  \<open>live c t k\<close> is what the cache holds for \<open>k\<close> at instant \<open>t\<close>. A client of the interface knows
  \<open>get\<close> only through \<open>live\<close>, and how \<open>add\<close> and \<open>delete\<close> change \<open>live\<close>.
\<close>

locale ttl_cache =
  fixes clock :: "'w \<Rightarrow> int \<times> 'w"
    and life :: "'c \<Rightarrow> int"
    and live :: "'c \<Rightarrow> int \<Rightarrow> 'k \<Rightarrow> 'v option"
    and add :: "'c \<Rightarrow> 'k \<Rightarrow> 'v \<Rightarrow> 'w \<Rightarrow> 'c \<times> 'w"
    and get :: "'c \<Rightarrow> 'k \<Rightarrow> 'w \<Rightarrow> ('v \<times> bool) \<times> 'w"
    and del :: "'c \<Rightarrow> 'k \<Rightarrow> 'c"
  assumes get_hit: "live c (fst (clock w)) k = Some v \<Longrightarrow> get c k w = ((v, True), snd (clock w))"
    and get_miss: "live c (fst (clock w)) k = None \<Longrightarrow> \<not> snd (fst (get c k w))"
    and live_add: "live (fst (add c k v w)) t j =
          (if j = k then (if t \<le> fst (clock w) + life c then Some v else None) else live c t j)"
    and live_del: "live (del c k) t j = (if j = k then None else live c t j)"
    and life_add: "life (fst (add c k v w)) = life c"
begin

lemma get_add_fresh:
  assumes "fst (clock w') \<le> fst (clock w) + life c"
  shows "get (fst (add c k v w)) k w' = ((v, True), snd (clock w'))"
  using assms by (intro get_hit) (simp add: live_add)

lemma get_add_stale:
  assumes "fst (clock w) + life c < fst (clock w')"
  shows "\<not> snd (fst (get (fst (add c k v w)) k w'))"
  using assms by (intro get_miss) (simp add: live_add)

lemma get_add_other:
  assumes "j \<noteq> k" and "live c (fst (clock w')) j = Some u"
  shows "get (fst (add c k v w)) j w' = ((u, True), snd (clock w'))"
  using assms by (intro get_hit) (simp add: live_add)

lemma get_del: "\<not> snd (fst (get (del c k) k w))"
  by (rule get_miss) (simp add: live_del)

text \<open>Whatever holds of everything ever added holds of everything the cache returns.\<close>

lemma all_live_add:
  assumes "\<And>t j u. live c t j = Some u \<Longrightarrow> P j u" and "P k v"
    and "live (fst (add c k v w)) t j = Some u"
  shows "P j u"
  using assms by (auto simp: live_add split: if_splits)

lemma all_live_del:
  assumes "\<And>t j u. live c t j = Some u \<Longrightarrow> P j u" and "live (del c k) t j = Some u"
  shows "P j u"
  using assms by (auto simp: live_del split: if_splits)

end

definition live_info :: "RegistryCache \<Rightarrow> time \<Rightarrow> string \<Rightarrow> ServiceInfo option" where
  "live_info rc t name =
     (case data rc name of None \<Rightarrow> None
      | Some e \<Rightarrow> if Expiry e < t then None else Some (Info e))"

interpretation rc: ttl_cache "Now E" ttl live_info "Add E" "Get E" Delete
  for E :: "('w, 'z) world_ops_scheme"
  by unfold_locales
    (auto simp: live_info_def Add_def Get_def Delete_def split: option.splits if_splits prod.splits)

section \<open>Behaviour of the operations\<close>

lemma GetOrRequestService_hit:
  assumes "live_info rc (fst (Now E w)) name = Some info"
  shows "GetOrRequestService E rc name w = ((info, nil_error), rc, snd (Now E w))"
  using rc.get_hit [OF assms] by (simp add: GetOrRequestService_def)

lemma GetOrRequestService_miss:
  assumes "live_info rc (fst (Now E w)) name = None"
  shows "GetOrRequestService E rc name w =
     (let ((info, err), w2) = GetServiceWithHostRouting E name (snd (Get E rc name w))
      in if err \<noteq> nil_error then ((info, err), rc, w2)
         else ((info, nil_error), Add E rc name info w2))"
  using rc.get_miss [OF assms]
  by (auto simp: GetOrRequestService_def split: prod.splits)

text \<open>
  The states a cache passes through: the constructor, then any sequence of \<open>GetOrRequestService\<close>
  and \<open>Delete\<close> calls, each in any world (other goroutines and the rest of the network may change
  the world between two calls).
\<close>

inductive rcache_reach :: "('w, 'z) world_ops_scheme \<Rightarrow> RegistryCache \<Rightarrow> bool"
  for E :: "('w, 'z) world_ops_scheme" where
  new: "rcache_reach E (NewRegistryCache ttl_s)"
| request: "rcache_reach E rc \<Longrightarrow>
     rcache_reach E (fst (snd (GetOrRequestService E rc name w)))"
| delete: "rcache_reach E rc \<Longrightarrow> rcache_reach E (Delete rc name)"

definition registry_said :: "('w, 'z) world_ops_scheme \<Rightarrow> string \<Rightarrow> ServiceInfo \<Rightarrow> bool" where
  "registry_said E name info \<longleftrightarrow>
     (\<exists>w. fst (GetServiceWithHostRouting E name w) = (info, nil_error))"

lemma registry_saidI:
  "GetServiceWithHostRouting E name w = ((info, nil_error), w') \<Longrightarrow> registry_said E name info"
  unfolding registry_said_def by (metis fst_conv)

lemma live_request:
  assumes "\<And>t j u. live_info rc t j = Some u \<Longrightarrow> registry_said E j u"
    and "live_info (fst (snd (GetOrRequestService E rc name w))) t j = Some u"
  shows "registry_said E j u"
proof (cases "live_info rc (fst (Now E w)) name")
  case (Some v)
  with assms show ?thesis by (auto simp: GetOrRequestService_hit)
next
  case None
  obtain info err w2 where q:
    "GetServiceWithHostRouting E name (snd (Get E rc name w)) = ((info, err), w2)"
    by (metis surj_pair)
  show ?thesis
  proof (cases err)
    case None
    with q have "registry_said E name info" by (auto intro: registry_saidI)
    moreover have "fst (snd (GetOrRequestService E rc name w)) = fst (Add E rc name info w2)"
      using \<open>live_info rc _ name = None\<close> q None by (simp add: GetOrRequestService_miss)
    ultimately show ?thesis
      using assms rc.all_live_add [of rc "registry_said E" name info E w2 t j u] by simp
  next
    case (Some e)
    with assms \<open>live_info rc _ name = None\<close> q show ?thesis
      by (simp add: GetOrRequestService_miss)
  qed
qed

lemma rcache_answers_said:
  assumes "rcache_reach E rc" and "GetOrRequestService E rc name w = ((info, nil_error), rc', w')"
  shows "registry_said E name info"
proof -
  from assms(1) have sound: "\<And>t j u. live_info rc t j = Some u \<Longrightarrow> registry_said E j u"
  proof (induction rule: rcache_reach.induct)
    case (new ttl_s)
    then show ?case by (simp add: live_info_def NewRegistryCache_def)
  next
    case (request rc name w)
    from request.IH request.prems show ?case by (rule live_request)
  next
    case (delete rc name)
    then show ?case
      using rc.all_live_del [of rc "registry_said E" name t j u] by simp
  qed
  show ?thesis
  proof (cases "live_info rc (fst (Now E w)) name")
    case (Some v)
    with assms(2) sound show ?thesis by (simp add: GetOrRequestService_hit)
  next
    case None
    with assms(2) show ?thesis
      by (auto simp: GetOrRequestService_miss intro: registry_saidI split: prod.splits if_splits)
  qed
qed

section \<open>Properties\<close>

text \<open>
  C35. A service resolved once is answered from the cache for the whole time-to-live and not longer: if
  \<open>GetOrRequestService\<close> succeeded, then any later call for the same name, made in a world whose clock is
  not past the insertion time plus the TTL, returns the same info with a nil error, leaves the
  cache alone and does nothing to the world but read the clock once; the registry is not contacted. A call made later than
  that does not use the entry: it asks the registry again, returns what the registry says, and replaces the entry on success. The bound
  is stated for the case in which the first call had to ask the registry, which is when the entry is
  written; \<open>w2\<close> is the world the registry's answer left.
\<close>
theorem rcache_hit_until_expiry:
  assumes "live_info rc (fst (Now E w)) name = None"
    and "GetServiceWithHostRouting E name (snd (Get E rc name w)) = ((info, nil_error), w2)"
    and "GetOrRequestService E rc name w = (r, rc', w')"
  shows "r = (info, nil_error) \<and>
    GetOrRequestService E rc' name w'' =
      (if fst (Now E w'') \<le> fst (Now E w2) + ttl rc then ((info, nil_error), rc', snd (Now E w''))
       else (let ((info2, err2), w3) = GetServiceWithHostRouting E name (snd (Get E rc' name w''))
             in if err2 \<noteq> nil_error then ((info2, err2), rc', w3)
                else ((info2, nil_error), Add E rc' name info2 w3)))"
proof -
  from assms(1-3) have r: "r = (info, nil_error)" and rc': "rc' = fst (Add E rc name info w2)"
    by (auto simp: GetOrRequestService_miss split: prod.splits)
  have "live_info rc' (fst (Now E w'')) name = (if fst (Now E w'') \<le> fst (Now E w2) + ttl rc then Some info else None)"
    by (simp add: rc' rc.live_add)
  with r show ?thesis by (auto simp: GetOrRequestService_hit GetOrRequestService_miss)
qed

text \<open>Witness of C35: a cache with the default TTL of 600 seconds, asked for \<open>web\<close> twice.\<close>
theorem rcache_hit_until_expiry_witness:
  "GetOrRequestService demo_ops
     (fst (snd (GetOrRequestService demo_ops (NewRegistryCache 600) ''web'' 0))) ''web'' 599000000000
   = ((demo_info ''web'', None),
      fst (snd (GetOrRequestService demo_ops (NewRegistryCache 600) ''web'' 0)), 599001000000)"
proof -
  let ?rc = "NewRegistryCache 600"
  have live: "live_info ?rc (fst (Now demo_ops 0)) ''web'' = None"
    by (simp add: live_info_def NewRegistryCache_def)
  have q: "GetServiceWithHostRouting demo_ops ''web'' (snd (Get demo_ops ?rc ''web'' 0)) =
      ((demo_info ''web'', None), 0)"
    by (simp add: demo_ops_def Get_def NewRegistryCache_def)
  have fresh: "fst (Now demo_ops 599000000000) \<le> fst (Now demo_ops 0) + ttl ?rc"
    by (simp add: demo_ops_def NewRegistryCache_def Second_def)
  have now: "snd (Now demo_ops 599000000000) = 599001000000"
    by (simp add: demo_ops_def)
  obtain r rc' w' where run: "GetOrRequestService demo_ops ?rc ''web'' 0 = (r, rc', w')"
    by (metis surj_pair)
  show ?thesis
    using rcache_hit_until_expiry [OF live q run, of 599000000000] fresh by (simp add: now run)
qed

text \<open>
  C36. Nothing but the registry's own answers is ever served: in every state the cache can reach
  through \<open>GetOrRequestService\<close> and \<open>Delete\<close> calls, an info returned with a nil error for a service name is one
  that the registry returned without an error for that very name.
\<close>
theorem rcache_serves_registry_answers:
  assumes "rcache_reach E rc" and "GetOrRequestService E rc name w = ((info, nil_error), rc', w')"
  shows "registry_said E name info"
  using assms by (rule rcache_answers_said)

text \<open>Witness of C36: the second answer for \<open>db\<close>, served from the cache.\<close>
theorem rcache_serves_registry_answers_witness: "registry_said demo_ops ''db'' (demo_info ''db'')"
proof -
  let ?rc = "fst (snd (GetOrRequestService demo_ops (NewRegistryCache 600) ''db'' 0))"
  have reach: "rcache_reach demo_ops ?rc" by (intro rcache_reach.intros)
  have run: "GetOrRequestService demo_ops ?rc ''db'' 5 = ((demo_info ''db'', None), ?rc, 1000005)"
    by (simp add: GetOrRequestService_def Get_def Add_def NewRegistryCache_def demo_ops_def Second_def)
  from rcache_serves_registry_answers [OF reach run] show ?thesis .
qed

text \<open>
  A miss (no entry, or one past its expiry) goes to the registry exactly once, and a failed query is
  neither cached nor hidden: the caller gets the registry's value and error, the cache is
  unchanged, so the next call queries again; a successful query is stored with the expiry
  \<open>now + ttl\<close> and touches no other name.
\<close>
theorem rcache_miss_queries_registry:
  assumes "live_info rc (fst (Now E w)) name = None"
    and "GetServiceWithHostRouting E name (snd (Get E rc name w)) = ((info, err), w2)"
  shows "(err \<noteq> nil_error \<longrightarrow> GetOrRequestService E rc name w = ((info, err), rc, w2)) \<and>
         (err = nil_error \<longrightarrow>
            GetOrRequestService E rc name w =
              ((info, nil_error),
               rc\<lparr>data := (data rc)(name \<mapsto> \<lparr>Info = info, Expiry = fst (Now E w2) + ttl rc\<rparr>)\<rparr>,
               snd (Now E w2)))"
  using assms by (auto simp: GetOrRequestService_miss Add_def split: prod.splits)

text \<open>An instance: an unknown service is reported with the registry's error, twice.\<close>
theorem rcache_miss_queries_registry_witness:
  "GetOrRequestService demo_ops (NewRegistryCache 600) ''nope'' 7 =
     ((zero_ServiceInfo, Some ''not found''), NewRegistryCache 600, 7)"
proof -
  have live: "live_info (NewRegistryCache 600) (fst (Now demo_ops 7)) ''nope'' = None"
    by (simp add: live_info_def NewRegistryCache_def)
  have q: "GetServiceWithHostRouting demo_ops ''nope''
      (snd (Get demo_ops (NewRegistryCache 600) ''nope'' 7)) = ((zero_ServiceInfo, Some ''not found''), 7)"
    by (simp add: demo_ops_def Get_def NewRegistryCache_def)
  from rcache_miss_queries_registry [OF live q] show ?thesis by simp
qed

text \<open>
  C40. The constructor's \<open>time.Duration(ttl) * time.Second\<close> is exact precisely for a TTL of at most
  9223372036 seconds in absolute value; beyond that the 64-bit product wraps around, and the very
  next value (9223372037 s) gives a negative lifetime.
\<close>
theorem rcache_ttl_exact_iff:
  "(ttl (NewRegistryCache s) = s * Second \<longleftrightarrow> \<bar>s\<bar> \<le> 9223372036) \<and>
   ttl (NewRegistryCache 9223372037) < 0"
proof -
  have "\<bar>s\<bar> \<le> 9223372036" if "wrap64 (s * Second) = s * Second"
    using wrap64_range [of "s * Second"] that
    unfolding Second_def by (auto simp: abs_le_iff)
  moreover have "wrap64 (s * Second) = s * Second" if "\<bar>s\<bar> \<le> 9223372036"
    using that by (intro wrap64_id) (auto simp: Second_def abs_le_iff)
  ultimately show ?thesis
    by (auto simp: NewRegistryCache_def) (simp add: wrap64_def Second_def)
qed

end
