(* ===== verification/Peer_Cache.thy ===== *)
theory Peer_Cache
  imports Registry_Cache
begin

text \<open>
  The peer cache (\<open>src/pcache/pcache.go\<close>): peers that offer services, kept in levels of
  reliability. Every exported operation holds the mutex from start to end, so each is one atomic
  step on the record \<open>PeerCache\<close>. The registry cache it points to is shared with the rest of the
  proxy and is therefore threaded through \<open>updateCache\<close> beside the world.
\<close>

section \<open>State\<close>

record RPeerInfo =
  RCount :: uint
  PInfo :: PeerInfo

record PeerCache =
  NLevels :: uint
  Levels :: "RPeerInfo list list"
  rmax :: uint

definition rcacheDefaultTTL :: int where
  "rcacheDefaultTTL = 600"

definition RPeerInfo_LessThan :: "('w, 'z) world_ops_scheme \<Rightarrow> RPeerInfo \<Rightarrow> RPeerInfo \<Rightarrow> bool" where
  "RPeerInfo_LessThan E l r = LessThan E (Perf (PInfo l)) (Perf (PInfo r))"

text \<open>The constructor; a nil registry cache is replaced by a fresh one with the default TTL.\<close>

definition NewPeerCache :: "RegistryCache option \<Rightarrow> PeerCache \<times> RegistryCache" where
  "NewPeerCache regCache =
     (let rc = (case regCache of None \<Rightarrow> NewRegistryCache rcacheDefaultTTL | Some r \<Rightarrow> r);
          nLevels = 3
      in (\<lparr>NLevels = nLevels, Levels = ((\<lambda>ls. ls @ [[]]) ^^ unat nLevels) [], rmax = 3\<rparr>, rc))"

section \<open>Slice helpers\<close>

definition apts :: "RPeerInfo list \<Rightarrow> RPeerInfo \<Rightarrow> RPeerInfo list" where
  "apts s p = s @ [p]"

text \<open>Swap element \<open>i\<close> with the last one and cut the last one off; indexing an absent element panics.\<close>

definition rpfs :: "RPeerInfo list \<Rightarrow> nat \<Rightarrow> RPeerInfo list option" where
  "rpfs s i =
     (if i < length s
      then (let n = length s - 1; a = s ! i; b = s ! n
            in Some (take n ((s[n := a])[i := b])))
      else None)"

section \<open>Adding, removing and looking up peers\<close>

definition AddPeer :: "PeerCache \<Rightarrow> PeerInfo \<Rightarrow> PeerCache option" where
  "AddPeer cache pInfo =
     (let l = unat (NLevels cache - 2)
      in do {
        lv \<leftarrow> go_index (Levels cache) l;
        ls \<leftarrow> go_store (Levels cache) l (apts lv \<lparr>RCount = 50, PInfo = pInfo\<rparr>);
        Some (cache\<lparr>Levels := ls\<rparr>)
      })"

text \<open>The inner loop of \<open>RemovePeer\<close>: the index of the first match among the first \<open>rm\<close> peers.\<close>

fun remove_scan :: "peer_id \<Rightarrow> uint \<Rightarrow> RPeerInfo list \<Rightarrow> nat \<Rightarrow> uint \<Rightarrow> nat option" where
  "remove_scan pid rm [] i cnt = None"
| "remove_scan pid rm (p # ps) i cnt =
     (if cnt < rm then
        (if pid = ID (PInfo p) then Some i else remove_scan pid rm ps (Suc i) (cnt + 1))
      else None)"

function remove_levels :: "peer_id \<Rightarrow> PeerCache \<Rightarrow> nat \<Rightarrow> PeerCache option" where
  "remove_levels pid cache l =
     (if l < unat (NLevels cache - 1) then
        do {
          lv \<leftarrow> go_index (Levels cache) l;
          (case remove_scan pid (rmax cache) lv 0 0 of
             Some i \<Rightarrow> do {
               lv' \<leftarrow> rpfs lv i;
               ls \<leftarrow> go_store (Levels cache) l lv';
               Some (cache\<lparr>Levels := ls\<rparr>)
             }
           | None \<Rightarrow> remove_levels pid cache (Suc l))
        }
      else Some cache)"
  by pat_completeness auto
termination
  by (relation "measure (\<lambda>(pid, cache, l). unat (NLevels cache - 1) - l)") auto

definition RemovePeer :: "PeerCache \<Rightarrow> peer_id \<Rightarrow> PeerCache option" where
  "RemovePeer cache pid = remove_levels pid cache 0"

text \<open>The first peer of a level that serves the hash.\<close>

fun get_scan :: "string \<Rightarrow> RPeerInfo list \<Rightarrow> peer_id option" where
  "get_scan hash [] = None"
| "get_scan hash (p # ps) = (if ServHash (PInfo p) = hash then Some (ID (PInfo p)) else get_scan hash ps)"

function get_levels :: "string \<Rightarrow> PeerCache \<Rightarrow> nat \<Rightarrow> (peer_id \<times> error option) option" where
  "get_levels hash cache l =
     (if l < unat (NLevels cache - 1) then
        do {
          lv \<leftarrow> go_index (Levels cache) l;
          (case get_scan hash lv of
             Some p \<Rightarrow> Some (p, nil_error)
           | None \<Rightarrow> get_levels hash cache (Suc l))
        }
      else Some ('''', Some ''No suitable peer found in cache''))"
  by pat_completeness auto
termination
  by (relation "measure (\<lambda>(hash, cache, l). unat (NLevels cache - 1) - l)") auto

definition GetPeer :: "PeerCache \<Rightarrow> string \<Rightarrow> (peer_id \<times> error option) option" where
  "GetPeer cache hash = get_levels hash cache 0"

section \<open>updateCache: refresh, reclassify, sort\<close>

lemma length_rpfs: "rpfs s i = Some s' \<Longrightarrow> length s' = length s - 1 \<and> i < length s"
  by (auto simp: rpfs_def Let_def split: if_splits)

text \<open>
  The body of the first pass for one peer: look the service up (an error is only logged, and the info
  that came with it is used), ping the peer, then drop it (\<open>None\<close>) or update its performance and
  its reliability count.
\<close>

definition probe :: "('w, 'z) world_ops_scheme \<Rightarrow> RPeerInfo \<Rightarrow> RegistryCache \<Rightarrow> 'w
    \<Rightarrow> RPeerInfo option \<times> RegistryCache \<times> 'w" where
  "probe E p rc w =
     (let ((servInfo, err), rc1, w1) = GetOrRequestService E rc (ServName (PInfo p)) w;
          (rtt, w2) = Ping E (RTT (NetworkHardReq servInfo)) (ID (PInfo p)) w1;
          perf = \<lparr>RTT = rtt\<rparr>;
          info = (PInfo p)\<lparr>Perf := perf\<rparr>
      in if rtt = 0 \<or> LessThan E (NetworkHardReq servInfo) perf then (None, rc1, w2)
         else if LessThan E (NetworkSoftReq servInfo) perf then
           (Some \<lparr>RCount = (if RCount p < 10 then 0 else RCount p - 10), PInfo = info\<rparr>, rc1, w2)
         else
           (Some \<lparr>RCount = (if RCount p < 100 then RCount p + 1 else RCount p), PInfo = info\<rparr>, rc1, w2))"

text \<open>
  The inner loop of the first pass. After a removal the index is decremented and then incremented
  again, so the element swapped into place is examined next.
\<close>

function refresh_level :: "('w, 'z) world_ops_scheme \<Rightarrow> RPeerInfo list \<Rightarrow> nat \<Rightarrow> RegistryCache \<Rightarrow> 'w
    \<Rightarrow> (RPeerInfo list \<times> RegistryCache \<times> 'w) option" where
  "refresh_level E xs i rc w =
     (if i < length xs then
        (case probe E (xs ! i) rc w of
           (None, rc1, w1) \<Rightarrow>
             (case rpfs xs i of None \<Rightarrow> None | Some xs' \<Rightarrow> refresh_level E xs' i rc1 w1)
         | (Some p, rc1, w1) \<Rightarrow> refresh_level E (xs[i := p]) (Suc i) rc1 w1)
      else Some (xs, rc, w))"
  by pat_completeness auto
termination
  by (relation "measure (\<lambda>(E, xs, i, rc, w). length xs - i)") (auto dest: length_rpfs)

function refresh_all :: "('w, 'z) world_ops_scheme \<Rightarrow> nat \<Rightarrow> RPeerInfo list list \<Rightarrow> nat \<Rightarrow> RegistryCache \<Rightarrow> 'w
    \<Rightarrow> (RPeerInfo list list \<times> RegistryCache \<times> 'w) option" where
  "refresh_all E n ls l rc w =
     (if l < n then
        do {
          lv \<leftarrow> go_index ls l;
          (lv', rc1, w1) \<leftarrow> refresh_level E lv 0 rc w;
          ls1 \<leftarrow> go_store ls l lv';
          refresh_all E n ls1 (Suc l) rc1 w1
        }
      else Some (ls, rc, w))"
  by pat_completeness auto
termination
  by (relation "measure (\<lambda>(E, n, ls, l, rc, w). n - l)") auto

text \<open>Second pass, top level: unreliable peers drop to level 1 with a count of 50.\<close>

function demote_top :: "RPeerInfo list list \<Rightarrow> nat \<Rightarrow> RPeerInfo list list option" where
  "demote_top ls i =
     (case go_index ls 0 of None \<Rightarrow> None
      | Some l0 \<Rightarrow>
          (if i < length l0 then
             (if RCount (l0 ! i) < 90 then
                (let p = (l0 ! i)\<lparr>RCount := 50\<rparr>
                 in case go_index ls 1 of None \<Rightarrow> None
                    | Some l1 \<Rightarrow>
                        (case rpfs (l0[i := p]) i of None \<Rightarrow> None
                         | Some l0' \<Rightarrow> demote_top ((ls[1 := apts l1 p])[0 := l0']) i))
              else demote_top ls (Suc i))
           else Some ls))"
  by pat_completeness auto
termination
  by (relation "measure (\<lambda>(ls, i). length (ls ! 0) - i)")
    (auto simp: go_index_def split: if_splits dest!: length_rpfs)

text \<open>Second pass, one middle level: promote above 90, drop below 10.\<close>

function move_level :: "nat \<Rightarrow> RPeerInfo list list \<Rightarrow> nat \<Rightarrow> RPeerInfo list list option" where
  "move_level l ls i =
     (case go_index ls l of None \<Rightarrow> None
      | Some lv \<Rightarrow>
          (if i < length lv then
             (if RCount (lv ! i) > 90 then
                (case go_index ls (l - 1) of None \<Rightarrow> None
                 | Some up \<Rightarrow>
                     (case rpfs lv i of None \<Rightarrow> None
                      | Some lv' \<Rightarrow> move_level l ((ls[l - 1 := apts up (lv ! i)])[l := lv']) i))
              else if RCount (lv ! i) < 10 then
                (let p = (lv ! i)\<lparr>RCount := 50\<rparr>
                 in case go_index ls (l + 1) of None \<Rightarrow> None
                    | Some down \<Rightarrow>
                        (case rpfs (lv[i := p]) i of None \<Rightarrow> None
                         | Some lv' \<Rightarrow> move_level l ((ls[l + 1 := apts down p])[l := lv']) i))
              else move_level l ls (Suc i))
           else Some ls))"
  by pat_completeness auto
termination
  by (relation "measure (\<lambda>(l, ls, i). length (ls ! l) - i)")
    (auto simp: go_index_def split: if_splits dest!: length_rpfs)

function move_all :: "nat \<Rightarrow> RPeerInfo list list \<Rightarrow> nat \<Rightarrow> RPeerInfo list list option" where
  "move_all n ls l =
     (if l < n then do { ls1 \<leftarrow> move_level l ls 0; move_all n ls1 (Suc l) } else Some ls)"
  by pat_completeness auto
termination
  by (relation "measure (\<lambda>(n, ls, l). n - l)") auto

text \<open>
  Third pass: \<open>sort.Slice\<close> on every level. The sorting routine is an argument, because the library
  promises a sorted permutation but no particular one (the sort is not stable).
\<close>

function sort_all :: "(RPeerInfo list \<Rightarrow> RPeerInfo list) \<Rightarrow> nat \<Rightarrow> RPeerInfo list list \<Rightarrow> nat
    \<Rightarrow> RPeerInfo list list option" where
  "sort_all srt n ls l =
     (if l < n then
        do { lv \<leftarrow> go_index ls l; ls1 \<leftarrow> go_store ls l (srt lv); sort_all srt n ls1 (Suc l) }
      else Some ls)"
  by pat_completeness auto
termination
  by (relation "measure (\<lambda>(srt, n, ls, l). n - l)") auto

type_synonym slice_sort = "(RPeerInfo \<Rightarrow> RPeerInfo \<Rightarrow> bool) \<Rightarrow> RPeerInfo list \<Rightarrow> RPeerInfo list"

definition updateCache :: "('w, 'z) world_ops_scheme \<Rightarrow> slice_sort \<Rightarrow> PeerCache \<Rightarrow> RegistryCache \<Rightarrow> 'w
    \<Rightarrow> (PeerCache \<times> RegistryCache \<times> 'w) option" where
  "updateCache E srt cache rc w =
     (let nLevels = unat (NLevels cache)
      in do {
        (ls1, rc1, w1) \<leftarrow> refresh_all E nLevels (Levels cache) 0 rc w;
        ls2 \<leftarrow> demote_top ls1 0;
        ls3 \<leftarrow> move_all (unat (NLevels cache - 1)) ls2 1;
        bottom \<leftarrow> go_index ls3 (unat (NLevels cache - 1));
        ls4 \<leftarrow> go_store ls3 (unat (NLevels cache - 1)) (take 0 bottom);
        ls5 \<leftarrow> sort_all (srt (RPeerInfo_LessThan E)) nLevels ls4 0;
        Some (cache\<lparr>Levels := ls5\<rparr>, rc1, w1)
      })"

declare remove_levels.simps [simp del] get_levels.simps [simp del]
  refresh_level.simps [simp del] refresh_all.simps [simp del]
  demote_top.simps [simp del] move_level.simps [simp del] move_all.simps [simp del]
  sort_all.simps [simp del]

section \<open>In-place removal\<close>

text \<open>What the swap leaves behind index \<open>i\<close>: the old last element, then the rest without it.\<close>

definition swap_tail :: "'a list \<Rightarrow> 'a list" where
  "swap_tail ys = (if ys = [] then [] else last ys # butlast ys)"

lemma mset_swap_tail [simp]: "mset (swap_tail ys) = mset ys"
  by (cases ys rule: rev_cases) (auto simp: swap_tail_def)

lemma length_swap_tail [simp]: "length (swap_tail ys) = length ys"
  by (cases ys) (auto simp: swap_tail_def)

lemma set_swap_tail [simp]: "set (swap_tail ys) = set ys"
  by (metis mset_swap_tail set_mset_mset)

lemma rpfs_at:
  assumes "i = length xs"
  shows "rpfs (xs @ a # ys) i = Some (xs @ swap_tail ys)"
proof (cases ys rule: rev_cases)
  case Nil
  with assms show ?thesis by (simp add: rpfs_def swap_tail_def Let_def list_update_append)
next
  case (snoc zs b)
  with assms show ?thesis
    by (simp add: rpfs_def swap_tail_def Let_def list_update_append nth_append)
qed

lemma nth_mid [simp]: "i = length xs \<Longrightarrow> (xs @ a # ys) ! i = a"
  by simp

lemma update_mid [simp]: "i = length xs \<Longrightarrow> (xs @ a # ys)[i := b] = xs @ b # ys"
  by (simp add: list_update_append)

lemma rpfs_None_iff: "rpfs s i = None \<longleftrightarrow> length s \<le> i"
  by (auto simp: rpfs_def Let_def)

section \<open>The first pass visits every peer exactly once\<close>

text \<open>The specification of one level: probe the peers one after the other, keep the survivors.\<close>

fun refresh_seq :: "('w, 'z) world_ops_scheme \<Rightarrow> RPeerInfo list \<Rightarrow> RegistryCache \<Rightarrow> 'w
    \<Rightarrow> RPeerInfo list \<times> RegistryCache \<times> 'w" where
  "refresh_seq E [] rc w = ([], rc, w)"
| "refresh_seq E (p # ps) rc w =
     (let (v, rc1, w1) = probe E p rc w; (qs, rc2, w2) = refresh_seq E ps rc1 w1
      in ((case v of None \<Rightarrow> qs | Some q \<Rightarrow> q # qs), rc2, w2))"

lemma refresh_level_Nil [simp]: "i = length xs \<Longrightarrow> refresh_level E xs i rc w = Some (xs, rc, w)"
  by (simp add: refresh_level.simps)

lemma refresh_level_drop:
  assumes "i = length xs" and "probe E y rc w = (None, rc1, w1)"
  shows "refresh_level E (xs @ y # ys) i rc w = refresh_level E (xs @ swap_tail ys) i rc1 w1"
  using assms by (subst refresh_level.simps) (simp add: rpfs_at)

lemma refresh_level_keep:
  assumes "i = length xs" and "probe E y rc w = (Some q, rc1, w1)"
  shows "refresh_level E (xs @ y # ys) i rc w = refresh_level E ((xs @ [q]) @ ys) (Suc i) rc1 w1"
  using assms by (subst refresh_level.simps) simp

lemma refresh_level_seq_from:
  "\<exists>zs out rc' w'. mset zs = mset ys \<and> refresh_seq E zs rc w = (out, rc', w') \<and>
     refresh_level E (xs @ ys) (length xs) rc w = Some (xs @ out, rc', w')"
proof (induction "length ys" arbitrary: xs ys rc w)
  case 0
  then show ?case by simp
next
  case (Suc n)
  then obtain y t where ys: "ys = y # t" and n: "n = length t"
    by (metis length_Suc_conv)
  obtain v rc1 w1 where pr: "probe E y rc w = (v, rc1, w1)" by (metis surj_pair)
  show ?case
  proof (cases v)
    case None
    from Suc.hyps(1) [of "swap_tail t" rc1 w1 xs] n
    obtain zs out rc' w' where "mset zs = mset t" "refresh_seq E zs rc1 w1 = (out, rc', w')"
      "refresh_level E (xs @ swap_tail t) (length xs) rc1 w1 = Some (xs @ out, rc', w')"
      by auto
    with pr None ys have "mset (y # zs) = mset ys \<and> refresh_seq E (y # zs) rc w = (out, rc', w') \<and>
        refresh_level E (xs @ ys) (length xs) rc w = Some (xs @ out, rc', w')"
      by (simp add: refresh_level_drop)
    then show ?thesis by blast
  next
    case (Some q)
    from Suc.hyps(1) [of t rc1 w1 "xs @ [q]"] n
    obtain zs out rc' w' where "mset zs = mset t" "refresh_seq E zs rc1 w1 = (out, rc', w')"
      "refresh_level E ((xs @ [q]) @ t) (Suc (length xs)) rc1 w1 = Some ((xs @ [q]) @ out, rc', w')"
      by auto
    with pr Some ys have "mset (y # zs) = mset ys \<and> refresh_seq E (y # zs) rc w = (q # out, rc', w') \<and>
        refresh_level E (xs @ ys) (length xs) rc w = Some (xs @ q # out, rc', w')"
      by (simp add: refresh_level_keep)
    then show ?thesis by blast
  qed
qed

section \<open>The second pass\<close>

abbreviation reset50 :: "RPeerInfo \<Rightarrow> RPeerInfo" where
  "reset50 p \<equiv> p\<lparr>RCount := 50\<rparr>"

lemma demote_top_Nil: "i = length xs \<Longrightarrow> demote_top (xs # ls) i = Some (xs # ls)"
  by (simp add: demote_top.simps)

lemma demote_top_drop:
  assumes "i = length xs" and "RCount y < 90"
  shows "demote_top ((xs @ y # ys) # b # ls) i = demote_top ((xs @ swap_tail ys) # apts b (reset50 y) # ls) i"
  using assms by (subst demote_top.simps) (simp add: rpfs_at)

lemma demote_top_keep:
  assumes "i = length xs" and "\<not> RCount y < 90"
  shows "demote_top ((xs @ y # ys) # ls) i = demote_top (((xs @ [y]) @ ys) # ls) (Suc i)"
  using assms by (subst demote_top.simps) simp

lemma demote_top_spec:
  "\<exists>a' b'. demote_top ((xs @ ys) # b # ls) (length xs) = Some (a' # b' # ls) \<and>
     mset a' = mset xs + filter_mset (\<lambda>p. \<not> RCount p < 90) (mset ys) \<and>
     mset b' = mset b + image_mset reset50 (filter_mset (\<lambda>p. RCount p < 90) (mset ys))"
proof (induction "length ys" arbitrary: xs ys b)
  case 0
  then show ?case by (simp add: demote_top_Nil)
next
  case (Suc n)
  then obtain y t where ys: "ys = y # t" and n: "n = length t"
    by (metis length_Suc_conv)
  show ?case
  proof (cases "RCount y < 90")
    case True
    with Suc.hyps(1) [of "swap_tail t" xs "apts b (reset50 y)"] n ys show ?thesis
      by (auto simp: demote_top_drop apts_def ac_simps)
  next
    case False
    with Suc.hyps(1) [of t "xs @ [y]" b] n ys show ?thesis
      by (auto simp: demote_top_keep ac_simps)
  qed
qed

lemma move_level_Nil: "i = length xs \<Longrightarrow> move_level 1 [a, xs, c] i = Some [a, xs, c]"
  by (simp add: move_level.simps)

lemma move_level_up:
  assumes "i = length xs" and "RCount y > 90"
  shows "move_level 1 [a, xs @ y # ys, c] i = move_level 1 [apts a y, xs @ swap_tail ys, c] i"
  using assms by (subst move_level.simps) (simp add: rpfs_at)

lemma move_level_down:
  assumes "i = length xs" and "RCount y < 10"
  shows "move_level 1 [a, xs @ y # ys, c] i = move_level 1 [a, xs @ swap_tail ys, apts c (reset50 y)] i"
proof -
  from assms have "\<not> RCount y > 90"
    by (simp add: word_less_nat_alt)
  with assms show ?thesis by (subst move_level.simps) (simp add: rpfs_at numeral_2_eq_2)
qed

lemma move_level_keep:
  assumes "i = length xs" and "\<not> RCount y > 90" and "\<not> RCount y < 10"
  shows "move_level 1 [a, xs @ y # ys, c] i = move_level 1 [a, (xs @ [y]) @ ys, c] (Suc i)"
  using assms by (subst move_level.simps) simp

lemma move_level_spec:
  "\<exists>a' b' c'. move_level 1 [a, xs @ ys, c] (length xs) = Some [a', b', c'] \<and>
     mset a' = mset a + filter_mset (\<lambda>p. RCount p > 90) (mset ys) \<and>
     mset b' = mset xs + filter_mset (\<lambda>p. \<not> RCount p > 90 \<and> \<not> RCount p < 10) (mset ys)"
proof (induction "length ys" arbitrary: a xs ys c)
  case 0
  then show ?case by (simp add: move_level_Nil [simplified])
next
  case (Suc n)
  then obtain y t where ys: "ys = y # t" and n: "n = length t"
    by (metis length_Suc_conv)
  consider "RCount y > 90" | "RCount y < 10" "\<not> RCount y > 90"
    | "\<not> RCount y > 90" "\<not> RCount y < 10" by blast
  then show ?case
  proof cases
    case 1
    with Suc.hyps(1) [of "swap_tail t" "apts a y" xs c] n ys show ?thesis
      by (auto simp: move_level_up [simplified] apts_def ac_simps)
  next
    case 2
    with Suc.hyps(1) [of "swap_tail t" a xs "apts c (reset50 y)"] n ys show ?thesis
      by (auto simp: move_level_down [simplified] apts_def ac_simps)
  next
    case 3
    with Suc.hyps(1) [of t a "xs @ [y]" c] n ys show ?thesis
      by (auto simp: move_level_keep [simplified] ac_simps)
  qed
qed

section \<open>The contract of \<open>sort.Slice\<close>\<close>

text \<open>
  The documented behaviour: the result is a permutation, ordered whenever the comparison is a
  strict weak order. Nothing is promised about equal elements.
\<close>

locale slice_sorter =
  fixes srt :: "('a \<Rightarrow> 'a \<Rightarrow> bool) \<Rightarrow> 'a list \<Rightarrow> 'a list"
  assumes perm: "mset (srt lt xs) = mset xs"
    and ordered: "strict_weak_order lt \<Longrightarrow> sorted_wrt (\<lambda>a b. \<not> lt b a) (srt lt xs)"
begin

lemma set_srt: "set (srt lt xs) = set xs"
  by (metis perm set_mset_mset)

lemma srt_Nil: "srt lt [] = []"
  using perm [of lt "[]"] by simp

lemma first_is_best:
  assumes "strict_weak_order lt" and "srt lt xs = us @ a # vs"
    and "\<forall>u\<in>set us. \<not> P u" and "b \<in> set xs" and "P b"
  shows "\<not> lt b a"
proof -
  from assms(4) have "b \<in> set (us @ a # vs)" by (simp add: set_srt flip: assms(2))
  with assms(3,5) have "b = a \<or> b \<in> set vs" by auto
  moreover have "sorted_wrt (\<lambda>a b. \<not> lt b a) (us @ a # vs)"
    using ordered [OF assms(1), of xs] by (simp add: assms(2))
  moreover from assms(1) have "\<not> lt a a" by (simp add: strict_weak_order_def)
  ultimately show ?thesis by (auto simp: sorted_wrt_append)
qed

end

text \<open>
  The insertion sort that the Go library runs on short slices: each element sinks towards the
  front while it is less than its neighbour.
\<close>

fun sink :: "('a \<Rightarrow> 'a \<Rightarrow> bool) \<Rightarrow> 'a \<Rightarrow> 'a list \<Rightarrow> 'a list" where
  "sink lt x [] = [x]"
| "sink lt x (y # ys) = (if lt x y then y # sink lt x ys else x # y # ys)"

definition insertionSort :: "('a \<Rightarrow> 'a \<Rightarrow> bool) \<Rightarrow> 'a list \<Rightarrow> 'a list" where
  "insertionSort lt xs = rev (foldl (\<lambda>acc x. sink lt x acc) [] xs)"

lemma mset_sink: "mset (sink lt x ys) = add_mset x (mset ys)"
  by (induction ys) auto

lemma set_sink: "set (sink lt x ys) = insert x (set ys)"
  by (metis mset_sink set_mset_add_mset_insert set_mset_mset)

lemma sorted_sink:
  assumes "strict_weak_order lt"
  shows "sorted_wrt (\<lambda>a b. \<not> lt a b) ys \<Longrightarrow> sorted_wrt (\<lambda>a b. \<not> lt a b) (sink lt x ys)"
proof (induction ys)
  case (Cons y ys)
  then show ?case
    using strict_weak_order_asym [OF assms, of x y] strict_weak_order_negtrans [OF assms, of x y]
    by (auto simp: set_sink)
qed simp

lemma foldl_sink:
  "mset (foldl (\<lambda>acc x. sink lt x acc) acc xs) = mset acc + mset xs"
  "strict_weak_order lt \<Longrightarrow> sorted_wrt (\<lambda>a b. \<not> lt a b) acc \<Longrightarrow>
     sorted_wrt (\<lambda>a b. \<not> lt a b) (foldl (\<lambda>acc x. sink lt x acc) acc xs)"
  by (induction xs arbitrary: acc) (auto simp: mset_sink sorted_sink)

interpretation isort: slice_sorter insertionSort
  by unfold_locales (auto simp: insertionSort_def foldl_sink sorted_wrt_rev)

section \<open>The cache invariant and the whole update\<close>

definition cache_ok :: "PeerCache \<Rightarrow> bool" where
  "cache_ok c \<longleftrightarrow> NLevels c = 3 \<and> rmax c = 3 \<and> length (Levels c) = 3 \<and>
     (\<forall>lv \<in> set (Levels c). \<forall>p \<in> set lv. RCount p \<le> 100)"

lemma cache_ok_levels:
  assumes "cache_ok c"
  obtains a b d where "Levels c = [a, b, d]" and "NLevels c = 3" and "rmax c = 3"
    and "\<forall>p \<in> set a \<union> set b \<union> set d. RCount p \<le> 100"
  using assms by (fastforce simp: cache_ok_def length3_conv)

lemma probe_RCount_le:
  assumes "RCount p \<le> 100" and "probe E p rc w = (Some q, rc', w')"
  shows "RCount q \<le> 100"
proof -
  from assms(2) consider "RCount q = (if RCount p < 10 then 0 else RCount p - 10)"
    | "RCount q = (if RCount p < 100 then RCount p + 1 else RCount p)"
    by (auto simp: probe_def Let_def split: prod.splits if_splits)
  then show ?thesis
  proof cases
    case 1
    then show ?thesis by (simp only: word_drop_le [OF assms(1)])
  next
    case 2
    then show ?thesis by (simp only: word_bump_le [OF assms(1)])
  qed
qed

lemma refresh_seq_RCount_le:
  assumes "\<forall>p \<in> set ps. RCount p \<le> 100" and "refresh_seq E ps rc w = (qs, rc', w')"
  shows "\<forall>q \<in> set qs. RCount q \<le> 100"
  using assms
  by (induction ps arbitrary: rc w qs)
    (auto split: prod.splits option.splits dest: probe_RCount_le)

lemma refresh_all_3:
  "refresh_all E 3 [a, b, d] 0 rc w =
     do { (a', rc1, w1) \<leftarrow> refresh_level E a 0 rc w;
          (b', rc2, w2) \<leftarrow> refresh_level E b 0 rc1 w1;
          (d', rc3, w3) \<leftarrow> refresh_level E d 0 rc2 w2;
          Some ([a', b', d'], rc3, w3) }"
  by (simp add: refresh_all.simps numeral_2_eq_2 split_def)

lemma sort_all_3: "sort_all srt 3 [a, b, d] 0 = Some [srt a, srt b, srt d]"
  by (simp add: sort_all.simps numeral_2_eq_2)

lemma move_all_3: "move_all 2 ls 1 = move_level 1 ls 0"
  by (cases "move_level 1 ls 0") (simp_all add: move_all.simps)

text \<open>
  The abstract effect of the second pass on the three levels, on multisets: peers of the top level
  below 90 go down with a count of 50, peers of the middle level above 90 go up, those below 10
  are thrown away with the bottom level.
\<close>

definition reclassify :: "RPeerInfo list \<Rightarrow> RPeerInfo list \<Rightarrow> RPeerInfo multiset \<times> RPeerInfo multiset" where
  "reclassify a b =
     (filter_mset (\<lambda>p. \<not> RCount p < 90) (mset a) + filter_mset (\<lambda>p. RCount p > 90) (mset b),
      filter_mset (\<lambda>p. \<not> RCount p > 90 \<and> \<not> RCount p < 10) (mset b) +
      image_mset reset50 (filter_mset (\<lambda>p. RCount p < 90) (mset a)))"

lemma filter_reset50:
  "filter_mset (\<lambda>p. RCount p > 90) (image_mset reset50 M) = {#}"
  "filter_mset (\<lambda>p. \<not> RCount p > 90 \<and> \<not> RCount p < 10) (image_mset reset50 M) = image_mset reset50 M"
  by (induction M) auto

lemma second_pass_spec:
  "\<exists>a' b' d' c1. demote_top [a, b, d] 0 = Some c1 \<and> move_all 2 c1 1 = Some [a', b', d'] \<and>
     (mset a', mset b') = reclassify a b"
proof -
  from demote_top_spec [of "[]" a b "[d]"] obtain a1 b1 where
    dm: "demote_top [a, b, d] 0 = Some [a1, b1, d]"
    and a1: "mset a1 = filter_mset (\<lambda>p. \<not> RCount p < 90) (mset a)"
    and b1: "mset b1 = mset b + image_mset reset50 (filter_mset (\<lambda>p. RCount p < 90) (mset a))"
    by auto
  from move_level_spec [of a1 "[]" b1 d] obtain a' b' d' where
    mv: "move_level 1 [a1, b1, d] 0 = Some [a', b', d']"
    and "mset a' = mset a1 + filter_mset (\<lambda>p. RCount p > 90) (mset b1)"
    and "mset b' = filter_mset (\<lambda>p. \<not> RCount p > 90 \<and> \<not> RCount p < 10) (mset b1)"
    by auto
  then have "(mset a', mset b') = reclassify a b"
    by (simp add: a1 b1 filter_reset50 reclassify_def)
  with dm mv show ?thesis unfolding move_all_3 by blast
qed

text \<open>The whole update on a well-formed cache, as one equation.\<close>

lemma updateCache_spec:
  assumes "Levels c = [a, b, d]" and "NLevels c = 3" and "slice_sorter srt"
  obtains za zb zd a1 b1 d1 rc1 w1 rc2 w2 rc' w' l0 l1 where
    "mset za = mset a" "mset zb = mset b" "mset zd = mset d"
    "refresh_seq E za rc w = (a1, rc1, w1)" "refresh_seq E zb rc1 w1 = (b1, rc2, w2)"
    "refresh_seq E zd rc2 w2 = (d1, rc', w')"
    "(mset l0, mset l1) = reclassify a1 b1"
    "updateCache E srt c rc w =
       Some (c\<lparr>Levels := [srt (RPeerInfo_LessThan E) l0, srt (RPeerInfo_LessThan E) l1, []]\<rparr>, rc', w')"
proof -
  from refresh_level_seq_from [of a E rc w "[]"] obtain za a1 rc1 w1 where
    a: "mset za = mset a" "refresh_seq E za rc w = (a1, rc1, w1)"
       "refresh_level E a 0 rc w = Some (a1, rc1, w1)" by auto
  from refresh_level_seq_from [of b E rc1 w1 "[]"] obtain zb b1 rc2 w2 where
    b: "mset zb = mset b" "refresh_seq E zb rc1 w1 = (b1, rc2, w2)"
       "refresh_level E b 0 rc1 w1 = Some (b1, rc2, w2)" by auto
  from refresh_level_seq_from [of d E rc2 w2 "[]"] obtain zd d1 rc' w' where
    d: "mset zd = mset d" "refresh_seq E zd rc2 w2 = (d1, rc', w')"
       "refresh_level E d 0 rc2 w2 = Some (d1, rc', w')" by auto
  from second_pass_spec [of a1 b1 d1] obtain l0 l1 l2 c1 where
    m: "demote_top [a1, b1, d1] 0 = Some c1" "move_all 2 c1 1 = Some [l0, l1, l2]"
       "(mset l0, mset l1) = reclassify a1 b1" by auto
  have "updateCache E srt c rc w =
      Some (c\<lparr>Levels := [srt (RPeerInfo_LessThan E) l0, srt (RPeerInfo_LessThan E) l1, []]\<rparr>, rc', w')"
    using assms a(3) b(3) d(3) m(1,2)
    by (simp add: updateCache_def refresh_all_3 sort_all_3 slice_sorter.srt_Nil)
  with a(1,2) b(1,2) d(1,2) m(3) that show ?thesis by blast
qed

lemma reclassify_bounds:
  assumes "(mset l0, mset l1) = reclassify a b"
  shows "\<And>p. p \<in> set l0 \<Longrightarrow> 90 \<le> RCount p" and "\<And>p. p \<in> set l1 \<Longrightarrow> 10 \<le> RCount p \<and> RCount p \<le> 90"
    and "\<And>p. p \<in> set l0 \<Longrightarrow> p \<in> set a \<union> set b"
proof -
  from assms have l0: "set l0 = {p \<in> set a. \<not> RCount p < 90} \<union> {p \<in> set b. RCount p > 90}"
    and l1: "set l1 = {p \<in> set b. \<not> RCount p > 90 \<and> \<not> RCount p < 10} \<union>
      reset50 ` {p \<in> set a. RCount p < 90}"
    by (auto simp: reclassify_def simp flip: set_mset_mset)
  show "\<And>p. p \<in> set l0 \<Longrightarrow> 90 \<le> RCount p" by (auto simp: l0 not_less)
  show "\<And>p. p \<in> set l1 \<Longrightarrow> 10 \<le> RCount p \<and> RCount p \<le> 90" by (auto simp: l1 not_less)
  show "\<And>p. p \<in> set l0 \<Longrightarrow> p \<in> set a \<union> set b" by (auto simp: l0)
qed


lemma cache_ok_updateCache:
  assumes "cache_ok c" and "slice_sorter srt"
  shows "\<exists>c' rc' w'. updateCache E srt c rc w = Some (c', rc', w') \<and> cache_ok c'"
proof -
  from assms(1) obtain a b d where c: "Levels c = [a, b, d]" "NLevels c = 3" "rmax c = 3"
    and le: "\<forall>p \<in> set a \<union> set b \<union> set d. RCount p \<le> 100"
    by (rule cache_ok_levels)
  from c(1,2) assms(2) obtain za zb zd a1 b1 d1 rc1 w1 rc2 w2 rc' w' l0 l1 where
    z: "mset za = mset a" "mset zb = mset b"
    and sq: "refresh_seq E za rc w = (a1, rc1, w1)" "refresh_seq E zb rc1 w1 = (b1, rc2, w2)"
    and m: "(mset l0, mset l1) = reclassify a1 b1"
    and upd: "updateCache E srt c rc w =
       Some (c\<lparr>Levels := [srt (RPeerInfo_LessThan E) l0, srt (RPeerInfo_LessThan E) l1, []]\<rparr>, rc', w')"
    by (rule updateCache_spec)
  from z le have za: "\<forall>p \<in> set za. RCount p \<le> 100" and zb: "\<forall>p \<in> set zb. RCount p \<le> 100"
    by (auto dest: mset_eq_setD)
  have "\<forall>p \<in> set a1 \<union> set b1. RCount p \<le> 100"
    using refresh_seq_RCount_le [OF za sq(1)] refresh_seq_RCount_le [OF zb sq(2)] by blast
  then have "\<forall>p \<in> set l0. RCount p \<le> 100"
    using reclassify_bounds(3) [OF m] by blast
  moreover have "\<forall>p \<in> set l1. RCount p \<le> 100"
    using reclassify_bounds(2) [OF m] by (force intro: order_trans [of _ 90])
  ultimately show ?thesis
    using upd c by (simp add: cache_ok_def slice_sorter.set_srt [OF assms(2)])
qed

section \<open>Adding, removing and looking up on three levels\<close>

lemma get_scan_append: "get_scan h (xs @ ys) = (case get_scan h xs of None \<Rightarrow> get_scan h ys | Some p \<Rightarrow> Some p)"
  by (induction xs) auto

lemma get_scan_SomeD:
  "get_scan h xs = Some x \<Longrightarrow>
     \<exists>us p vs. xs = us @ p # vs \<and> ID (PInfo p) = x \<and> ServHash (PInfo p) = h \<and> (\<forall>u\<in>set us. ServHash (PInfo u) \<noteq> h)"
proof (induction xs)
  case (Cons q qs)
  show ?case
  proof (cases "ServHash (PInfo q) = h")
    case True
    with Cons.prems show ?thesis by (intro exI [of _ "[]"]) auto
  next
    case False
    with Cons obtain us p vs where "qs = us @ p # vs \<and> ID (PInfo p) = x \<and> ServHash (PInfo p) = h \<and>
      (\<forall>u\<in>set us. ServHash (PInfo u) \<noteq> h)" by auto
    with False have "q # qs = (q # us) @ p # vs \<and> ID (PInfo p) = x \<and> ServHash (PInfo p) = h \<and>
      (\<forall>u\<in>set (q # us). ServHash (PInfo u) \<noteq> h)" by simp
    then show ?thesis by blast
  qed
qed simp

lemma get_scan_None_iff: "get_scan h xs = None \<longleftrightarrow> (\<forall>p \<in> set xs. ServHash (PInfo p) \<noteq> h)"
  by (induction xs) auto

lemma GetPeer_3:
  assumes "Levels c = [a, b, d]" and "NLevels c = 3"
  shows "GetPeer c h = Some (case get_scan h (a @ b) of
     Some x \<Rightarrow> (x, nil_error) | None \<Rightarrow> ('''', Some ''No suitable peer found in cache''))"
  using assms
  by (auto simp: GetPeer_def get_levels.simps get_scan_append split: option.splits)

lemma AddPeer_3:
  assumes "Levels c = [a, b, d]" and "NLevels c = 3"
  shows "AddPeer c p = Some (c\<lparr>Levels := [a, b @ [\<lparr>RCount = 50, PInfo = p\<rparr>], d]\<rparr>)"
  using assms by (simp add: AddPeer_def apts_def)

text \<open>Position of the first peer with the given identifier.\<close>

fun first_match :: "peer_id \<Rightarrow> RPeerInfo list \<Rightarrow> nat option" where
  "first_match pid [] = None"
| "first_match pid (p # ps) =
     (if pid = ID (PInfo p) then Some 0 else map_option Suc (first_match pid ps))"

lemma first_match_Some:
  "first_match pid ps = Some i \<Longrightarrow> i < length ps \<and> ID (PInfo (ps ! i)) = pid"
  by (induction ps arbitrary: i) (auto split: if_splits)

lemma first_match_None_iff: "first_match pid ps = None \<longleftrightarrow> (\<forall>p\<in>set ps. ID (PInfo p) \<noteq> pid)"
  by (induction ps) auto

lemma remove_scan_first_match:
  "unat cnt + k = unat rm \<Longrightarrow>
     remove_scan pid rm ps i cnt = map_option (\<lambda>j. i + j) (first_match pid (take k ps))"
proof (induction ps arbitrary: k i cnt)
  case (Cons p ps)
  show ?case
  proof (cases k)
    case 0
    with Cons.prems show ?thesis by (simp add: word_less_nat_alt)
  next
    case (Suc k')
    with Cons.prems have lt: "cnt < rm" by (simp add: word_less_nat_alt)
    then have "unat (cnt + 1) = unat cnt + 1"
      using unat_bump [OF less_imp_le [OF lt]] by (simp add: word_less_nat_alt)
    with Cons.IH [of "cnt + 1" k' "Suc i"] Cons.prems Suc lt show ?thesis
      by (auto simp: option.map_comp comp_def)
  qed
qed simp

lemma remove_scan_3: "remove_scan pid 3 ps 0 0 = first_match pid (take 3 ps)"
  by (subst remove_scan_first_match [where k = 3]) (auto split: option.split simp: map_option_case)

text \<open>What removal leaves of a level, on its multiset.\<close>

lemma rpfs_mset:
  assumes "i < length s"
  obtains s' where "rpfs s i = Some s'" and "mset s' = mset s - {#s ! i#}"
proof -
  have s: "s = take i s @ s ! i # drop (Suc i) s" and i: "i = length (take i s)"
    using assms by (auto simp: id_take_nth_drop)
  have "rpfs s i = Some (take i s @ swap_tail (drop (Suc i) s))"
    using rpfs_at [OF i, of "s ! i" "drop (Suc i) s"] s by simp
  moreover have "mset (take i s @ swap_tail (drop (Suc i) s)) = mset s - {#s ! i#}"
    by (simp add: mset_nth_split [OF assms])
  ultimately show thesis using that by blast
qed

lemma RemovePeer_3:
  assumes "Levels c = [a, b, d]" and "NLevels c = 3" and "rmax c = 3"
  shows "RemovePeer c pid =
     (case first_match pid (take 3 a) of
        Some i \<Rightarrow> map_option (\<lambda>a'. c\<lparr>Levels := [a', b, d]\<rparr>) (rpfs a i)
      | None \<Rightarrow>
          (case first_match pid (take 3 b) of
             Some i \<Rightarrow> map_option (\<lambda>b'. c\<lparr>Levels := [a, b', d]\<rparr>) (rpfs b i)
           | None \<Rightarrow> Some c))"
  using assms
  by (simp add: RemovePeer_def remove_levels.simps remove_scan_3 map_conv_bind_option comp_def
      split: option.split)

lemma first_match_take:
  assumes "first_match pid (take k xs) = Some i"
  obtains xs' where "rpfs xs i = Some xs'" and "mset xs' = mset xs - {#xs ! i#}"
    and "xs ! i \<in> set (take k xs)" and "ID (PInfo (xs ! i)) = pid" and "xs ! i \<in># mset xs"
proof -
  from first_match_Some [OF assms] have i: "i < length xs" "i < length (take k xs)"
    and pid: "ID (PInfo (xs ! i)) = pid" by auto
  from i(2) have "xs ! i \<in> set (take k xs)" by (metis nth_mem nth_take length_take min_less_iff_conj)
  moreover obtain xs' where "rpfs xs i = Some xs'" "mset xs' = mset xs - {#xs ! i#}"
    by (rule rpfs_mset [OF i(1)])
  ultimately show thesis using that pid i(1) by simp
qed

text \<open>One peer at most is removed, and it is one with the given identifier from the head of a level.\<close>

lemma RemovePeer_cases:
  assumes "Levels c = [a, b, d]" and "NLevels c = 3" and "rmax c = 3"
  obtains (top) p a' where "RemovePeer c pid = Some (c\<lparr>Levels := [a', b, d]\<rparr>)"
      "mset a' = mset a - {#p#}" "p \<in> set (take 3 a)" "ID (PInfo p) = pid"
  | (middle) p b' where "RemovePeer c pid = Some (c\<lparr>Levels := [a, b', d]\<rparr>)"
      "mset b' = mset b - {#p#}" "p \<in> set (take 3 b)" "ID (PInfo p) = pid"
      "\<forall>q \<in> set (take 3 a). ID (PInfo q) \<noteq> pid"
  | (absent) "RemovePeer c pid = Some c"
      "\<forall>q \<in> set (take 3 a) \<union> set (take 3 b). ID (PInfo q) \<noteq> pid"
proof (cases "first_match pid (take 3 a)")
  case (Some i)
  then obtain a' where "rpfs a i = Some a'" "mset a' = mset a - {#a ! i#}"
      "a ! i \<in> set (take 3 a)" "ID (PInfo (a ! i)) = pid"
    by (rule first_match_take)
  with Some top show thesis by (simp add: RemovePeer_3 [OF assms])
next
  case None
  then have na: "\<forall>q \<in> set (take 3 a). ID (PInfo q) \<noteq> pid" by (simp add: first_match_None_iff)
  show thesis
  proof (cases "first_match pid (take 3 b)")
    case (Some i)
    then obtain b' where "rpfs b i = Some b'" "mset b' = mset b - {#b ! i#}"
        "b ! i \<in> set (take 3 b)" "ID (PInfo (b ! i)) = pid"
      by (rule first_match_take)
    with Some None na middle show thesis by (simp add: RemovePeer_3 [OF assms])
  next
    case None
    with \<open>first_match pid (take 3 a) = None\<close> have "RemovePeer c pid = Some c"
      by (simp add: RemovePeer_3 [OF assms])
    moreover from None na have "\<forall>q \<in> set (take 3 a) \<union> set (take 3 b). ID (PInfo q) \<noteq> pid"
      by (auto simp: first_match_None_iff)
    ultimately show thesis by (rule absent)
  qed
qed

lemma set_mset_diff_subset: "mset xs' = mset xs - M \<Longrightarrow> set xs' \<subseteq> set xs"
  by (metis in_diffD set_mset_mset subsetI)

section \<open>The contract the proxies rely on\<close>

text \<open>The peers on offer: those of every level but the last, with the hash of the service each offers.\<close>

definition offered :: "PeerCache \<Rightarrow> (peer_id \<times> string) set" where
  "offered c = (\<lambda>p. (ID (PInfo p), ServHash (PInfo p))) `
     set (concat (take (unat (NLevels c - 1)) (Levels c)))"

lemma offered_3: "Levels c = [a, b, d] \<Longrightarrow> NLevels c = 3 \<Longrightarrow>
    offered c = (\<lambda>p. (ID (PInfo p), ServHash (PInfo p))) ` (set a \<union> set b)"
  by (simp add: offered_def)

locale peer_store =
  fixes ok :: "'c \<Rightarrow> bool"
    and offer :: "'c \<Rightarrow> (peer_id \<times> string) set"
    and add :: "'c \<Rightarrow> PeerInfo \<Rightarrow> 'c option"
    and get :: "'c \<Rightarrow> string \<Rightarrow> (peer_id \<times> error option) option"
    and rem :: "'c \<Rightarrow> peer_id \<Rightarrow> 'c option"
  assumes add_ok: "ok c \<Longrightarrow> \<exists>c'. add c p = Some c' \<and> ok c' \<and> offer c' = insert (ID p, ServHash p) (offer c)"
    and get_ok: "ok c \<Longrightarrow> \<exists>x err. get c h = Some (x, err) \<and>
          (if \<exists>y. (y, h) \<in> offer c then err = nil_error \<and> (x, h) \<in> offer c else err \<noteq> nil_error \<and> x = [])"
    and rem_ok: "ok c \<Longrightarrow> \<exists>c'. rem c x = Some c' \<and> ok c' \<and> offer c' \<subseteq> offer c \<and>
          offer c - {y. fst y = x} \<subseteq> offer c'"
begin

lemma get_hit: "ok c \<Longrightarrow> get c h = Some (x, nil_error) \<Longrightarrow> (x, h) \<in> offer c"
  using get_ok [of c h] by (auto split: if_splits)

lemma get_miss: "ok c \<Longrightarrow> get c h = Some (x, Some e) \<Longrightarrow> x = [] \<and> (\<forall>y. (y, h) \<notin> offer c)"
  using get_ok [of c h] by (auto split: if_splits)

lemma get_total: "ok c \<Longrightarrow> \<exists>x err. get c h = Some (x, err)"
  using get_ok [of c h] by blast

lemma get_after_add:
  assumes "ok c" and "add c p = Some c'"
  shows "\<exists>x. get c' (ServHash p) = Some (x, nil_error) \<and> (x, ServHash p) \<in> insert (ID p, ServHash p) (offer c)"
proof -
  from add_ok [OF assms(1), of p] assms(2)
  have "ok c'" and "offer c' = insert (ID p, ServHash p) (offer c)" by auto
  with get_ok [of c' "ServHash p"] show ?thesis by (auto split: if_splits)
qed

lemma get_after_rem_other:
  assumes "ok c" and "rem c x = Some c'" and "(y, h) \<in> offer c" and "y \<noteq> x"
  shows "\<exists>z. get c' h = Some (z, nil_error)"
proof -
  from rem_ok [OF assms(1), of x] assms(2) have "ok c'" and "offer c - {y. fst y = x} \<subseteq> offer c'" by auto
  with assms(3,4) have "(y, h) \<in> offer c'" by auto
  with \<open>ok c'\<close> get_ok [of c' h] show ?thesis by (auto split: if_splits)
qed

end

lemma cache_ok_AddPeer:
  assumes "cache_ok c"
  shows "\<exists>c'. AddPeer c p = Some c' \<and> cache_ok c' \<and> offered c' = insert (ID p, ServHash p) (offered c)"
proof -
  from assms obtain a b d where c: "Levels c = [a, b, d]" "NLevels c = 3" "rmax c = 3"
    and le: "\<forall>p \<in> set a \<union> set b \<union> set d. RCount p \<le> 100" by (rule cache_ok_levels)
  let ?c' = "c\<lparr>Levels := [a, b @ [\<lparr>RCount = 50, PInfo = p\<rparr>], d]\<rparr>"
  have "cache_ok ?c'" using c le by (auto simp: cache_ok_def)
  moreover have "offered ?c' = insert (ID p, ServHash p) (offered c)"
    using c by (auto simp: offered_def)
  ultimately show ?thesis using AddPeer_3 [OF c(1,2)] by auto
qed

lemma cache_ok_GetPeer:
  assumes "cache_ok c"
  shows "\<exists>x err. GetPeer c h = Some (x, err) \<and>
     (if \<exists>y. (y, h) \<in> offered c then err = nil_error \<and> (x, h) \<in> offered c else err \<noteq> nil_error \<and> x = [])"
proof -
  from assms obtain a b d where c: "Levels c = [a, b, d]" "NLevels c = 3" by (rule cache_ok_levels)
  show ?thesis
  proof (cases "get_scan h (a @ b)")
    case None
    then have "\<forall>p \<in> set a \<union> set b. ServHash (PInfo p) \<noteq> h" by (simp add: get_scan_None_iff)
    then have "\<nexists>y. (y, h) \<in> offered c" by (auto simp: offered_3 [OF c])
    with None show ?thesis by (simp add: GetPeer_3 [OF c])
  next
    case (Some x)
    from get_scan_SomeD [OF Some] obtain p where
      "p \<in> set a \<union> set b" "ID (PInfo p) = x" "ServHash (PInfo p) = h"
      by (metis in_set_conv_decomp set_append)
    then have "(x, h) \<in> offered c" by (auto simp: offered_3 [OF c])
    with Some show ?thesis by (auto simp: GetPeer_3 [OF c])
  qed
qed

lemma image_diff_keeps: "A - {p} \<subseteq> A' \<Longrightarrow> f ` A - {y. fst y = fst (f p)} \<subseteq> f ` A'"
  by blast

lemma set_mset_diff1: "mset xs = mset ys - {#p#} \<Longrightarrow> set ys - {p} \<subseteq> set xs"
  by (metis Diff_insert_absorb diff_single_trivial insert_DiffM mset_zero_iff set_mset_add_mset_insert
      set_mset_mset subset_insert_iff subset_refl Diff_subset)

lemma cache_ok_RemovePeer:
  assumes "cache_ok c"
  shows "\<exists>c'. RemovePeer c pid = Some c' \<and> cache_ok c' \<and> offered c' \<subseteq> offered c \<and>
     offered c - {y. fst y = pid} \<subseteq> offered c'"
proof -
  from assms obtain a b d where c: "Levels c = [a, b, d]" "NLevels c = 3" "rmax c = 3"
    and le: "\<forall>p \<in> set a \<union> set b \<union> set d. RCount p \<le> 100" by (rule cache_ok_levels)
  let ?f = "\<lambda>p. (ID (PInfo p), ServHash (PInfo p))"
  from c show ?thesis
  proof (cases rule: RemovePeer_cases [where pid = pid])
    case (top p a')
    let ?c' = "c\<lparr>Levels := [a', b, d]\<rparr>"
    note sub = set_mset_diff_subset [OF top(2)]
    from set_mset_diff1 [OF top(2)] have "set a \<union> set b - {p} \<subseteq> set a' \<union> set b" by blast
    from image_diff_keeps [OF this, of ?f] top(4) have "offered c - {y. fst y = pid} \<subseteq> offered ?c'"
      using c by (simp add: offered_3)
    moreover have "cache_ok ?c'" "offered ?c' \<subseteq> offered c"
      using c le sub by (auto simp: cache_ok_def offered_3)
    ultimately show ?thesis using top(1) by blast
  next
    case (middle p b')
    let ?c' = "c\<lparr>Levels := [a, b', d]\<rparr>"
    note sub = set_mset_diff_subset [OF middle(2)]
    from set_mset_diff1 [OF middle(2)] have "set a \<union> set b - {p} \<subseteq> set a \<union> set b'" by blast
    from image_diff_keeps [OF this, of ?f] middle(4) have "offered c - {y. fst y = pid} \<subseteq> offered ?c'"
      using c by (simp add: offered_3)
    moreover have "cache_ok ?c'" "offered ?c' \<subseteq> offered c"
      using c le sub by (auto simp: cache_ok_def offered_3)
    ultimately show ?thesis using middle(1) by blast
  next
    case absent
    with assms show ?thesis by auto
  qed
qed

interpretation pc: peer_store cache_ok offered AddPeer GetPeer RemovePeer
  by unfold_locales (fact cache_ok_AddPeer cache_ok_GetPeer cache_ok_RemovePeer)+

section \<open>Runs of the cache\<close>

text \<open>
  One exported operation runs at a time (each takes the mutex), in any order and in any world:
  request handlers add, remove and look up peers, the update goroutine runs \<open>updateCache\<close>. The result is the cache afterwards, which a lookup
  leaves as it is, or \<open>None\<close> when the operation panics.
\<close>

inductive pcache_step :: "('w, 'z) world_ops_scheme \<Rightarrow> slice_sort \<Rightarrow> PeerCache \<Rightarrow> PeerCache option \<Rightarrow> bool"
  for E :: "('w, 'z) world_ops_scheme" and srt :: slice_sort where
  add: "pcache_step E srt c (AddPeer c p)"
| remove: "pcache_step E srt c (RemovePeer c pid)"
| lookup: "pcache_step E srt c (map_option (\<lambda>_. c) (GetPeer c h))"
| update: "pcache_step E srt c (map_option fst (updateCache E srt c rc w))"

inductive pcache_reach :: "('w, 'z) world_ops_scheme \<Rightarrow> slice_sort \<Rightarrow> PeerCache \<Rightarrow> bool"
  for E :: "('w, 'z) world_ops_scheme" and srt :: slice_sort where
  new: "pcache_reach E srt (fst (NewPeerCache regCache))"
| step: "pcache_reach E srt c \<Longrightarrow> pcache_step E srt c (Some c') \<Longrightarrow> pcache_reach E srt c'"

lemma NewPeerCache_levels: "fst (NewPeerCache regCache) = \<lparr>NLevels = 3, Levels = [[], [], []], rmax = 3\<rparr>"
  by (simp add: NewPeerCache_def) (simp add: numeral_3_eq_3)

lemma cache_ok_New: "cache_ok (fst (NewPeerCache regCache))"
  by (simp add: NewPeerCache_levels cache_ok_def)

lemma pcache_step_ok:
  assumes "cache_ok c" and "slice_sorter srt" and "pcache_step E srt c r"
  shows "\<exists>c'. r = Some c' \<and> cache_ok c'"
  using assms(3)
proof (cases rule: pcache_step.cases)
  case (add p)
  with cache_ok_AddPeer [OF assms(1), of p] show ?thesis by auto
next
  case (remove pid)
  with cache_ok_RemovePeer [OF assms(1), of pid] show ?thesis by auto
next
  case (lookup h)
  with pc.get_total [OF assms(1), of h] assms(1) show ?thesis by auto
next
  case (update rc w)
  with cache_ok_updateCache [OF assms(1,2), of E rc w] show ?thesis by auto
qed

lemma pcache_reach_ok: "pcache_reach E srt c \<Longrightarrow> slice_sorter srt \<Longrightarrow> cache_ok c"
proof (induction rule: pcache_reach.induct)
  case (new regCache)
  show ?case by (rule cache_ok_New)
next
  case (step c c')
  with pcache_step_ok [of c srt E "Some c'"] show ?case by auto
qed

text \<open>A concrete cache: one reliable peer, a slow one and an unreachable one that were just added.\<close>

definition demo_peer :: "string \<Rightarrow> PeerInfo" where
  "demo_peer name = \<lparr>ID = name, Perf = \<lparr>RTT = 0\<rparr>, ServName = ''web'', ServHash = ''h-web''\<rparr>"

definition demo_cache :: PeerCache where
  "demo_cache = \<lparr>NLevels = 3,
     Levels = [[\<lparr>RCount = 95, PInfo = demo_peer ''near''\<rparr>],
               [\<lparr>RCount = 50, PInfo = demo_peer ''mid''\<rparr>, \<lparr>RCount = 50, PInfo = demo_peer ''gone''\<rparr>], []],
     rmax = 3\<rparr>"

lemma demo_cache_ok: "cache_ok demo_cache"
  by (simp add: cache_ok_def demo_cache_def)

section \<open>Properties\<close>

text \<open>
  C1. Whatever the requests, the pings and the registry do, and in whatever order the operations
  are interleaved, no operation of a cache that \<open>NewPeerCache\<close> made (adding, removing, looking up, updating) ever panics (no slice index is out of
  range), the cache keeps its three levels, and no reliability count exceeds 100.
\<close>
theorem pcache_never_panics:
  assumes "pcache_reach E srt c" and "slice_sorter srt" and "pcache_step E srt c r"
  shows "\<exists>c'. r = Some c' \<and> pcache_reach E srt c' \<and> length (Levels c') = 3 \<and>
    (\<forall>lv \<in> set (Levels c'). \<forall>p \<in> set lv. RCount p \<le> 100)"
proof -
  from assms(1,2) have "cache_ok c" by (rule pcache_reach_ok)
  from pcache_step_ok [OF this assms(2,3)] obtain c' where r: "r = Some c'" and "cache_ok c'" by blast
  moreover from assms(1,3) r have "pcache_reach E srt c'" by (blast intro: pcache_reach.step)
  ultimately show ?thesis by (simp add: cache_ok_def)
qed

text \<open>Witness of C1: adding a peer to a fresh cache.\<close>
theorem pcache_never_panics_witness:
  "\<exists>c'. AddPeer (fst (NewPeerCache None)) (demo_peer ''near'') = Some c' \<and>
     pcache_reach demo_ops insertionSort c' \<and> length (Levels c') = 3 \<and>
     (\<forall>lv \<in> set (Levels c'). \<forall>p \<in> set lv. RCount p \<le> 100)"
  by (rule pcache_never_panics [OF pcache_reach.new isort.slice_sorter_axioms pcache_step.add])

text \<open>
  C3. \<open>updateCache\<close> sorts the peers out by reliability: it always returns; afterwards the last level is
  empty, every peer of level 0 has a count of at least 90, every peer of level 1 a count between
  10 and 90, and both levels are ordered by performance whenever \<open>PerfInd.LessThan\<close> is a strict weak
  order.
\<close>
theorem updateCache_levels:
  assumes "cache_ok c" and "slice_sorter srt" and "strict_weak_order (LessThan E)"
  shows "\<exists>l0 l1 rc' w'. updateCache E srt c rc w = Some (c\<lparr>Levels := [l0, l1, []]\<rparr>, rc', w') \<and>
    (\<forall>p \<in> set l0. 90 \<le> RCount p) \<and> (\<forall>p \<in> set l1. 10 \<le> RCount p \<and> RCount p \<le> 90) \<and>
    sorted_wrt (\<lambda>p q. \<not> LessThan E (Perf (PInfo q)) (Perf (PInfo p))) l0 \<and>
    sorted_wrt (\<lambda>p q. \<not> LessThan E (Perf (PInfo q)) (Perf (PInfo p))) l1"
proof -
  from assms(1) obtain a b d where c: "Levels c = [a, b, d]" "NLevels c = 3" by (rule cache_ok_levels)
  from c assms(2) obtain a1 b1 l0 l1 rc' w' where
    m: "(mset l0, mset l1) = reclassify a1 b1"
    and upd: "updateCache E srt c rc w =
       Some (c\<lparr>Levels := [srt (RPeerInfo_LessThan E) l0, srt (RPeerInfo_LessThan E) l1, []]\<rparr>, rc', w')"
    by (rule updateCache_spec)
  have "strict_weak_order (RPeerInfo_LessThan E)"
    using strict_weak_order_image [OF assms(3), of "\<lambda>p. Perf (PInfo p)"]
    by (simp add: RPeerInfo_LessThan_def [abs_def])
  note ord = slice_sorter.ordered [OF assms(2) this, unfolded RPeerInfo_LessThan_def]
  show ?thesis
  proof (intro exI conjI)
    show "updateCache E srt c rc w =
      Some (c\<lparr>Levels := [srt (RPeerInfo_LessThan E) l0, srt (RPeerInfo_LessThan E) l1, []]\<rparr>, rc', w')"
      by (rule upd)
  qed (use reclassify_bounds(1,2) [OF m] ord in
      \<open>auto simp: slice_sorter.set_srt [OF assms(2)] RPeerInfo_LessThan_def [abs_def]\<close>)
qed

text \<open>Witness of C3: the concrete cache in the concrete world.\<close>
theorem updateCache_levels_witness:
  "\<exists>l0 l1 rc' w'. updateCache demo_ops insertionSort demo_cache (NewRegistryCache 600) 0 =
      Some (demo_cache\<lparr>Levels := [l0, l1, []]\<rparr>, rc', w') \<and>
    (\<forall>p \<in> set l0. 90 \<le> RCount p) \<and> (\<forall>p \<in> set l1. 10 \<le> RCount p \<and> RCount p \<le> 90) \<and>
    sorted_wrt (\<lambda>p q. \<not> LessThan demo_ops (Perf (PInfo q)) (Perf (PInfo p))) l0 \<and>
    sorted_wrt (\<lambda>p q. \<not> LessThan demo_ops (Perf (PInfo q)) (Perf (PInfo p))) l1"
proof (rule updateCache_levels [OF demo_cache_ok isort.slice_sorter_axioms])
  show "strict_weak_order (LessThan demo_ops)"
    by (simp add: demo_ops_def strict_weak_order_measure)
qed

lemma demo_update:
  "map_option (\<lambda>r. Levels (fst r)) (updateCache demo_ops insertionSort demo_cache (NewRegistryCache 600) 0) =
     Some [[\<lparr>RCount = 96, PInfo = (demo_peer ''near'')\<lparr>Perf := \<lparr>RTT = 50\<rparr>\<rparr>\<rparr>],
           [\<lparr>RCount = 40, PInfo = (demo_peer ''mid'')\<lparr>Perf := \<lparr>RTT = 500\<rparr>\<rparr>\<rparr>], []]"
  by code_simp

text \<open>
  C2. The in-place loops of \<open>updateCache\<close> implement a simple specification: every peer of every level is
  probed exactly once (in some order, level by level, threading the registry cache and the world),
  the survivors of levels 0 and 1 are redistributed as \<open>reclassify\<close> says, those of level 2 are dropped,
  and nothing else is gained or lost by the swap-and-truncate removals.
\<close>
theorem updateCache_refines_reclassify:
  assumes "cache_ok c" and "slice_sorter srt"
  shows "\<exists>za zb zd a1 b1 d1 rc1 w1 rc2 w2 rc' w' l0 l1.
    mset za = mset (Levels c ! 0) \<and> mset zb = mset (Levels c ! 1) \<and> mset zd = mset (Levels c ! 2) \<and>
    refresh_seq E za rc w = (a1, rc1, w1) \<and> refresh_seq E zb rc1 w1 = (b1, rc2, w2) \<and>
    refresh_seq E zd rc2 w2 = (d1, rc', w') \<and>
    updateCache E srt c rc w = Some (c\<lparr>Levels := [l0, l1, []]\<rparr>, rc', w') \<and>
    (mset l0, mset l1) = reclassify a1 b1"
proof -
  from assms(1) obtain a b d where c: "Levels c = [a, b, d]" "NLevels c = 3" by (rule cache_ok_levels)
  from c assms(2) obtain za zb zd a1 b1 d1 rc1 w1 rc2 w2 rc' w' l0 l1 where
    z: "mset za = mset a" "mset zb = mset b" "mset zd = mset d"
    and s: "refresh_seq E za rc w = (a1, rc1, w1)" "refresh_seq E zb rc1 w1 = (b1, rc2, w2)"
    "refresh_seq E zd rc2 w2 = (d1, rc', w')"
    and m: "(mset l0, mset l1) = reclassify a1 b1"
    and upd: "updateCache E srt c rc w =
       Some (c\<lparr>Levels := [srt (RPeerInfo_LessThan E) l0, srt (RPeerInfo_LessThan E) l1, []]\<rparr>, rc', w')"
    by (rule updateCache_spec)
  let ?s = "srt (RPeerInfo_LessThan E)"
  have "mset za = mset (Levels c ! 0) \<and> mset zb = mset (Levels c ! 1) \<and> mset zd = mset (Levels c ! 2) \<and>
    refresh_seq E za rc w = (a1, rc1, w1) \<and> refresh_seq E zb rc1 w1 = (b1, rc2, w2) \<and>
    refresh_seq E zd rc2 w2 = (d1, rc', w') \<and>
    updateCache E srt c rc w = Some (c\<lparr>Levels := [?s l0, ?s l1, []]\<rparr>, rc', w') \<and>
    (mset (?s l0), mset (?s l1)) = reclassify a1 b1"
    using z s m upd c by (simp add: slice_sorter.perm [OF assms(2)])
  then show ?thesis by blast
qed

text \<open>Witness of C2: the concrete cache.\<close>
theorem updateCache_refines_reclassify_witness:
  "\<exists>za zb zd a1 b1 d1 rc1 w1 rc2 w2 rc' w' l0 l1.
    mset za = mset (Levels demo_cache ! 0) \<and> mset zb = mset (Levels demo_cache ! 1) \<and>
    mset zd = mset (Levels demo_cache ! 2) \<and>
    refresh_seq demo_ops za (NewRegistryCache 600) 0 = (a1, rc1, w1) \<and>
    refresh_seq demo_ops zb rc1 w1 = (b1, rc2, w2) \<and> refresh_seq demo_ops zd rc2 w2 = (d1, rc', w') \<and>
    updateCache demo_ops insertionSort demo_cache (NewRegistryCache 600) 0 =
      Some (demo_cache\<lparr>Levels := [l0, l1, []]\<rparr>, rc', w') \<and>
    (mset l0, mset l1) = reclassify a1 b1"
  by (rule updateCache_refines_reclassify [OF demo_cache_ok isort.slice_sorter_axioms])

text \<open>
  C4. After an update \<open>GetPeer\<close> returns the best reliable peer: if some peer of level 0 serves the hash,
  the peer returned is one of level 0 that serves it, and no peer of level 0 that serves it performs better.
\<close>
theorem GetPeer_best_after_update:
  assumes "cache_ok c" and "slice_sorter srt" and "strict_weak_order (LessThan E)"
    and "updateCache E srt c rc w = Some (c', rc', w')"
    and "q \<in> set (Levels c' ! 0)" and "ServHash (PInfo q) = h"
  shows "\<exists>p \<in> set (Levels c' ! 0). GetPeer c' h = Some (ID (PInfo p), nil_error) \<and>
    ServHash (PInfo p) = h \<and> \<not> LessThan E (Perf (PInfo q)) (Perf (PInfo p))"
proof -
  from assms(1) obtain a b d where c: "Levels c = [a, b, d]" "NLevels c = 3" by (rule cache_ok_levels)
  let ?lt = "RPeerInfo_LessThan E"
  from c assms(2) obtain l0 l1 where
    upd: "c' = c\<lparr>Levels := [srt ?lt l0, srt ?lt l1, []]\<rparr>"
    by (rule updateCache_spec [where E = E and rc = rc and w = w]) (use assms(4) in auto)
  have swo: "strict_weak_order ?lt"
    using strict_weak_order_image [OF assms(3), of "\<lambda>p. Perf (PInfo p)"]
    by (simp add: RPeerInfo_LessThan_def [abs_def])
  from upd assms(5) have q: "q \<in> set (srt ?lt l0)" by simp
  with assms(6) have "get_scan h (srt ?lt l0) \<noteq> None" by (auto simp: get_scan_None_iff)
  then obtain x where x: "get_scan h (srt ?lt l0) = Some x" by blast
  from get_scan_SomeD [OF x] obtain us p vs where
    s: "srt ?lt l0 = us @ p # vs" "ID (PInfo p) = x" "ServHash (PInfo p) = h"
    and us: "\<forall>u\<in>set us. \<not> ServHash (PInfo u) = h" by blast
  from q have "q \<in> set l0" by (simp add: slice_sorter.set_srt [OF assms(2)])
  from slice_sorter.first_is_best [OF assms(2) swo s(1) us this assms(6)]
  have "\<not> LessThan E (Perf (PInfo q)) (Perf (PInfo p))" by (simp add: RPeerInfo_LessThan_def)
  moreover have "GetPeer c' h = Some (x, nil_error)"
    using upd c x by (subst GetPeer_3) (auto simp: get_scan_append)
  ultimately show ?thesis using s upd by auto
qed

text \<open>Witness of C4: after the update of the concrete cache, \<open>near\<close> is the answer for the hash of \<open>web\<close>.\<close>
theorem GetPeer_best_after_update_witness:
  "\<exists>c' rc' w'. updateCache demo_ops insertionSort demo_cache (NewRegistryCache 600) 0 = Some (c', rc', w') \<and>
     (\<exists>p \<in> set (Levels c' ! 0). GetPeer c' ''h-web'' = Some (ID (PInfo p), None))"
proof -
  obtain c' rc' w' where upd:
    "updateCache demo_ops insertionSort demo_cache (NewRegistryCache 600) 0 = Some (c', rc', w')"
    using cache_ok_updateCache [OF demo_cache_ok isort.slice_sorter_axioms, of demo_ops] by blast
  let ?p = "\<lparr>RCount = 96, PInfo = (demo_peer ''near'')\<lparr>Perf := \<lparr>RTT = 50\<rparr>\<rparr>\<rparr>"
  have l0: "Levels c' ! 0 = [?p]"
    using demo_update upd by simp
  show ?thesis
    using GetPeer_best_after_update [OF demo_cache_ok isort.slice_sorter_axioms _ upd, of ?p "''h-web''"] upd l0
    by (auto simp: demo_ops_def strict_weak_order_measure demo_peer_def)
qed

text \<open>
  C39. \<open>RemovePeer\<close> looks at the first three peers of levels 0 and 1 only, top level first: if one of them
  has the identifier, exactly that one peer disappears from its level and nothing else changes; otherwise
  the cache is unchanged.
\<close>
theorem RemovePeer_removes_one:
  assumes "cache_ok c"
  shows "\<exists>c'. RemovePeer c pid = Some c' \<and>
    (if \<exists>l < 2. \<exists>p \<in> set (take 3 (Levels c ! l)). ID (PInfo p) = pid
     then \<exists>l < 2. \<exists>p lv. p \<in> set (take 3 (Levels c ! l)) \<and> ID (PInfo p) = pid \<and>
            (\<forall>k < l. \<forall>q \<in> set (take 3 (Levels c ! k)). ID (PInfo q) \<noteq> pid) \<and>
            mset lv = mset (Levels c ! l) - {#p#} \<and> c' = c\<lparr>Levels := (Levels c)[l := lv]\<rparr>
     else c' = c)"
proof -
  from assms obtain a b d where c: "Levels c = [a, b, d]" "NLevels c = 3" "rmax c = 3"
    by (rule cache_ok_levels)
  have two: "(\<exists>l < 2. P l) \<longleftrightarrow> P 0 \<or> P 1" for P :: "nat \<Rightarrow> bool"
    by (auto simp: less_2_cases_iff)
  from c show ?thesis
  proof (cases rule: RemovePeer_cases [where pid = pid])
    case (top p a')
    with c show ?thesis by (auto simp: two)
  next
    case (middle p b')
    have "\<not> (\<exists>p \<in> set (take 3 a). ID (PInfo p) = pid)" using middle(5) by blast
    with middle c show ?thesis by (auto simp: two)
  next
    case absent
    with c show ?thesis by (auto simp: two)
  qed
qed

text \<open>Witness of C39: removing \<open>gone\<close>, the second peer of level 1 of the concrete cache.\<close>
theorem RemovePeer_removes_one_witness:
  "\<exists>l < 2. \<exists>p lv. ID (PInfo p) = ''gone'' \<and> mset lv = mset (Levels demo_cache ! l) - {#p#} \<and>
     RemovePeer demo_cache ''gone'' = Some (demo_cache\<lparr>Levels := (Levels demo_cache)[l := lv]\<rparr>)"
proof -
  have "\<exists>l < 2. \<exists>p \<in> set (take 3 (Levels demo_cache ! l)). ID (PInfo p) = ''gone''"
    by (intro exI [of _ 1]) (simp add: demo_cache_def demo_peer_def)
  with RemovePeer_removes_one [OF demo_cache_ok, of "''gone''"] show ?thesis by auto
qed

text \<open>
  \<open>AddPeer\<close> makes a peer available at once and never takes precedence over peers already on offer:
  after adding a peer, a lookup of its service hash returns what it returned before if that was a
  peer, and the new peer otherwise; lookups of other hashes are unaffected.
\<close>
theorem GetPeer_after_AddPeer:
  assumes "cache_ok c" and "AddPeer c p = Some c'" and "GetPeer c h = Some (x, err)"
  shows "GetPeer c' h =
    (if err \<noteq> nil_error \<and> h = ServHash p then Some (ID p, nil_error) else Some (x, err))"
proof -
  from assms(1) obtain a b d where c: "Levels c = [a, b, d]" "NLevels c = 3" by (rule cache_ok_levels)
  from assms(2) have c': "c' = c\<lparr>Levels := [a, b @ [\<lparr>RCount = 50, PInfo = p\<rparr>], d]\<rparr>"
    by (simp add: AddPeer_3 [OF c])
  have "GetPeer c' h = Some (case get_scan h (a @ b @ [\<lparr>RCount = 50, PInfo = p\<rparr>]) of
     Some x \<Rightarrow> (x, nil_error) | None \<Rightarrow> ('''', Some ''No suitable peer found in cache''))"
    using c by (subst GetPeer_3) (auto simp: c')
  with assms(3) show ?thesis
    by (auto simp: GetPeer_3 [OF c] get_scan_append split: option.splits)
qed

text \<open>An instance: the first peer of a fresh cache.\<close>
theorem GetPeer_after_AddPeer_witness:
  "\<exists>c'. AddPeer (fst (NewPeerCache None)) (demo_peer ''near'') = Some c' \<and>
     GetPeer c' ''h-web'' = Some (''near'', None)"
proof -
  obtain c' where add: "AddPeer (fst (NewPeerCache None)) (demo_peer ''near'') = Some c'"
    using cache_ok_AddPeer [OF cache_ok_New] by blast
  have get: "GetPeer (fst (NewPeerCache None)) ''h-web'' =
      Some ('''', Some ''No suitable peer found in cache'')"
    by (subst GetPeer_3) (auto simp: NewPeerCache_levels)
  from GetPeer_after_AddPeer [OF cache_ok_New add get] add show ?thesis
    by (auto simp: demo_peer_def)
qed

section \<open>Promotion of performant peers\<close>

definition bump :: "uint \<Rightarrow> uint" where
  "bump r = (if r < 100 then r + 1 else r)"

definition same_peer :: "PeerInfo \<Rightarrow> PeerInfo \<Rightarrow> bool" where
  "same_peer p q \<longleftrightarrow> ID p = ID q \<and> ServName p = ServName q \<and> ServHash p = ServHash q"

text \<open>
  A peer that meets its service's soft and hard requirements whenever it is pinged, whatever
  answers the registry cache holds by then.
\<close>

definition always_meets :: "('w, 'z) world_ops_scheme \<Rightarrow> PeerInfo \<Rightarrow> bool" where
  "always_meets E pi \<longleftrightarrow>
     (\<forall>rc w si err rc1 w1 rtt w2. rcache_reach E rc \<longrightarrow>
        GetOrRequestService E rc (ServName pi) w = ((si, err), rc1, w1) \<longrightarrow>
        Ping E (RTT (NetworkHardReq si)) (ID pi) w1 = (rtt, w2) \<longrightarrow>
        rtt \<noteq> 0 \<and> \<not> LessThan E (NetworkHardReq si) \<lparr>RTT = rtt\<rparr> \<and> \<not> LessThan E (NetworkSoftReq si) \<lparr>RTT = rtt\<rparr>)"

text \<open>A sequence of update rounds; other goroutines may use the registry cache between two rounds.\<close>

fun update_rounds :: "('w, 'z) world_ops_scheme \<Rightarrow> slice_sort \<Rightarrow> PeerCache \<Rightarrow> (RegistryCache \<times> 'w) list
    \<Rightarrow> PeerCache option" where
  "update_rounds E srt c [] = Some c"
| "update_rounds E srt c ((rc, w) # rws) =
     (case updateCache E srt c rc w of None \<Rightarrow> None | Some (c', _, _) \<Rightarrow> update_rounds E srt c' rws)"

lemma probe_reach:
  assumes "rcache_reach E rc" and "probe E p rc w = (v, rc', w')"
  shows "rcache_reach E rc'"
proof -
  from assms(2) have "rc' = fst (snd (GetOrRequestService E rc (ServName (PInfo p)) w))"
    by (auto simp: probe_def Let_def split: prod.splits if_splits)
  with assms(1) show ?thesis by (simp add: rcache_reach.request)
qed

lemma probe_meets:
  assumes "always_meets E pi" and "rcache_reach E rc" and "same_peer (PInfo p) pi"
  shows "\<exists>q rc' w'. probe E p rc w = (Some q, rc', w') \<and> same_peer (PInfo q) pi \<and> RCount q = bump (RCount p)"
proof -
  obtain si err rc1 w1 where g: "GetOrRequestService E rc (ServName pi) w = ((si, err), rc1, w1)"
    by (metis surj_pair)
  obtain rtt w2 where pg: "Ping E (RTT (NetworkHardReq si)) (ID pi) w1 = (rtt, w2)" by (metis surj_pair)
  from assms(1,2) g pg have "rtt \<noteq> 0" "\<not> LessThan E (NetworkHardReq si) \<lparr>RTT = rtt\<rparr>"
      "\<not> LessThan E (NetworkSoftReq si) \<lparr>RTT = rtt\<rparr>"
    unfolding always_meets_def by blast+
  with assms(3) g pg show ?thesis by (simp add: probe_def same_peer_def bump_def)
qed

lemma refresh_seq_meets:
  assumes "always_meets E pi"
  shows "rcache_reach E rc \<Longrightarrow> refresh_seq E ps rc w = (out, rc', w') \<Longrightarrow>
    rcache_reach E rc' \<and> (\<forall>p \<in> set ps. same_peer (PInfo p) pi \<longrightarrow>
      (\<exists>q \<in> set out. same_peer (PInfo q) pi \<and> RCount q = bump (RCount p)))"
proof (induction ps arbitrary: rc w out)
  case (Cons p ps)
  obtain v rc1 w1 where pr: "probe E p rc w = (v, rc1, w1)" by (metis surj_pair)
  obtain out1 where sq: "refresh_seq E ps rc1 w1 = (out1, rc', w')"
    and out: "out = (case v of None \<Rightarrow> out1 | Some q \<Rightarrow> q # out1)"
    using Cons.prems(2) pr by (auto split: prod.splits)
  from Cons.prems(1) pr have reach: "rcache_reach E rc1" by (rule probe_reach)
  from Cons.IH [OF this sq] out
  have "rcache_reach E rc'" and ps: "\<forall>p \<in> set ps. same_peer (PInfo p) pi \<longrightarrow>
      (\<exists>q \<in> set out. same_peer (PInfo q) pi \<and> RCount q = bump (RCount p))"
    by (auto split: option.splits)
  moreover have "\<exists>q \<in> set out. same_peer (PInfo q) pi \<and> RCount q = bump (RCount p)"
    if "same_peer (PInfo p) pi"
    using probe_meets [OF assms Cons.prems(1) that, of w] pr out by auto
  ultimately show ?case by auto
qed simp

lemma update_meets:
  assumes "cache_ok c" and "slice_sorter srt" and "always_meets E pi" and "rcache_reach E rc"
    and "l < 2" and "p \<in> set (Levels c ! l)" and "same_peer (PInfo p) pi"
  obtains c' rc' w' q where "updateCache E srt c rc w = Some (c', rc', w')" "cache_ok c'"
    "same_peer (PInfo q) pi" "RCount q = bump (RCount p)"
    "l = 0 \<Longrightarrow> 90 \<le> RCount q \<Longrightarrow> q \<in> set (Levels c' ! 0)"
    "l = 1 \<Longrightarrow> 90 < RCount q \<Longrightarrow> q \<in> set (Levels c' ! 0)"
    "l = 1 \<Longrightarrow> 10 \<le> RCount q \<Longrightarrow> RCount q \<le> 90 \<Longrightarrow> q \<in> set (Levels c' ! 1)"
proof -
  from assms(1) obtain a b d where c: "Levels c = [a, b, d]" "NLevels c = 3" by (rule cache_ok_levels)
  let ?s = "srt (RPeerInfo_LessThan E)"
  from c assms(2) obtain za zb a1 b1 rc1 w1 rc2 w2 rc' w' l0 l1 where
    z: "mset za = mset a" "mset zb = mset b"
    and s: "refresh_seq E za rc w = (a1, rc1, w1)" "refresh_seq E zb rc1 w1 = (b1, rc2, w2)"
    and m: "(mset l0, mset l1) = reclassify a1 b1"
    and upd: "updateCache E srt c rc w = Some (c\<lparr>Levels := [?s l0, ?s l1, []]\<rparr>, rc', w')"
    by (rule updateCache_spec)
  note ra = refresh_seq_meets [OF assms(3,4) s(1)]
  note rb = refresh_seq_meets [OF assms(3) conjunct1 [OF ra] s(2)]
  have "p \<in> set za \<and> l = 0 \<or> p \<in> set zb \<and> l = 1"
    using assms(5,6) c z by (auto simp: less_2_cases_iff dest: mset_eq_setD)
  then obtain q where q: "q \<in> set a1 \<and> l = 0 \<or> q \<in> set b1 \<and> l = 1"
      "same_peer (PInfo q) pi" "RCount q = bump (RCount p)"
    using ra rb assms(7) by blast
  from m have sets: "set l0 = {p \<in> set a1. \<not> RCount p < 90} \<union> {p \<in> set b1. RCount p > 90}"
    "{p \<in> set b1. \<not> RCount p > 90 \<and> \<not> RCount p < 10} \<subseteq> set l1"
    by (auto simp: reclassify_def simp flip: set_mset_mset)
  have "cache_ok (c\<lparr>Levels := [?s l0, ?s l1, []]\<rparr>)"
    using cache_ok_updateCache [OF assms(1,2), of E rc w] upd by auto
  with that [OF upd this q(2,3)] q(1) sets show thesis
    by (auto simp: slice_sorter.set_srt [OF assms(2)] not_less subset_iff)
qed

lemma unat_bump_count: "r \<le> 100 \<Longrightarrow> unat (bump r) = min 100 (unat r + 1)"
  using unat_bump [of r 100] by (simp add: bump_def)

lemma cache_ok_count:
  "cache_ok c \<Longrightarrow> l < 2 \<Longrightarrow> p \<in> set (Levels c ! l) \<Longrightarrow> RCount p \<le> 100"
  by (erule cache_ok_levels) (auto simp: less_2_cases_iff)

lemma rounds_from_top:
  assumes "slice_sorter srt" and "always_meets E pi"
  shows "cache_ok c \<Longrightarrow> p \<in> set (Levels c ! 0) \<Longrightarrow> same_peer (PInfo p) pi \<Longrightarrow> 90 \<le> RCount p \<Longrightarrow>
    \<forall>(rc, w) \<in> set rws. rcache_reach E rc \<Longrightarrow>
    \<exists>c'. update_rounds E srt c rws = Some c' \<and> (\<exists>q \<in> set (Levels c' ! 0). same_peer (PInfo q) pi \<and> 90 \<le> RCount q)"
proof (induction rws arbitrary: c p)
  case (Cons rcw rws)
  obtain rc w where rw: "rcw = (rc, w)" by (cases rcw)
  with Cons.prems have reach: "rcache_reach E rc" by auto
  obtain c' rc' w' q where u: "updateCache E srt c rc w = Some (c', rc', w')" "cache_ok c'"
      "same_peer (PInfo q) pi" "RCount q = bump (RCount p)"
      "90 \<le> RCount q \<Longrightarrow> q \<in> set (Levels c' ! 0)"
    by (rule update_meets [OF Cons.prems(1) assms reach _ Cons.prems(2,3), of w]) auto
  have "RCount p \<le> 100" using cache_ok_count [OF Cons.prems(1) _ Cons.prems(2)] by simp
  then have "90 \<le> RCount q"
    using Cons.prems(4) u(4) unat_bump_count [of "RCount p"] by (simp add: word_le_nat_alt)
  with Cons.IH [OF u(2) _ u(3)] u(1,5) rw Cons.prems(5) show ?case by auto
qed auto

lemma rounds_from_middle:
  assumes "slice_sorter srt" and "always_meets E pi"
  shows "cache_ok c \<Longrightarrow> p \<in> set (Levels c ! 1) \<Longrightarrow> same_peer (PInfo p) pi \<Longrightarrow>
    10 \<le> unat (RCount p) \<Longrightarrow> unat (RCount p) \<le> 90 \<Longrightarrow> \<forall>(rc, w) \<in> set rws. rcache_reach E rc \<Longrightarrow>
    \<exists>c'. update_rounds E srt c rws = Some c' \<and>
      (if unat (RCount p) + length rws \<le> 90
       then \<exists>q \<in> set (Levels c' ! 1). same_peer (PInfo q) pi \<and> unat (RCount q) = unat (RCount p) + length rws
       else \<exists>q \<in> set (Levels c' ! 0). same_peer (PInfo q) pi \<and> 90 \<le> RCount q)"
proof (induction rws arbitrary: c p)
  case (Cons rcw rws)
  obtain rc w where rw: "rcw = (rc, w)" by (cases rcw)
  with Cons.prems have reach: "rcache_reach E rc" by auto
  obtain c' rc' w' q where u: "updateCache E srt c rc w = Some (c', rc', w')" "cache_ok c'"
      "same_peer (PInfo q) pi" "RCount q = bump (RCount p)"
      "90 < RCount q \<Longrightarrow> q \<in> set (Levels c' ! 0)"
      "10 \<le> RCount q \<Longrightarrow> RCount q \<le> 90 \<Longrightarrow> q \<in> set (Levels c' ! 1)"
    by (rule update_meets [OF Cons.prems(1) assms reach _ Cons.prems(2,3), of w]) auto
  have n: "unat (RCount q) = unat (RCount p) + 1"
    using Cons.prems(5) u(4) unat_bump_count [of "RCount p"] by (simp add: word_le_nat_alt)
  have tail: "\<forall>(rc, w) \<in> set rws. rcache_reach E rc" using Cons.prems(6) by simp
  show ?case
  proof (cases "unat (RCount p) = 90")
    case True
    with n u(5) have "q \<in> set (Levels c' ! 0)" "90 \<le> RCount q"
      by (auto simp: word_less_nat_alt word_le_nat_alt)
    from rounds_from_top [OF assms u(2) this(1) u(3) this(2) tail] True u(1) rw show ?thesis by simp
  next
    case False
    with n Cons.prems(4,5) u(6) have "q \<in> set (Levels c' ! 1)" "10 \<le> unat (RCount q)" "unat (RCount q) \<le> 90"
      by (auto simp: word_le_nat_alt)
    from Cons.IH [OF u(2) this(1) u(3) this(2,3) tail] n u(1) rw show ?thesis
      by (cases "unat (RCount p) + length rws \<le> 89") auto
  qed
qed auto

text \<open>
  C5. A performant peer is promoted, and not before it has proved itself: a newly added peer that meets its
  service's requirements at every ping is still in level 1 with a count of \<open>50 + n\<close> after
  \<open>n \<le> 40\<close> update rounds, and is in level 0 after any number of rounds above 40, where it stays.
\<close>
theorem performant_peer_is_promoted:
  assumes "cache_ok c" and "slice_sorter srt" and "AddPeer c pi = Some c0" and "always_meets E pi"
    and "\<forall>(rc, w) \<in> set rws. rcache_reach E rc"
  shows "\<exists>c'. update_rounds E srt c0 rws = Some c' \<and>
    (if length rws \<le> 40
     then \<exists>q \<in> set (Levels c' ! 1). same_peer (PInfo q) pi \<and> unat (RCount q) = 50 + length rws
     else \<exists>q \<in> set (Levels c' ! 0). same_peer (PInfo q) pi \<and> 90 \<le> RCount q)"
proof -
  from assms(1) obtain a b d where c: "Levels c = [a, b, d]" "NLevels c = 3" by (rule cache_ok_levels)
  let ?p = "\<lparr>RCount = 50, PInfo = pi\<rparr> :: RPeerInfo"
  from AddPeer_3 [OF c] assms(3) have "?p \<in> set (Levels c0 ! 1)" by auto
  moreover have "cache_ok c0" using cache_ok_AddPeer [OF assms(1), of pi] assms(3) by auto
  moreover have "same_peer (PInfo ?p) pi" by (simp add: same_peer_def)
  ultimately show ?thesis
    using rounds_from_middle [OF assms(2,4), of c0 ?p rws] assms(5)
    by (cases "length rws \<le> 40") auto
qed

text \<open>Witness of C5: \<open>near\<close>, added to a fresh cache of the concrete world, after 41 rounds.\<close>
theorem performant_peer_is_promoted_witness:
  "\<exists>c0 c'. AddPeer (fst (NewPeerCache None)) (demo_peer ''near'') = Some c0 \<and>
     update_rounds demo_ops insertionSort c0 (replicate 41 (NewRegistryCache 600, 0)) = Some c' \<and>
     (\<exists>q \<in> set (Levels c' ! 0). same_peer (PInfo q) (demo_peer ''near'') \<and> 90 \<le> RCount q)"
proof -
  obtain c0 where add: "AddPeer (fst (NewPeerCache None)) (demo_peer ''near'') = Some c0"
    using cache_ok_AddPeer [OF cache_ok_New] by blast
  have said: "si = demo_info ''web''" if "registry_said demo_ops ''web'' si" for si
    using that by (auto simp: registry_said_def demo_ops_def)
  have noerr: "err = None" if "GetOrRequestService demo_ops rc ''web'' w = ((si, err), rc1, w1)" for rc w si err rc1 w1
    using that by (auto simp: GetOrRequestService_def demo_ops_def split: prod.splits if_splits)
  have meets: "always_meets demo_ops (demo_peer ''near'')"
    unfolding always_meets_def
  proof (intro allI impI)
    fix rc w si err rc1 w1 rtt w2
    assume "rcache_reach demo_ops rc"
      and g: "GetOrRequestService demo_ops rc (ServName (demo_peer ''near'')) w = ((si, err), rc1, w1)"
      and pg: "Ping demo_ops (RTT (NetworkHardReq si)) (ID (demo_peer ''near'')) w1 = (rtt, w2)"
    with noerr said rcache_answers_said [of demo_ops rc "''web''" w si rc1 w1]
    have "si = demo_info ''web''" by (auto simp: demo_peer_def)
    with pg show "rtt \<noteq> 0 \<and> \<not> LessThan demo_ops (NetworkHardReq si) \<lparr>RTT = rtt\<rparr> \<and>
        \<not> LessThan demo_ops (NetworkSoftReq si) \<lparr>RTT = rtt\<rparr>"
      by (auto simp: demo_ops_def demo_peer_def demo_info_def)
  qed
  have "\<forall>(rc, w) \<in> set (replicate 41 (NewRegistryCache 600, 0)). rcache_reach demo_ops rc"
    by (auto intro: rcache_reach.new)
  from performant_peer_is_promoted [OF cache_ok_New isort.slice_sorter_axioms add meets this] add
  show ?thesis by auto
qed

text \<open>
  The unsigned reliability counters never wrap around: a probe that keeps the peer either lowers the
  count by ten, stopping at zero, or raises it by one, stopping at 100, and leaves the peer's identity alone.
\<close>
theorem probe_count_saturates:
  assumes "RCount p \<le> 100" and "probe E p rc w = (Some q, rc', w')"
  shows "(unat (RCount q) = unat (RCount p) - 10 \<or> unat (RCount q) = min 100 (unat (RCount p) + 1)) \<and>
    unat (RCount q) \<le> 100 \<and> same_peer (PInfo q) (PInfo p)"
proof -
  from assms(2) have "RCount q = (if RCount p < 10 then 0 else RCount p - 10) \<or> RCount q = bump (RCount p)"
    and "same_peer (PInfo q) (PInfo p)"
    by (auto simp: probe_def Let_def bump_def same_peer_def split: prod.splits if_splits)
  moreover have "RCount q \<le> 100" using assms by (rule probe_RCount_le)
  ultimately show ?thesis
    using unat_bump_count [OF assms(1)] unat_drop [of "RCount p" 10] by (auto simp: word_le_nat_alt)
qed

text \<open>An instance: the slow peer \<open>mid\<close> loses ten points.\<close>
theorem probe_count_saturates_witness:
  "\<exists>q rc' w'. probe demo_ops \<lparr>RCount = 7, PInfo = demo_peer ''mid''\<rparr> (NewRegistryCache 600) 0 = (Some q, rc', w') \<and>
     (unat (RCount q) = unat (7::uint) - 10 \<or> unat (RCount q) = min 100 (unat (7::uint) + 1)) \<and> unat (RCount q) \<le> 100"
proof -
  let ?p = "\<lparr>RCount = 7, PInfo = demo_peer ''mid''\<rparr>"
  obtain q rc' w' where pr: "probe demo_ops ?p (NewRegistryCache 600) 0 = (Some q, rc', w')"
    by (simp add: probe_def demo_ops_def demo_peer_def demo_info_def GetOrRequestService_def Get_def Add_def
        NewRegistryCache_def)
  have "RCount ?p \<le> 100" by simp
  from probe_count_saturates [OF this pr] pr show ?thesis by auto
qed

section \<open>The update goroutine\<close>

text \<open>
  \<open>UpdateCache\<close> loops until the node's context ends. One iteration is described by what it sees: whether
  \<open>Ctx.Err()\<close> is already set, and which of the two channels the \<open>select\<close> receives from. The result
  tells whether the goroutine has returned; the list is the part of its life looked at.
\<close>

datatype select_case = CtxDone | Tick

fun UpdateCache :: "('w, 'z) world_ops_scheme \<Rightarrow> slice_sort \<Rightarrow> (bool \<times> select_case) list \<Rightarrow> PeerCache
    \<Rightarrow> RegistryCache \<Rightarrow> 'w \<Rightarrow> (bool \<times> PeerCache \<times> RegistryCache \<times> 'w) option" where
  "UpdateCache E srt [] cache rc w = Some (False, cache, rc, w)"
| "UpdateCache E srt ((ctxErr, sel) # its) cache rc w =
     (if ctxErr then Some (True, cache, rc, w)
      else (case sel of
              CtxDone \<Rightarrow> Some (True, cache, rc, w)
            | Tick \<Rightarrow>
                (case updateCache E srt cache rc w of
                   None \<Rightarrow> None
                 | Some (cache1, rc1, w1) \<Rightarrow> UpdateCache E srt its cache1 rc1 w1)))"

lemma UpdateCache_ok:
  assumes "slice_sorter srt"
  shows "cache_ok c \<Longrightarrow> \<exists>stop c' rc' w'. UpdateCache E srt its c rc w = Some (stop, c', rc', w') \<and> cache_ok c' \<and>
    (stop \<longleftrightarrow> (\<exists>it \<in> set its. fst it \<or> snd it = CtxDone))"
proof (induction its arbitrary: c rc w)
  case (Cons it its)
  obtain e sel where it: "it = (e, sel)" by (cases it)
  obtain c1 rc1 w1 where u: "updateCache E srt c rc w = Some (c1, rc1, w1)" "cache_ok c1"
    using cache_ok_updateCache [OF Cons.prems assms, of E rc w] by blast
  from Cons.IH [OF u(2), of rc1 w1] Cons.prems u(1) it show ?case
    by (cases sel) auto
qed (auto intro: exI [of _ False])

end
