(* ===== verification/Go_Text.thy ===== *)
theory Go_Text
  imports SM_Prelude
begin

text \<open>
  What the sources use of Go's text libraries, on byte strings: \<open>strings\<close> (prefixes, suffixes,
  splitting and joining, trimming), \<open>strconv\<close> (\<open>Itoa\<close>, \<open>ParseInt\<close> in base 10) and the two regular
  expressions, with the facts the components need about them.
\<close>

section \<open>Prefixes, suffixes, splitting and joining\<close>

definition HasPrefix :: "string \<Rightarrow> string \<Rightarrow> bool" where
  "HasPrefix s p \<longleftrightarrow> take (length p) s = p"

definition HasSuffix :: "string \<Rightarrow> string \<Rightarrow> bool" where
  "HasSuffix s p \<longleftrightarrow> length p \<le> length s \<and> drop (length s - length p) s = p"

definition TrimPrefix :: "string \<Rightarrow> string \<Rightarrow> string" where
  "TrimPrefix s p = (if HasPrefix s p then drop (length p) s else s)"

definition TrimSuffix :: "string \<Rightarrow> string \<Rightarrow> string" where
  "TrimSuffix s p = (if HasSuffix s p then take (length s - length p) s else s)"

fun Contains :: "string \<Rightarrow> string \<Rightarrow> bool" where
  "Contains [] sub = (sub = [])"
| "Contains (c # s) sub = (HasPrefix (c # s) sub \<or> Contains s sub)"

text \<open>\<open>strings.Split\<close> with a one-byte separator, and \<open>strings.SplitN\<close> for a positive count.\<close>

fun Split :: "char \<Rightarrow> string \<Rightarrow> string list" where
  "Split sep [] = [[]]"
| "Split sep (c # s) =
     (if c = sep then [] # Split sep s
      else (case Split sep s of [] \<Rightarrow> [[c]] | t # ts \<Rightarrow> (c # t) # ts))"

fun SplitN :: "char \<Rightarrow> nat \<Rightarrow> string \<Rightarrow> string list" where
  "SplitN sep 0 s = []"
| "SplitN sep (Suc 0) s = [s]"
| "SplitN sep (Suc (Suc n)) s =
     (case dropWhile (\<lambda>c. c \<noteq> sep) s of
        [] \<Rightarrow> [s]
      | _ # rest \<Rightarrow> takeWhile (\<lambda>c. c \<noteq> sep) s # SplitN sep (Suc n) rest)"

fun Join :: "string \<Rightarrow> string list \<Rightarrow> string" where
  "Join sep [] = []"
| "Join sep [s] = s"
| "Join sep (s # t # ts) = s @ sep @ Join sep (t # ts)"

lemma Split_nonempty [simp]: "Split sep s \<noteq> []"
  by (cases s) (auto split: list.split)

lemma Split_no_sep: "t \<in> set (Split sep s) \<Longrightarrow> sep \<notin> set t"
proof (induction s arbitrary: t)
  case (Cons c s)
  then show ?case by (cases "Split sep s") (auto split: if_splits)
qed simp

lemma Join_Split [simp]: "Join [sep] (Split sep s) = s"
proof (induction s)
  case (Cons c s)
  then obtain t ts where "Split sep s = t # ts" by (cases "Split sep s") auto
  with Cons show ?case by (cases ts) auto
qed simp

lemma Split_plain: "sep \<notin> set s \<Longrightarrow> Split sep s = [s]"
  by (induction s) auto

lemma Split_append: "sep \<notin> set s \<Longrightarrow> Split sep (s @ sep # t) = s # Split sep t"
  by (induction s) auto

lemma Split_Join: "ts \<noteq> [] \<Longrightarrow> \<forall>t \<in> set ts. sep \<notin> set t \<Longrightarrow> Split sep (Join [sep] ts) = ts"
  by (induction "[sep]" ts rule: Join.induct) (auto simp: Split_plain Split_append)

lemma Join_inject:
  assumes "ts \<noteq> []" "us \<noteq> []" "\<forall>t \<in> set ts. sep \<notin> set t" "\<forall>u \<in> set us. sep \<notin> set u"
    and "Join [sep] ts = Join [sep] us"
  shows "ts = us"
  using Split_Join assms by metis

lemma HasSuffix_append [simp]: "HasSuffix (s @ p) p"
  by (simp add: HasSuffix_def)

lemma TrimSuffix_append [simp]: "TrimSuffix (s @ p) p = s"
  by (simp add: TrimSuffix_def)

lemma HasPrefix_append [simp]: "HasPrefix (p @ s) p"
  by (simp add: HasPrefix_def)

lemma HasPrefix_iff: "HasPrefix s p \<longleftrightarrow> (\<exists>r. s = p @ r)"
  by (metis HasPrefix_append HasPrefix_def append_take_drop_id)

section \<open>Decimal numbers\<close>

definition digit_char :: "nat \<Rightarrow> char" where
  "digit_char d = char_of (48 + d)"

fun nat_digits :: "nat \<Rightarrow> string" where
  "nat_digits n = (if n < 10 then [digit_char n] else nat_digits (n div 10) @ [digit_char (n mod 10)])"

declare nat_digits.simps [simp del]

text \<open>\<open>strconv.Itoa\<close>, and \<open>fmt\<close>'s \<open>%d\<close> on a signed 64-bit value.\<close>

definition Itoa :: "int \<Rightarrow> string" where
  "Itoa i = (if i < 0 then CHR ''-'' # nat_digits (nat (- i)) else nat_digits (nat i))"

definition is_digit :: "char \<Rightarrow> bool" where
  "is_digit c \<longleftrightarrow> 48 \<le> (of_char c :: nat) \<and> (of_char c :: nat) \<le> 57"

definition digit_value :: "char \<Rightarrow> nat" where
  "digit_value c = of_char c - 48"

definition digits_value :: "string \<Rightarrow> nat" where
  "digits_value s = foldl (\<lambda>v c. 10 * v + digit_value c) 0 s"

text \<open>
  \<open>strconv.ParseInt(s, 10, 64)\<close>: an optional sign and at least one digit; a value outside the 64-bit
  range is an error, like a syntax error.
\<close>

definition ParseInt64 :: "string \<Rightarrow> int option" where
  "ParseInt64 s =
     (let neg = (s \<noteq> [] \<and> hd s = CHR ''-'');
          ds = (if s \<noteq> [] \<and> (hd s = CHR ''-'' \<or> hd s = CHR ''+'') then tl s else s);
          v = (if neg then - int (digits_value ds) else int (digits_value ds))
      in if ds = [] \<or> \<not> list_all is_digit ds then None
         else if - (2 ^ 63) \<le> v \<and> v < 2 ^ 63 then Some v else None)"

lemma of_digit_char [simp]: "d < 10 \<Longrightarrow> of_char (digit_char d) = 48 + d"
  by (simp add: digit_char_def of_char_of)

lemma is_digit_digit_char [simp]: "d < 10 \<Longrightarrow> is_digit (digit_char d)"
  by (simp add: is_digit_def)

lemma digit_value_digit_char [simp]: "d < 10 \<Longrightarrow> digit_value (digit_char d) = d"
  by (simp add: digit_value_def)

lemma nat_digits_all: "list_all is_digit (nat_digits n)"
  by (induction n rule: nat_digits.induct) (subst nat_digits.simps, simp)

lemma nat_digits_nonempty [simp]: "nat_digits n \<noteq> []"
  by (subst nat_digits.simps) simp

lemma digits_value_snoc [simp]: "digits_value (s @ [c]) = 10 * digits_value s + digit_value c"
  by (simp add: digits_value_def)

lemma digits_value_nat_digits [simp]: "digits_value (nat_digits n) = n"
proof (induction n rule: nat_digits.induct)
  case (1 n)
  show ?case
  proof (cases "n < 10")
    case True
    then show ?thesis by (subst nat_digits.simps) (simp add: digits_value_def)
  next
    case False
    with 1 show ?thesis by (subst nat_digits.simps) simp
  qed
qed

lemma not_digit_sign: "is_digit c \<Longrightarrow> c \<noteq> CHR ''-'' \<and> c \<noteq> CHR ''+''"
  by (auto simp: is_digit_def)

lemma hd_nat_digits: "is_digit (hd (nat_digits n))"
  using nat_digits_all [of n] by (cases "nat_digits n") auto

lemma ParseInt64_Itoa:
  assumes "- (2 ^ 63) \<le> i" and "i < 2 ^ 63"
  shows "ParseInt64 (Itoa i) = Some i"
  using assms nat_digits_all not_digit_sign [OF hd_nat_digits]
  by (auto simp: ParseInt64_def Itoa_def Let_def)

section \<open>Trimming white space\<close>

text \<open>The UTF-8 encodings of the characters that \<open>unicode.IsSpace\<close> accepts.\<close>

definition spaces :: "string list" where
  "spaces =
     [[CHR 0x09], [CHR 0x0A], [CHR 0x0B], [CHR 0x0C], [CHR 0x0D], [CHR 0x20],
      [CHR 0xC2, CHR 0x85], [CHR 0xC2, CHR 0xA0], [CHR 0xE1, CHR 0x9A, CHR 0x80],
      [CHR 0xE2, CHR 0x80, CHR 0x80], [CHR 0xE2, CHR 0x80, CHR 0x81],
      [CHR 0xE2, CHR 0x80, CHR 0x82], [CHR 0xE2, CHR 0x80, CHR 0x83],
      [CHR 0xE2, CHR 0x80, CHR 0x84], [CHR 0xE2, CHR 0x80, CHR 0x85],
      [CHR 0xE2, CHR 0x80, CHR 0x86], [CHR 0xE2, CHR 0x80, CHR 0x87],
      [CHR 0xE2, CHR 0x80, CHR 0x88], [CHR 0xE2, CHR 0x80, CHR 0x89],
      [CHR 0xE2, CHR 0x80, CHR 0x8A], [CHR 0xE2, CHR 0x80, CHR 0xA8],
      [CHR 0xE2, CHR 0x80, CHR 0xA9], [CHR 0xE2, CHR 0x80, CHR 0xAF],
      [CHR 0xE2, CHR 0x81, CHR 0x9F], [CHR 0xE3, CHR 0x80, CHR 0x80]]"

lemma prefix_shorter: "List.find (\<lambda>p. p \<noteq> [] \<and> HasPrefix s p) seqs = Some p \<Longrightarrow> length (drop (length p) s) < length s"
  by (cases s) (auto simp: find_Some_iff HasPrefix_def)

function trim_left :: "string list \<Rightarrow> string \<Rightarrow> string" where
  "trim_left seqs s =
     (case List.find (\<lambda>p. p \<noteq> [] \<and> HasPrefix s p) seqs of
        None \<Rightarrow> s
      | Some p \<Rightarrow> trim_left seqs (drop (length p) s))"
  by pat_completeness auto
termination
  by (relation "measure (\<lambda>(seqs, s). length s)")
    (auto dest: prefix_shorter)

declare trim_left.simps [simp del]

text \<open>\<open>strings.TrimSpace\<close>.\<close>

definition TrimSpace :: "string \<Rightarrow> string" where
  "TrimSpace s = rev (trim_left (map rev spaces) (rev (trim_left spaces s)))"

lemma space_first_byte: "p \<in> set spaces \<Longrightarrow> p \<noteq> [] \<and> of_char (hd p) \<in> {9, 10, 11, 12, 13, 32, 194, 225, 226, 227 :: nat}"
  by (auto simp: spaces_def)

lemma space_last_byte:
  "p \<in> set spaces \<Longrightarrow> p \<noteq> [] \<and> (of_char (last p) \<in> {9, 10, 11, 12, 13, 32 :: nat} \<or> 128 \<le> (of_char (last p) :: nat))"
  by (auto simp: spaces_def)

lemma trim_left_none: "(\<And>p. p \<in> set seqs \<Longrightarrow> p \<noteq> [] \<Longrightarrow> \<not> HasPrefix s p) \<Longrightarrow> trim_left seqs s = s"
  by (subst trim_left.simps) (auto simp: find_None_iff split: option.split dest!: find_Some_iff [THEN iffD1] nth_mem)

lemma HasPrefix_hd: "HasPrefix s p \<Longrightarrow> p \<noteq> [] \<Longrightarrow> s \<noteq> [] \<and> hd s = hd p"
  by (cases s; cases p) (auto simp: HasPrefix_def)

lemma trim_left_plain:
  assumes "s = [] \<or> hd s \<notin> (hd ` set seqs)" 
  shows "trim_left seqs s = s"
  using assms by (intro trim_left_none) (auto dest: HasPrefix_hd)

lemma plain_not_space_first: "33 \<le> (of_char c :: nat) \<Longrightarrow> (of_char c :: nat) \<le> 127 \<Longrightarrow> c \<notin> hd ` set spaces"
  using space_first_byte by fastforce

lemma plain_not_space_last: "33 \<le> (of_char c :: nat) \<Longrightarrow> (of_char c :: nat) \<le> 127 \<Longrightarrow> c \<notin> hd ` set (map rev spaces)"
  using space_last_byte by (fastforce simp: hd_rev)

lemma newline_in_spaces: "List.find (\<lambda>p. p \<noteq> [] \<and> HasPrefix (CHR 0x0A # s) p) (map rev spaces) = Some [CHR 0x0A]"
  by (simp add: spaces_def HasPrefix_def)

text \<open>A line of printable ASCII, with the newline the sender appended.\<close>

lemma TrimSpace_line:
  assumes "s \<noteq> []" and "\<forall>c \<in> set s. 33 \<le> (of_char c :: nat) \<and> (of_char c :: nat) \<le> 127"
  shows "TrimSpace (s @ [CHR 0x0A]) = s"
proof -
  have "hd s \<notin> hd ` set spaces" "last s \<notin> hd ` set (map rev spaces)"
    by (rule plain_not_space_first plain_not_space_last; use assms in simp)+
  then have l: "trim_left spaces (s @ [CHR 0x0A]) = s @ [CHR 0x0A]"
    and r: "trim_left (map rev spaces) (rev s) = rev s"
    using assms(1) by (auto intro!: trim_left_plain simp: hd_rev simp del: set_map)
  have "trim_left (map rev spaces) (CHR 0x0A # rev s) = rev s"
    by (subst trim_left.simps) (simp add: newline_in_spaces r)
  with l show ?thesis by (simp add: TrimSpace_def)
qed

lemma Itoa_printable: "\<forall>c \<in> set (Itoa i). 33 \<le> (of_char c :: nat) \<and> (of_char c :: nat) \<le> 127"
proof -
  have "33 \<le> (of_char c :: nat) \<and> (of_char c :: nat) \<le> 127" if "c \<in> set (nat_digits n)" for c n
    using nat_digits_all [of n] that by (auto simp: list_all_iff is_digit_def)
  then show ?thesis by (auto simp: Itoa_def)
qed

lemma Itoa_nonempty [simp]: "Itoa i \<noteq> []"
  by (simp add: Itoa_def)

text \<open>A number printed with \<open>%d\\n\<close> is read back by \<open>ParseInt(TrimSpace(...), 10, 64)\<close>.\<close>

lemma ParseInt64_printed_line:
  assumes "- (2 ^ 63) \<le> i" and "i < 2 ^ 63"
  shows "ParseInt64 (TrimSpace (Itoa i @ [CHR 0x0A])) = Some i"
  using assms by (simp add: TrimSpace_line Itoa_printable ParseInt64_Itoa)

section \<open>Regular expressions\<close>

text \<open>
  The fragment of RE2 that the sources use: character classes, concatenation, alternatives, bounded
  repetition; matched by Brzozowski derivatives, with the usual language as the specification.
\<close>

datatype re = Nothing | Eps | Chr "char \<Rightarrow> bool" | Alt re re | Sequ re re

primrec nullable :: "re \<Rightarrow> bool" where
  "nullable Nothing = False"
| "nullable Eps = True"
| "nullable (Chr f) = False"
| "nullable (Alt r s) = (nullable r \<or> nullable s)"
| "nullable (Sequ r s) = (nullable r \<and> nullable s)"

primrec deriv :: "char \<Rightarrow> re \<Rightarrow> re" where
  "deriv c Nothing = Nothing"
| "deriv c Eps = Nothing"
| "deriv c (Chr f) = (if f c then Eps else Nothing)"
| "deriv c (Alt r s) = Alt (deriv c r) (deriv c s)"
| "deriv c (Sequ r s) =
     (if nullable r then Alt (Sequ (deriv c r) s) (deriv c s) else Sequ (deriv c r) s)"

text \<open>A match of the whole text (the patterns concerned begin with \<open>^\<close> and end with \<open>$\<close>).\<close>

fun re_match :: "re \<Rightarrow> string \<Rightarrow> bool" where
  "re_match r [] = nullable r"
| "re_match r (c # s) = re_match (deriv c r) s"

primrec lang :: "re \<Rightarrow> string set" where
  "lang Nothing = {}"
| "lang Eps = {[]}"
| "lang (Chr f) = {[c] | c. f c}"
| "lang (Alt r s) = lang r \<union> lang s"
| "lang (Sequ r s) = {u @ v | u v. u \<in> lang r \<and> v \<in> lang s}"

text \<open>\<open>r{lo,lo+k}\<close>.\<close>

fun upto_times :: "nat \<Rightarrow> re \<Rightarrow> re" where
  "upto_times 0 r = Eps"
| "upto_times (Suc k) r = Alt Eps (Sequ r (upto_times k r))"

fun times_from :: "nat \<Rightarrow> nat \<Rightarrow> re \<Rightarrow> re" where
  "times_from 0 k r = upto_times k r"
| "times_from (Suc lo) k r = Sequ r (times_from lo k r)"

definition rep :: "nat \<Rightarrow> nat \<Rightarrow> re \<Rightarrow> re" where
  "rep lo hi r = times_from lo (hi - lo) r"

lemma nullable_lang: "nullable r \<longleftrightarrow> [] \<in> lang r"
  by (induction r) auto

lemma lang_Sequ_Cons:
  "c # s \<in> lang (Sequ r t) \<longleftrightarrow>
     (\<exists>u v. s = u @ v \<and> c # u \<in> lang r \<and> v \<in> lang t) \<or> ([] \<in> lang r \<and> c # s \<in> lang t)"
  by (auto simp: Cons_eq_append_conv)

lemma deriv_lang: "s \<in> lang (deriv c r) \<longleftrightarrow> c # s \<in> lang r"
proof (induction r arbitrary: s)
  case (Sequ r t)
  have "s \<in> lang (deriv c (Sequ r t)) \<longleftrightarrow>
      (\<exists>u v. s = u @ v \<and> c # u \<in> lang r \<and> v \<in> lang t) \<or> ([] \<in> lang r \<and> c # s \<in> lang t)"
    by (auto simp: Sequ nullable_lang)
  then show ?case by (simp only: lang_Sequ_Cons)
qed auto

lemma re_match_lang: "re_match r s \<longleftrightarrow> s \<in> lang r"
  by (induction r s rule: re_match.induct) (auto simp: nullable_lang deriv_lang)

lemma lang_Sequ_Chr: "lang (Sequ (Chr f) r) = {c # t | c t. f c \<and> t \<in> lang r}"
proof -
  have "s \<in> lang (Sequ (Chr f) r) \<longleftrightarrow> (\<exists>c t. s = c # t \<and> f c \<and> t \<in> lang r)" for s
    by (cases s) (auto simp: lang_Sequ_Cons simp del: lang.simps(5), simp)
  then show ?thesis by blast
qed

lemma lang_upto_Chr: "s \<in> lang (upto_times k (Chr f)) \<longleftrightarrow> length s \<le> k \<and> (\<forall>c \<in> set s. f c)"
proof (induction k arbitrary: s)
  case (Suc k)
  then show ?case by (cases s) (auto simp: lang_Sequ_Chr simp del: lang.simps(5))
qed auto

lemma lang_times_Chr:
  "s \<in> lang (times_from lo k (Chr f)) \<longleftrightarrow> lo \<le> length s \<and> length s \<le> lo + k \<and> (\<forall>c \<in> set s. f c)"
proof (induction lo arbitrary: s)
  case (Suc lo)
  then show ?case by (cases s) (auto simp: lang_Sequ_Chr simp del: lang.simps(5))
qed (simp add: lang_upto_Chr)

lemma lang_rep_Chr:
  "lo \<le> hi \<Longrightarrow> s \<in> lang (rep lo hi (Chr f)) \<longleftrightarrow> lo \<le> length s \<and> length s \<le> hi \<and> (\<forall>c \<in> set s. f c)"
  by (simp add: rep_def lang_times_Chr)

subsection \<open>The two patterns\<close>

text \<open>The dotted-quad-and-port pattern, \<open>^(?:[0-9]{1,3}\\.){3}[0-9]{1,3}:[0-9]{1,5}$\<close>.\<close>

definition addr_re :: re where
  "addr_re =
     Sequ (rep 3 3 (Sequ (rep 1 3 (Chr is_digit)) (Chr (\<lambda>c. c = CHR ''.''))))
       (Sequ (rep 1 3 (Chr is_digit)) (Sequ (Chr (\<lambda>c. c = CHR '':'')) (rep 1 5 (Chr is_digit))))"

definition decimal :: "nat \<Rightarrow> string \<Rightarrow> bool" where
  "decimal n s \<longleftrightarrow> 1 \<le> length s \<and> length s \<le> n \<and> (\<forall>c \<in> set s. is_digit c)"

lemma lang_rep_three: "lang (rep 3 3 r) = {a @ b @ c | a b c. a \<in> lang r \<and> b \<in> lang r \<and> c \<in> lang r}"
  by (simp add: rep_def numeral_3_eq_3) blast

lemma addr_re_lang:
  "re_match addr_re s \<longleftrightarrow>
     (\<exists>a b c d p. s = a @ ''.'' @ b @ ''.'' @ c @ ''.'' @ d @ '':'' @ p \<and>
        decimal 3 a \<and> decimal 3 b \<and> decimal 3 c \<and> decimal 3 d \<and> decimal 5 p)"
proof -
  have octet: "lang (Sequ (rep 1 3 (Chr is_digit)) (Chr (\<lambda>c. c = CHR ''.''))) = {u @ ''.'' | u. decimal 3 u}"
    by (auto simp: lang_rep_Chr decimal_def)
  have tail: "lang (Sequ (rep 1 3 (Chr is_digit)) (Sequ (Chr (\<lambda>c. c = CHR '':'')) (rep 1 5 (Chr is_digit)))) =
      {d @ '':'' @ p | d p. decimal 3 d \<and> decimal 5 p}"
    by (auto simp: lang_rep_Chr decimal_def)
  have "lang addr_re = {x @ y | x y. x \<in> {a @ b @ c | a b c. a \<in> {u @ ''.'' | u. decimal 3 u} \<and>
      b \<in> {u @ ''.'' | u. decimal 3 u} \<and> c \<in> {u @ ''.'' | u. decimal 3 u}} \<and>
      y \<in> {d @ '':'' @ p | d p. decimal 3 d \<and> decimal 5 p}}"
    unfolding addr_re_def lang.simps(5) [of "rep 3 3 _"] lang_rep_three octet tail by blast
  also have "\<dots> = {a @ ''.'' @ b @ ''.'' @ c @ ''.'' @ d @ '':'' @ p | a b c d p.
      decimal 3 a \<and> decimal 3 b \<and> decimal 3 c \<and> decimal 3 d \<and> decimal 5 p}"
    by (auto simp: image_def) (metis append.assoc append_Cons append_Nil)+
  finally show ?thesis by (simp only: re_match_lang) blast
qed

text \<open>
  The command pattern, \<open>(.*?)\\s(.*?)$\<close>, searched for anywhere in the text: the leftmost start, then
  the shortest first group. \<open>.\<close> matches anything but a newline, \<open>\\s\<close> is one of tab, newline, form feed,
  carriage return and blank, \<open>$\<close> is the end of the text.
\<close>

definition is_re_space :: "char \<Rightarrow> bool" where
  "is_re_space c \<longleftrightarrow> c \<in> {CHR 0x09, CHR 0x0A, CHR 0x0C, CHR 0x0D, CHR '' ''}"

fun cmd_match_here :: "string \<Rightarrow> string \<Rightarrow> (string \<times> string) option" where
  "cmd_match_here pre [] = None"
| "cmd_match_here pre (c # s) =
     (if is_re_space c \<and> CHR 0x0A \<notin> set s then Some (pre, s)
      else if c = CHR 0x0A then None
      else cmd_match_here (pre @ [c]) s)"

fun cmd_submatch :: "string \<Rightarrow> (string \<times> string) option" where
  "cmd_submatch [] = None"
| "cmd_submatch (c # s) =
     (case cmd_match_here [] (c # s) of Some m \<Rightarrow> Some m | None \<Rightarrow> cmd_submatch s)"

lemma cmd_match_here_word:
  "\<forall>c \<in> set u. \<not> is_re_space c \<Longrightarrow> is_re_space c \<Longrightarrow> CHR 0x0A \<notin> set v \<Longrightarrow>
     cmd_match_here pre (u @ c # v) = Some (pre @ u, v)"
  by (induction u arbitrary: pre) (auto simp: is_re_space_def)

lemma cmd_submatch_words:
  assumes "\<forall>c \<in> set u. \<not> is_re_space c" and "is_re_space c" and "CHR 0x0A \<notin> set v"
  shows "cmd_submatch (u @ c # v) = Some (u, v)"
proof -
  obtain d s where ds: "u @ c # v = d # s" by (cases "u @ c # v") auto
  with cmd_match_here_word [OF assms, of "[]"] show ?thesis by simp
qed

lemma cmd_match_here_None: "\<forall>c \<in> set s. \<not> is_re_space c \<Longrightarrow> cmd_match_here pre s = None"
  by (induction s arbitrary: pre) (auto simp: is_re_space_def)

lemma cmd_submatch_None: "\<forall>c \<in> set s. \<not> is_re_space c \<Longrightarrow> cmd_submatch s = None"
  by (induction s) (auto simp: cmd_match_here_None simp del: cmd_match_here.simps)

end
