(* ===== verification/LCA_Manager.thy ===== *)
theory LCA_Manager
  imports World_Ops Go_Text
begin

text \<open>
  The LCA manager (\<open>src/lca/lca-manager.go\<close>) and the line protocol it shares with the allocator
  (\<open>src/lca/lca-common.go\<close>): finding service instances, asking allocators for new ones, forwarding HTTP
  requests over a stream and serving them at the other end.

  Streams, discovery, the HTTP wire format and the HTTP transport are operations of the world. A
  handle returned together with an error is never used by the code.
\<close>

section \<open>Operations of the world\<close>

type_synonym stream = nat
type_synonym peer_chan = nat
type_synonym protocol_id = string

record http_request =
  RequestURI :: string
  ReqRest :: string

record http_response =
  StatusCode :: int
  Status :: string
  Header :: "(string \<times> string list) list"
  Body :: string

text \<open>
  The fields of \<open>p2pnode.Config\<close> that the sources set. A multiaddress is its text; a nil passphrase is \<open>None\<close>. A stream handler is the closure that is registered: the manager's, made by
  \<open>RequestHandler\<close> for a service address, or that of the chain set-up.
\<close>

datatype stream_handler = H_RequestHandler string | H_chainSetupHandler

record NodeConfig =
  PrivKey :: string
  BootstrapPeers :: "string list"
  PSK :: "string option"
  HandlerProtocolIDs :: "protocol_id list"
  StreamHandlers :: "stream_handler list"
  Rendezvous :: "string list"

text \<open>
  Discovery (\<open>RoutingDiscovery.FindPeers\<close>, \<open>p2putil.SortPeers\<close>), streams (\<open>Host.NewStream\<close>, \<open>Reset\<close>,
  \<open>Close\<close>, buffered \<open>WriteString\<close>, \<open>Flush\<close> and \<open>ReadString\<close> up to a newline, \<open>ioutil.ReadAll\<close>), HTTP
  (\<open>Request.Write\<close>, \<open>ReadRequest\<close>, \<open>ReadResponse\<close>, \<open>URL.Parse\<close>, \<open>Transport.RoundTrip\<close>, \<open>Response.Write\<close>),
  and the node (\<open>p2pnode.NewNode\<close>, \<open>Advertise\<close>).
\<close>

record 'w lca_ops = "'w world_ops" +
  FindPeers :: "string \<Rightarrow> 'w \<Rightarrow> (peer_chan \<times> error option) \<times> 'w"
  SortPeers :: "peer_chan \<Rightarrow> 'w \<Rightarrow> PeerInfo list \<times> 'w"
  NewStream :: "peer_id \<Rightarrow> protocol_id \<Rightarrow> 'w \<Rightarrow> (stream \<times> error option) \<times> 'w"
  StreamReset :: "stream \<Rightarrow> 'w \<Rightarrow> 'w"
  StreamClose :: "stream \<Rightarrow> 'w \<Rightarrow> 'w"
  WriteString :: "stream \<Rightarrow> string \<Rightarrow> 'w \<Rightarrow> error option \<times> 'w"
  Flush :: "stream \<Rightarrow> 'w \<Rightarrow> 'w"
  ReadString :: "stream \<Rightarrow> 'w \<Rightarrow> (string \<times> error option) \<times> 'w"
  ReadAll :: "stream \<Rightarrow> 'w \<Rightarrow> (string \<times> error option) \<times> 'w"
  RequestWrite :: "stream \<Rightarrow> http_request \<Rightarrow> 'w \<Rightarrow> error option \<times> 'w"
  ReadRequest :: "stream \<Rightarrow> 'w \<Rightarrow> (http_request \<times> error option) \<times> 'w"
  ReadResponse :: "string \<Rightarrow> http_request \<Rightarrow> http_response \<times> error option"
  URLParse :: "http_request \<Rightarrow> string \<Rightarrow> string \<times> error option"
  RoundTrip :: "string option \<Rightarrow> http_request \<Rightarrow> 'w \<Rightarrow> (http_response option \<times> error option) \<times> 'w"
  ResponseWrite :: "stream \<Rightarrow> http_response \<Rightarrow> 'w \<Rightarrow> error option \<times> 'w"
  NewNode :: "NodeConfig \<Rightarrow> 'w \<Rightarrow> error option \<times> 'w"
  Advertise :: "string \<Rightarrow> 'w \<Rightarrow> 'w"

text \<open>
  The documented behaviour of \<open>ReadString('\\n')\<close>: without an error, the text read ends at the first
  newline.
\<close>

definition reads_lines :: "('w, 'z) lca_ops_scheme \<Rightarrow> bool" where
  "reads_lines E \<longleftrightarrow>
     (\<forall>s w str w'. ReadString E s w = ((str, nil_error), w') \<longrightarrow>
        (\<exists>line. str = line @ [CHR 0x0A] \<and> CHR 0x0A \<notin> set line))"

section \<open>Protocol constants and the line protocol (lca-common.go)\<close>

definition LCAManagerRequestProtID :: protocol_id where
  "LCAManagerRequestProtID = ''/LCAManagerRequest/1.0''"

definition LCAAllocatorProtocolID :: protocol_id where
  "LCAAllocatorProtocolID = ''/LCAAllocator/1.0''"

definition LCAAllocatorRendezvous :: string where
  "LCAAllocatorRendezvous = ''QmQJRHSU69L6W2SwNiKekpUHbxHPXi57tWGRWJaD5NsRxS''"

definition LCAAPCmdStartProgram :: string where
  "LCAAPCmdStartProgram = ''start-program''"

definition LCASErrWriteFail :: string where
  "LCASErrWriteFail = ''Error: writing to buffer''"

definition LCAPErrUnrecognized :: string where
  "LCAPErrUnrecognized = ''Error: unrecognized command''"

definition LCAPErrAllocFail :: string where
  "LCAPErrAllocFail = ''Error: allocation failed''"

definition LCAPErrDeadProgram :: string where
  "LCAPErrDeadProgram = ''Error: program non-responsive''"

definition lca_write :: "('w, 'z) lca_ops_scheme \<Rightarrow> stream \<Rightarrow> string \<Rightarrow> 'w \<Rightarrow> error option \<times> 'w" where
  "lca_write E rw msg w =
     (let (err, w1) = WriteString E rw (msg @ [CHR 0x0A]) w
      in if err \<noteq> nil_error then (err, w1) else (nil_error, Flush E rw w1))"

definition lca_read :: "('w, 'z) lca_ops_scheme \<Rightarrow> stream \<Rightarrow> 'w \<Rightarrow> (string \<times> error option) \<times> 'w" where
  "lca_read E rw w =
     (let ((str, err), w1) = ReadString E rw w
      in if err \<noteq> nil_error then (('''', err), w1)
         else ((TrimSuffix str [CHR 0x0A], nil_error), w1))"

section \<open>Allocation requests\<close>

definition requestAlloc :: "('w, 'z) lca_ops_scheme \<Rightarrow> stream \<Rightarrow> string \<Rightarrow> 'w \<Rightarrow> (string \<times> error option) \<times> 'w" where
  "requestAlloc E strm serviceHash w =
     (let (err, w1) = lca_write E strm (LCAAPCmdStartProgram @ '' '' @ serviceHash) w
      in if err \<noteq> nil_error then (('''', err), w1)
         else
           (let ((str, err2), w2) = lca_read E strm w1
            in if err2 \<noteq> nil_error then (('''', err2), w2)
               else if re_match addr_re str then ((str, nil_error), w2)
               else (('''', Some ''Returned address does not match format''), w2)))"

text \<open>The deferred \<open>Reset\<close> calls of a function that opened several streams, last one first.\<close>

fun reset_all :: "('w, 'z) lca_ops_scheme \<Rightarrow> stream list \<Rightarrow> 'w \<Rightarrow> 'w" where
  "reset_all E [] w = w"
| "reset_all E (s # ss) w = reset_all E ss (StreamReset E s w)"

type_synonym find_result = "peer_id \<times> PerfInd \<times> error option"

text \<open>The loops of \<open>AllocBetterService\<close> and \<open>AllocService\<close>; \<open>opened\<close> holds the streams to reset on return.\<close>

fun allocBetter_loop :: "('w, 'z) lca_ops_scheme \<Rightarrow> string \<Rightarrow> PerfInd \<Rightarrow> PeerInfo list \<Rightarrow> stream list \<Rightarrow> 'w
    \<Rightarrow> find_result \<times> 'w" where
  "allocBetter_loop E serviceHash perf [] opened w =
     (('''', zero_PerfInd, Some ''Could not find peer to allocate service''), reset_all E opened w)"
| "allocBetter_loop E serviceHash perf (p # ps) opened w =
     (if LessThan E perf (Perf p) then
        (('''', zero_PerfInd, Some ''Could not find better service''), reset_all E opened w)
      else
        (let ((strm, err), w1) = NewStream E (ID p) LCAAllocatorProtocolID w
         in if err \<noteq> nil_error then allocBetter_loop E serviceHash perf ps opened w1
            else
              (let ((addr, err2), w2) = requestAlloc E strm serviceHash w1
               in if err2 \<noteq> nil_error then allocBetter_loop E serviceHash perf ps (strm # opened) w2
                  else ((ID p, Perf p, nil_error), reset_all E (strm # opened) w2))))"

fun alloc_loop :: "('w, 'z) lca_ops_scheme \<Rightarrow> string \<Rightarrow> PeerInfo list \<Rightarrow> stream list \<Rightarrow> 'w \<Rightarrow> find_result \<times> 'w" where
  "alloc_loop E serviceHash [] opened w =
     (('''', zero_PerfInd, Some ''Could not find peer to allocate service''), reset_all E opened w)"
| "alloc_loop E serviceHash (p # ps) opened w =
     (let ((strm, err), w1) = NewStream E (ID p) LCAAllocatorProtocolID w
      in if err \<noteq> nil_error then alloc_loop E serviceHash ps opened w1
         else
           (let ((addr, err2), w2) = requestAlloc E strm serviceHash w1
            in if err2 \<noteq> nil_error then alloc_loop E serviceHash ps (strm # opened) w2
               else ((ID p, Perf p, nil_error), reset_all E (strm # opened) w2)))"

definition AllocBetterService :: "('w, 'z) lca_ops_scheme \<Rightarrow> string \<Rightarrow> PerfInd \<Rightarrow> 'w \<Rightarrow> find_result \<times> 'w" where
  "AllocBetterService E serviceHash perf w =
     (let ((peerChan, err), w1) = FindPeers E LCAAllocatorRendezvous w
      in if err \<noteq> nil_error then (('''', zero_PerfInd, err), w1)
         else
           (let (peers, w2) = SortPeers E peerChan w1
            in allocBetter_loop E serviceHash perf peers [] w2))"

definition AllocService :: "('w, 'z) lca_ops_scheme \<Rightarrow> string \<Rightarrow> 'w \<Rightarrow> find_result \<times> 'w" where
  "AllocService E serviceHash w =
     (let ((peerChan, err), w1) = FindPeers E LCAAllocatorRendezvous w
      in if err \<noteq> nil_error then (('''', zero_PerfInd, err), w1)
         else
           (let (peers, w2) = SortPeers E peerChan w1
            in alloc_loop E serviceHash peers [] w2))"

definition FindService :: "('w, 'z) lca_ops_scheme \<Rightarrow> string \<Rightarrow> 'w \<Rightarrow> find_result \<times> 'w" where
  "FindService E serviceHash w =
     (let ((peerChan, err), w1) = FindPeers E serviceHash w
      in if err \<noteq> nil_error then (('''', zero_PerfInd, err), w1)
         else
           (let (peers, w2) = SortPeers E peerChan w1
            in case peers of
                 p # _ \<Rightarrow> ((ID p, Perf p, nil_error), w2)
               | [] \<Rightarrow> (('''', zero_PerfInd, Some ''Could not find peer offering service''), w2)))"

section \<open>Forwarding an HTTP request to a peer\<close>

definition Request :: "('w, 'z) lca_ops_scheme \<Rightarrow> peer_id \<Rightarrow> http_request \<Rightarrow> 'w
    \<Rightarrow> (http_response option \<times> error option) \<times> 'w" where
  "Request E pid req w =
     (let ((strm, err), w1) = NewStream E pid LCAManagerRequestProtID w
      in if err \<noteq> nil_error then ((None, Some ''Error: could not connect to microservice peer''), w1)
         else
           (let (err2, w2) = RequestWrite E strm req w1
            in if err2 \<noteq> nil_error then ((None, Some LCASErrWriteFail), StreamReset E strm w2)
               else
                 (let ((bodyBuf, err3), w3) = ReadAll E strm w2
                  in if err3 \<noteq> nil_error then
                       ((None, Some (''Unable to read from stream'' @ [CHR 0x0A] @ the err3 @ [CHR 0x0A])),
                        StreamReset E strm w3)
                     else
                       (let (resp, err4) = ReadResponse E bodyBuf req
                        in if err4 \<noteq> nil_error then
                             ((None, Some ''Error: could not receive response''), StreamReset E strm w3)
                           else ((Some resp, nil_error), StreamReset E strm w3)))))"

section \<open>Serving a forwarded request\<close>

record LCAManager =
  P2PHash :: string
  Tolsr :: time

definition pingService :: "error option" where
  "pingService = nil_error"

text \<open>
  The body of the handler that \<open>RequestHandler\<close> generates. A panic (an explicit one, or the nil
  dereference in \<open>resp.Write\<close> when the round trip gave no response) ends the body; it is recovered by a
  deferred function, and the stream is closed in every case. The flag of the result tells whether the body
  ran to its end.
\<close>

definition handler_body :: "('w, 'z) lca_ops_scheme \<Rightarrow> string \<Rightarrow> LCAManager \<Rightarrow> stream \<Rightarrow> 'w
    \<Rightarrow> bool \<times> LCAManager \<times> 'w" where
  "handler_body E address lca strm w =
     (let (perr, w1) =
        (if pingService \<noteq> nil_error then lca_write E strm LCAPErrDeadProgram w else (nil_error, w))
      in if perr \<noteq> nil_error then (False, lca, w1)
         else
           (let ((req, err), w2) = ReadRequest E strm w1
            in if err \<noteq> nil_error then (False, lca, w2)
               else
                 (let tokens = SplitN CHR ''/'' 3 (RequestURI req);
                      arguments = (if length tokens = 3 then tokens ! 2 else '''');
                      (url, uerr) = URLParse E req (''http://'' @ address @ ''/'' @ arguments);
                      (werr, w3) =
                        (if uerr \<noteq> nil_error then lca_write E strm LCAPErrDeadProgram w2 else (nil_error, w2))
                  in if werr \<noteq> nil_error then (False, lca, w3)
                     else
                       (let ((resp, rerr), w4) =
                              RoundTrip E (if uerr \<noteq> nil_error then None else Some url) req w3;
                            (werr2, w5) =
                              (if rerr \<noteq> nil_error then lca_write E strm LCAPErrDeadProgram w4 else (nil_error, w4))
                        in if werr2 \<noteq> nil_error then (False, lca, w5)
                           else
                             (case resp of
                                None \<Rightarrow> (False, lca, w5)
                              | Some r \<Rightarrow>
                                  (let (err6, w6) = ResponseWrite E strm r w5
                                   in if err6 \<noteq> nil_error then (False, lca, w6)
                                      else
                                        (let (newTolsr, w7) = Now E w6
                                         in (True, lca\<lparr>Tolsr := newTolsr\<rparr>, w7))))))))"

definition RequestHandler :: "('w, 'z) lca_ops_scheme \<Rightarrow> string \<Rightarrow> LCAManager \<Rightarrow> stream \<Rightarrow> 'w
    \<Rightarrow> LCAManager \<times> 'w" where
  "RequestHandler E address lca strm w =
     (let (finished, lca1, w1) = handler_body E address lca strm w
      in (lca1, StreamClose E strm w1))"

text \<open>
  The constructor. The manager's handler and its protocol are appended to those of the configuration, which goes to
  \<open>NewNode\<close>; an empty service name
  starts the manager in anonymous mode, in which nothing is advertised. \<open>None\<close> stands for the nil
  pointer returned with an error.
\<close>

definition NewLCAManager :: "('w, 'z) lca_ops_scheme \<Rightarrow> NodeConfig \<Rightarrow> string \<Rightarrow> string \<Rightarrow> 'w
    \<Rightarrow> (LCAManager option \<times> error option) \<times> 'w" where
  "NewLCAManager E cfg serviceName serviceAddress w =
     (let node = \<lparr>P2PHash = '''', Tolsr = 0\<rparr>;
          (err, w1) = NewNode E (cfg\<lparr>StreamHandlers := StreamHandlers cfg @ [H_RequestHandler serviceAddress],
                                     HandlerProtocolIDs := HandlerProtocolIDs cfg @ [LCAManagerRequestProtID]\<rparr>) w
      in if err \<noteq> nil_error then ((None, err), w1)
         else if serviceName \<noteq> '''' then
           (let ((info, err2), w2) = GetServiceWithHostRouting E serviceName w1
            in if err2 \<noteq> nil_error then ((None, err2), w2)
               else ((Some (node\<lparr>P2PHash := ContentHash info\<rparr>), nil_error), Advertise E (ContentHash info) w2))
         else ((Some node, nil_error), w1))"

text \<open>
  A concrete world for evaluated examples, on the clock of \<open>demo_ops\<close>: three allocators of which the nearest cannot be
  reached, one peer that offers \<open>web\<close>, streams that accept everything and answer with an address line.
\<close>

definition demo_alloc :: "string \<Rightarrow> int \<Rightarrow> PeerInfo" where
  "demo_alloc name rtt = \<lparr>ID = name, Perf = \<lparr>RTT = rtt\<rparr>, ServName = '''', ServHash = ''''\<rparr>"

definition demo_response :: http_response where
  "demo_response = \<lparr>StatusCode = 200, Status = ''200 OK'', Header = [], Body = ''hello''\<rparr>"

definition demo_lca :: "int lca_ops" where
  "demo_lca = \<lparr>
     Now = Now demo_ops, GetServiceWithHostRouting = GetServiceWithHostRouting demo_ops,
     Ping = Ping demo_ops, LessThan = LessThan demo_ops,
     FindPeers = (\<lambda>name w. if name = LCAAllocatorRendezvous then ((1, None), w)
        else if name = ''h-web'' then ((2, None), w) else ((3, None), w)),
     SortPeers = (\<lambda>ch w.
        (if ch = 1 then [demo_alloc ''allocA'' 10, demo_alloc ''allocB'' 20, demo_alloc ''allocC'' 30]
         else if ch = 2 then [demo_alloc ''near'' 50] else [], w)),
     NewStream = (\<lambda>pid proto w. if pid = ''allocA'' then ((0, Some ''unreachable''), w) else ((7, None), w)),
     StreamReset = (\<lambda>s w. w), StreamClose = (\<lambda>s w. w),
     WriteString = (\<lambda>s str w. (None, w)), Flush = (\<lambda>s w. w),
     ReadString = (\<lambda>s w. ((''10.0.0.1:8080'' @ [CHR 0x0A], None), w)),
     ReadAll = (\<lambda>s w. (('''', None), w)),
     RequestWrite = (\<lambda>s req w. (None, w)),
     ReadRequest = (\<lambda>s w. ((\<lparr>RequestURI = ''/web/index'', ReqRest = ''''\<rparr>, None), w)),
     ReadResponse = (\<lambda>buf req. (demo_response, None)),
     URLParse = (\<lambda>req url. (url, None)),
     RoundTrip = (\<lambda>url req w. ((Some demo_response, None), w)),
     ResponseWrite = (\<lambda>s r w. (None, w)),
     NewNode = (\<lambda>cfg w. (None, w)), Advertise = (\<lambda>h w. w)\<rparr>"

section \<open>The contract of a search\<close>

text \<open>
  \<open>FindService\<close>, \<open>AllocService\<close> and \<open>AllocBetterService\<close> share a contract their callers rely on: a search that
  fails yields the empty peer identifier.
\<close>

locale peer_search =
  fixes search :: "'w \<Rightarrow> find_result \<times> 'w"
  assumes failure_empty: "search w = ((pid, perf, err), w') \<Longrightarrow> err \<noteq> nil_error \<Longrightarrow> pid = []"
begin

lemma nonempty_success: "search w = ((pid, perf, err), w') \<Longrightarrow> pid \<noteq> [] \<Longrightarrow> err = nil_error"
  using failure_empty by blast

end

lemma alloc_loop_failure:
  "alloc_loop E h ps op w = ((pid, perf, err), w') \<Longrightarrow> err \<noteq> nil_error \<Longrightarrow> pid = []"
  by (induction ps arbitrary: op w) (auto simp: Let_def split: prod.splits if_splits)

lemma allocBetter_loop_failure:
  "allocBetter_loop E h pf ps op w = ((pid, perf, err), w') \<Longrightarrow> err \<noteq> nil_error \<Longrightarrow> pid = []"
  by (induction ps arbitrary: op w) (auto simp: Let_def split: prod.splits if_splits)

interpretation find: peer_search "FindService E h" for E :: "('w, 'z) lca_ops_scheme" and h
  by unfold_locales (auto simp: FindService_def split: prod.splits if_splits list.splits)

interpretation alloc: peer_search "AllocService E h" for E :: "('w, 'z) lca_ops_scheme" and h
  by unfold_locales (auto simp: AllocService_def dest: alloc_loop_failure split: prod.splits if_splits)

interpretation better: peer_search "AllocBetterService E h pf" for E :: "('w, 'z) lca_ops_scheme" and h pf
  by unfold_locales (auto simp: AllocBetterService_def dest: allocBetter_loop_failure split: prod.splits if_splits)

section \<open>Lines\<close>

lemma lca_read_eq: "ReadString E rw w = ((line @ [CHR 0x0A], nil_error), w') \<Longrightarrow> lca_read E rw w = ((line, nil_error), w')"
  by (simp add: lca_read_def)

lemma lca_read_line:
  assumes "reads_lines E" and "lca_read E rw w = ((str, nil_error), w')"
  shows "ReadString E rw w = ((str @ [CHR 0x0A], nil_error), w') \<and> CHR 0x0A \<notin> set str"
proof -
  from assms(2) obtain raw where raw: "ReadString E rw w = ((raw, nil_error), w')" "str = TrimSuffix raw [CHR 0x0A]"
    by (auto simp: lca_read_def split: prod.splits if_splits)
  with assms(1) obtain line where "raw = line @ [CHR 0x0A]" "CHR 0x0A \<notin> set line"
    unfolding reads_lines_def by blast
  with raw show ?thesis by simp
qed

lemma lca_write_ok:
  "lca_write E rw msg w = (nil_error, w') \<longleftrightarrow>
     (\<exists>w1. WriteString E rw (msg @ [CHR 0x0A]) w = (nil_error, w1) \<and> w' = Flush E rw w1)"
  by (auto simp: lca_write_def split: prod.splits if_splits)

section \<open>Properties\<close>

text \<open>
  An allocation request is one line, \<open>start-program\<close> and the image hash, and it succeeds only with a
  well-formed address: if \<open>requestAlloc\<close> returns no error, the line was written and flushed, one line was read in reply,
  and that line is the address returned, four groups of one to three digits separated by dots, a colon, and one to
  five digits; with an error the address is empty.
\<close>
theorem requestAlloc_returns_address:
  assumes "reads_lines E" and "requestAlloc E s h w = ((addr, err), w')"
  shows "if err = nil_error
    then (\<exists>w1. WriteString E s (''start-program '' @ h @ [CHR 0x0A]) w = (nil_error, w1) \<and>
            ReadString E s (Flush E s w1) = ((addr @ [CHR 0x0A], nil_error), w')) \<and>
         (\<exists>a b c d p. addr = a @ ''.'' @ b @ ''.'' @ c @ ''.'' @ d @ '':'' @ p \<and>
            decimal 3 a \<and> decimal 3 b \<and> decimal 3 c \<and> decimal 3 d \<and> decimal 5 p)
    else addr = []"
proof (cases "err = nil_error")
  case True
  with assms(2) obtain w1 where
    wr: "lca_write E s (LCAAPCmdStartProgram @ '' '' @ h) w = (nil_error, w1)"
    and rd: "lca_read E s w1 = ((addr, nil_error), w')" and m: "re_match addr_re addr"
    by (auto simp: requestAlloc_def split: prod.splits if_splits)
  from wr obtain w0 where "WriteString E s (''start-program '' @ h @ [CHR 0x0A]) w = (nil_error, w0)"
      "w1 = Flush E s w0"
    by (auto simp: lca_write_ok LCAAPCmdStartProgram_def)
  with True lca_read_line [OF assms(1) rd] m show ?thesis by (auto simp: addr_re_lang)
next
  case False
  with assms(2) show ?thesis by (auto simp: requestAlloc_def split: prod.splits if_splits)
qed

text \<open>An instance: an allocator that answers \<open>10.0.0.1:8080\<close>.\<close>
theorem requestAlloc_returns_address_witness:
  "\<exists>a b c d p. ''10.0.0.1:8080'' = a @ ''.'' @ b @ ''.'' @ c @ ''.'' @ d @ '':'' @ p \<and>
     decimal 3 a \<and> decimal 3 b \<and> decimal 3 c \<and> decimal 3 d \<and> decimal 5 p"
proof -
  have lines: "reads_lines demo_lca" by (auto simp: reads_lines_def demo_lca_def)
  have run: "requestAlloc demo_lca 7 ''d-web'' 0 = ((''10.0.0.1:8080'', None), 0)"
    by code_simp
  from requestAlloc_returns_address [OF lines run] show ?thesis by simp
qed

lemma alloc_loop_result:
  "alloc_loop E h ps op w = ((pid, pf, nil_error), w') \<Longrightarrow> \<exists>p \<in> set ps. pid = ID p \<and> pf = Perf p"
proof (induction ps arbitrary: op w)
  case (Cons p ps)
  then show ?case by (fastforce simp: Let_def split: prod.splits if_splits)
qed simp

lemma alloc_loop_error:
  "alloc_loop E h ps op w = ((pid, pf, err), w') \<Longrightarrow> err \<noteq> nil_error \<Longrightarrow>
     (pid, pf, err) = ('''', zero_PerfInd, Some ''Could not find peer to allocate service'')"
  by (induction ps arbitrary: op w) (auto simp: Let_def split: prod.splits if_splits)

lemma allocBetter_is_alloc_prefix:
  "allocBetter_loop E h perf ps op w =
     (let not_worse = takeWhile (\<lambda>p. \<not> LessThan E perf (Perf p)) ps;
          ((pid, pf, err), w') = alloc_loop E h not_worse op w
      in if err \<noteq> nil_error \<and> not_worse \<noteq> ps
         then (('''', zero_PerfInd, Some ''Could not find better service''), w')
         else ((pid, pf, err), w'))"
  by (induction ps arbitrary: op w) (auto simp: Let_def split: prod.splits)

text \<open>The documented behaviour of \<open>SortPeers\<close>: the peers come in the order of their performance, best first.\<close>

definition sorts_peers :: "('w, 'z) lca_ops_scheme \<Rightarrow> bool" where
  "sorts_peers E \<longleftrightarrow> (\<forall>ch w. sorted_wrt (\<lambda>p q. \<not> LessThan E (Perf q) (Perf p)) (fst (SortPeers E ch w)))"

lemma takeWhile_sorted_filter:
  assumes "strict_weak_order lt" and "sorted_wrt (\<lambda>p q. \<not> lt (f q) (f p)) ps"
  shows "takeWhile (\<lambda>p. \<not> lt x (f p)) ps = filter (\<lambda>p. \<not> lt x (f p)) ps"
  using assms(2)
proof (induction ps)
  case (Cons p ps)
  have "filter (\<lambda>p. \<not> lt x (f p)) ps = []" if "lt x (f p)"
    using Cons.prems that strict_weak_order_negtrans [OF assms(1), of x _ "f p"] by (auto simp: filter_empty_conv)
  with Cons show ?case by simp
qed simp

text \<open>
  C37. \<open>AllocBetterService\<close> is \<open>AllocService\<close> restricted to the allocators that the given performance does not beat: when
  \<open>SortPeers\<close> sorts by performance, it makes exactly the requests of a search among those allocators, in the same order, with the same peer and the same world; only
  the error differs when the search was cut short. A peer it returns never performs worse than asked. (An allocator of equal performance is
  among those asked, although the comment on the function speaks of better performance.)
\<close>
theorem AllocBetterService_is_bounded_AllocService:
  assumes "strict_weak_order (LessThan E)" and "sorts_peers E"
    and "FindPeers E LCAAllocatorRendezvous w = ((ch, nil_error), w1)" and "SortPeers E ch w1 = (peers, w2)"
    and "not_worse = filter (\<lambda>p. \<not> LessThan E perf (Perf p)) peers"
    and "alloc_loop E h not_worse [] w2 = ((pid, pf, err), w')"
  shows "AllocBetterService E h perf w =
      ((if err \<noteq> nil_error \<and> not_worse \<noteq> peers
        then ('''', zero_PerfInd, Some ''Could not find better service'') else (pid, pf, err)), w') \<and>
    (not_worse = peers \<longrightarrow> AllocBetterService E h perf w = AllocService E h w) \<and>
    (err = nil_error \<longrightarrow> (\<exists>p \<in> set peers. pid = ID p \<and> pf = Perf p \<and> \<not> LessThan E perf pf))"
proof -
  have "\<exists>p \<in> set peers. pid = ID p \<and> pf = Perf p \<and> \<not> LessThan E perf pf" if "err = nil_error"
    using alloc_loop_result [of E h not_worse "[]" w2 pid pf w'] assms(5,6) that by auto
  moreover have "sorted_wrt (\<lambda>p q. \<not> LessThan E (Perf q) (Perf p)) peers"
    using assms(2,4) unfolding sorts_peers_def by (metis fst_conv)
  then have "takeWhile (\<lambda>p. \<not> LessThan E perf (Perf p)) peers = not_worse"
    using takeWhile_sorted_filter [OF assms(1)] assms(5) by simp
  then have better: "AllocBetterService E h perf w =
      ((if err \<noteq> nil_error \<and> not_worse \<noteq> peers
        then ([], zero_PerfInd, Some ''Could not find better service'') else (pid, pf, err)), w')"
    using assms(3,4,6) by (simp add: AllocBetterService_def allocBetter_is_alloc_prefix)
  moreover have "AllocService E h w = ((pid, pf, err), w')" if "not_worse = peers"
    using assms(3,4,6) that by (simp add: AllocService_def)
  ultimately show ?thesis by simp
qed

text \<open>Witness of C37: of three allocators the nearest is unreachable, the second performs exactly as asked, the third worse.\<close>
theorem AllocBetterService_is_bounded_AllocService_witness:
  "AllocBetterService demo_lca ''d-web'' \<lparr>RTT = 20\<rparr> 0 = ((''allocB'', \<lparr>RTT = 20\<rparr>, None), 0)"
proof -
  have o: "strict_weak_order (LessThan demo_lca)" by (simp add: demo_lca_def demo_ops_def strict_weak_order_measure)
  have d: "sorts_peers demo_lca" by (simp add: sorts_peers_def demo_lca_def demo_ops_def demo_alloc_def)
  have f: "FindPeers demo_lca LCAAllocatorRendezvous 0 = ((1, None), 0)"
    and s: "SortPeers demo_lca 1 0 = ([demo_alloc ''allocA'' 10, demo_alloc ''allocB'' 20, demo_alloc ''allocC'' 30], 0)"
    by (simp_all add: demo_lca_def)
  have l: "alloc_loop demo_lca ''d-web'' [demo_alloc ''allocA'' 10, demo_alloc ''allocB'' 20] [] 0 =
      ((''allocB'', \<lparr>RTT = 20\<rparr>, None), 0)"
    by code_simp
  have t: "[demo_alloc ''allocA'' 10, demo_alloc ''allocB'' 20] =
      filter (\<lambda>p. \<not> LessThan demo_lca \<lparr>RTT = 20\<rparr> (Perf p))
        [demo_alloc ''allocA'' 10, demo_alloc ''allocB'' 20, demo_alloc ''allocC'' 30]"
    by (simp add: demo_lca_def demo_ops_def demo_alloc_def)
  from AllocBetterService_is_bounded_AllocService [OF o d f s t l] show ?thesis by simp
qed

lemma SplitN_3: 
  assumes "CHR ''/'' \<notin> set name"
  shows "SplitN CHR ''/'' 3 (''/'' @ name @ ''/'' @ rest) = ['''', name, rest]"
proof -
  have "takeWhile (\<lambda>c. c \<noteq> CHR ''/'') (name @ ''/'' @ rest) = name"
    and "dropWhile (\<lambda>c. c \<noteq> CHR ''/'') (name @ ''/'' @ rest) = CHR ''/'' # rest"
    using assms by (induction name) auto
  then show ?thesis by (simp add: numeral_3_eq_3)
qed

lemma handler_body_records:
  "handler_body E address lca s w = (fin, lca', w') \<Longrightarrow>
     lca' = lca \<or> (\<exists>r v v'. ResponseWrite E s r v = (nil_error, v') \<and> lca' = lca\<lparr>Tolsr := fst (Now E v')\<rparr> \<and> w' = snd (Now E v'))"
  unfolding handler_body_def pingService_def
  by (auto simp: Let_def split: prod.splits if_splits option.splits) (metis fst_conv snd_conv)+

text \<open>
  C38. The serving side strips the service name, forwards to its own service and records activity only for a request it
  really answered. Whatever happens, the record of the last serviced request is unchanged unless a response has just been written
  to the requester, and then it is the time read right after that. A request that cannot be read changes nothing. For a request line \<open>/name/rest\<close> the
  request sent on goes to \<open>http://address/rest\<close>: if the service answers, the time is recorded if and only if the answer could be written; if it
  does not answer, the requester is sent the error line and nothing is recorded; if the address cannot be parsed, the error line is sent first, and
  unless that fails the request is still tried without an address. The stream is closed last in all cases.
\<close>
theorem RequestHandler_outcome:
  assumes "RequestHandler E address lca s w = (lca', w')" and "ReadRequest E s w = ((req, err), w1)"
  shows "(lca' = lca \<or> (\<exists>r v v'. ResponseWrite E s r v = (nil_error, v') \<and>
            lca' = lca\<lparr>Tolsr := fst (Now E v')\<rparr> \<and> w' = StreamClose E s (snd (Now E v')))) \<and>
    (err \<noteq> nil_error \<longrightarrow> lca' = lca \<and> w' = StreamClose E s w1) \<and>
    (\<forall>name rest url uerr. err = nil_error \<longrightarrow> RequestURI req = ''/'' @ name @ ''/'' @ rest \<longrightarrow> CHR ''/'' \<notin> set name \<longrightarrow>
       URLParse E req (''http://'' @ address @ ''/'' @ rest) = (url, uerr) \<longrightarrow>
       (if uerr = nil_error then
          (\<forall>r w2 werr w3. RoundTrip E (Some url) req w1 = ((Some r, nil_error), w2) \<longrightarrow> ResponseWrite E s r w2 = (werr, w3) \<longrightarrow>
             (lca', w') = (if werr = nil_error then (lca\<lparr>Tolsr := fst (Now E w3)\<rparr>, StreamClose E s (snd (Now E w3)))
                           else (lca, StreamClose E s w3))) \<and>
          (\<forall>rerr w2. RoundTrip E (Some url) req w1 = ((None, rerr), w2) \<longrightarrow>
             lca' = lca \<and> w' = StreamClose E s (if rerr = nil_error then w2 else snd (lca_write E s LCAPErrDeadProgram w2)))
        else
          (\<forall>werr w2. lca_write E s LCAPErrDeadProgram w1 = (werr, w2) \<longrightarrow>
             (werr \<noteq> nil_error \<longrightarrow> lca' = lca \<and> w' = StreamClose E s w2) \<and>
             (\<forall>rerr w3. werr = nil_error \<longrightarrow> RoundTrip E None req w2 = ((None, rerr), w3) \<longrightarrow>
                lca' = lca \<and> w' = StreamClose E s (if rerr = nil_error then w3 else snd (lca_write E s LCAPErrDeadProgram w3))))))"
proof (intro conjI impI allI)
  obtain fin v where b: "handler_body E address lca s w = (fin, lca', v)" "w' = StreamClose E s v"
    using assms(1) by (auto simp: RequestHandler_def split: prod.splits)
  from handler_body_records [OF b(1)] b(2)
  show "lca' = lca \<or> (\<exists>r v v'. ResponseWrite E s r v = (nil_error, v') \<and>
      lca' = lca\<lparr>Tolsr := fst (Now E v')\<rparr> \<and> w' = StreamClose E s (snd (Now E v')))" by blast
  show "lca' = lca" "w' = StreamClose E s w1" if "err \<noteq> nil_error"
    using that assms(2) b by (auto simp: handler_body_def pingService_def)
  fix name rest url uerr
  assume req: "err = nil_error" "RequestURI req = ''/'' @ name @ ''/'' @ rest" "CHR ''/'' \<notin> set name"
    and url: "URLParse E req (''http://'' @ address @ ''/'' @ rest) = (url, uerr)"
  have tok: "SplitN CHR ''/'' 3 (RequestURI req) = ['''', name, rest]"
    using req(2,3) by (simp add: SplitN_3 [simplified])
  note run = assms(1) [unfolded RequestHandler_def handler_body_def pingService_def] assms(2) req(1) tok url
  show "if uerr = nil_error then
      (\<forall>r w2 werr w3. RoundTrip E (Some url) req w1 = ((Some r, nil_error), w2) \<longrightarrow> ResponseWrite E s r w2 = (werr, w3) \<longrightarrow>
         (lca', w') = (if werr = nil_error then (lca\<lparr>Tolsr := fst (Now E w3)\<rparr>, StreamClose E s (snd (Now E w3)))
                       else (lca, StreamClose E s w3))) \<and>
      (\<forall>rerr w2. RoundTrip E (Some url) req w1 = ((None, rerr), w2) \<longrightarrow>
         lca' = lca \<and> w' = StreamClose E s (if rerr = nil_error then w2 else snd (lca_write E s LCAPErrDeadProgram w2)))
    else
      (\<forall>werr w2. lca_write E s LCAPErrDeadProgram w1 = (werr, w2) \<longrightarrow>
         (werr \<noteq> nil_error \<longrightarrow> lca' = lca \<and> w' = StreamClose E s w2) \<and>
         (\<forall>rerr w3. werr = nil_error \<longrightarrow> RoundTrip E None req w2 = ((None, rerr), w3) \<longrightarrow>
            lca' = lca \<and> w' = StreamClose E s (if rerr = nil_error then w3 else snd (lca_write E s LCAPErrDeadProgram w3))))"
    using run by (cases "uerr = nil_error") (auto simp: Let_def split: prod.splits if_splits)
qed

text \<open>Witness of C38: a request for \<open>/web/index\<close>, served at instant 5.\<close>
theorem RequestHandler_outcome_witness:
  "RequestHandler demo_lca ''10.0.0.9:80'' \<lparr>P2PHash = ''h-web'', Tolsr = 0\<rparr> 3 5 =
     (\<lparr>P2PHash = ''h-web'', Tolsr = 5\<rparr>, 1000005)"
proof -
  have r: "ReadRequest demo_lca 3 5 = ((\<lparr>RequestURI = ''/web/index'', ReqRest = ''''\<rparr>, None), 5)"
    by (simp add: demo_lca_def)
  have u: "RequestURI \<lparr>RequestURI = ''/web/index'', ReqRest = ''''\<rparr> = ''/'' @ ''web'' @ ''/'' @ ''index''" by simp
  have n: "CHR ''/'' \<notin> set ''web''" by simp
  have p: "URLParse demo_lca \<lparr>RequestURI = ''/web/index'', ReqRest = ''''\<rparr>
      (''http://'' @ ''10.0.0.9:80'' @ ''/'' @ ''index'') = (''http://10.0.0.9:80/index'', None)"
    by (simp add: demo_lca_def)
  have t: "RoundTrip demo_lca (Some ''http://10.0.0.9:80/index'') \<lparr>RequestURI = ''/web/index'', ReqRest = ''''\<rparr> 5 =
      ((Some demo_response, None), 5)" by (simp add: demo_lca_def)
  have w: "ResponseWrite demo_lca 3 demo_response 5 = (None, 5)" by (simp add: demo_lca_def)
  obtain lca' w' where h: "RequestHandler demo_lca ''10.0.0.9:80'' \<lparr>P2PHash = ''h-web'', Tolsr = 0\<rparr> 3 5 = (lca', w')" by (metis prod.exhaust)
  from RequestHandler_outcome [OF h r, THEN conjunct2, THEN conjunct2, rule_format, OF refl u n p]
  have "(lca', w') = (\<lparr>P2PHash = ''h-web'', Tolsr = 0\<rparr>\<lparr>Tolsr := fst (Now demo_lca 5)\<rparr>, StreamClose demo_lca 3 (snd (Now demo_lca 5)))"
    using t w by simp
  with h show ?thesis by (simp add: demo_lca_def demo_ops_def)
qed

end
