(* ===== verification/Resolve.thy ===== *)
theory Resolve
  imports Peer_Cache LCA_Manager
begin

text \<open>
  Finding a peer for a service: \<open>findOrAllocate\<close>, \<open>resolveService\<close> and the helpers of the layer-4 proxy
  (\<open>src/l4-proxy/l4-proxy.go\<close>), and \<open>runRequest\<close> of the HTTP proxy (\<open>src/proxy/proxy.go\<close>), which contains its own copy
  of the search. Each looks the peer cache up first, then tries at most three times to find an instance or to have one
  allocated. The cache operations are the atomic steps of \<open>Peer_Cache\<close>; one call of a resolver is modelled without other
  goroutines changing the cache between its two accesses.
\<close>

section \<open>Operations of the world\<close>

text \<open>
  \<open>time.Sleep\<close>, and the exponential backoff of the common library: \<open>util.NewExpoBackoffAttempts\<close> with \<open>Attempt\<close>, which
  waits and tells whether another attempt is allowed (\<open>None\<close> is the panic of a nil receiver).
\<close>

record 'w proxy_ops = "'w lca_ops" +
  Sleep :: "duration \<Rightarrow> 'w \<Rightarrow> 'w"
  NewExpoBackoffAttempts :: "duration \<Rightarrow> duration \<Rightarrow> int \<Rightarrow> 'w \<Rightarrow> (nat \<times> error option) \<times> 'w"
  Attempt :: "nat \<Rightarrow> 'w \<Rightarrow> (bool \<times> 'w) option"

definition Millisecond :: duration where
  "Millisecond = 1000000"

text \<open>
  The documented behaviour of the backoff, with \<open>left b w\<close> the number of attempts backoff \<open>b\<close> still grants: \<open>Attempt\<close> returns, and
  each granted attempt uses one up; discovering peers does not grant new ones.
\<close>

definition bounded_backoff :: "('w, 'z) proxy_ops_scheme \<Rightarrow> (nat \<Rightarrow> 'w \<Rightarrow> nat) \<Rightarrow> bool" where
  "bounded_backoff E left \<longleftrightarrow>
     (\<forall>b w. \<exists>more w'. Attempt E b w = Some (more, w') \<and> (more \<longrightarrow> left b w' < left b w)) \<and>
     (\<forall>b name w. left b (snd (FindPeers E name w)) \<le> left b w) \<and>
     (\<forall>b ch w. left b (snd (SortPeers E ch w)) \<le> left b w)"

section \<open>Waiting for a new instance\<close>

text \<open>
  The backoff loop: ask for the service again until it is found or the attempts are used up. The
  loop overwrites the caller's \<open>id\<close> and \<open>perf\<close>, but its \<open>err\<close> is the one declared beside \<open>backoff\<close> and is lost.
\<close>

partial_function (option) backoff_loop :: "('w, 'z) proxy_ops_scheme \<Rightarrow> nat \<Rightarrow> string \<Rightarrow> peer_id \<Rightarrow> PerfInd \<Rightarrow> 'w
    \<Rightarrow> (peer_id \<times> PerfInd \<times> 'w) option" where
  [code]: "backoff_loop E backoff serviceHash pid perf w =
     Option.bind (Attempt E backoff w) (\<lambda>(more, w1).
       if more then
         (case FindService E serviceHash w1 of
            ((pid', perf', err), w2) \<Rightarrow>
              if err = nil_error then Some (pid', perf', w2)
              else backoff_loop E backoff serviceHash pid' perf' w2)
       else Some (pid, perf, w1))"

section \<open>The layer-4 proxy\<close>

text \<open>The body of the attempts loop of \<open>findOrAllocate\<close>; the error is the one of the function's scope.\<close>

definition findOrAllocate_body :: "('w, 'z) proxy_ops_scheme \<Rightarrow> string \<Rightarrow> string \<Rightarrow> PerfInd \<Rightarrow> 'w
    \<Rightarrow> ((peer_id \<times> error option) \<times> 'w) option" where
  "findOrAllocate_body E serviceHash dockerHash softReq w =
     (let ((pid, perf, err), w1) = FindService E serviceHash w
      in if err \<noteq> nil_error then
           (let ((_, _, err2), w2) = AllocService E dockerHash w1
            in if err2 \<noteq> nil_error then Some ((pid, err2), w2)
               else
                 (let wait = 200 * Millisecond;
                      w3 = Sleep E wait w2;
                      ((backoff, berr), w4) = NewExpoBackoffAttempts E wait Second 5 w3
                  in do {
                    (pid2, perf2, w5) \<leftarrow> backoff_loop E backoff serviceHash pid perf w4;
                    Some ((pid2, err2), w5)
                  }))
         else if LessThan E softReq perf then
           (let ((_, _, err2), w2) = AllocBetterService E dockerHash perf w1
            in Some ((pid, err2), w2))
         else Some ((pid, err), w1))"

text \<open>The loop itself, with the number of attempts that remain.\<close>

fun findOrAllocate_loop :: "('w, 'z) proxy_ops_scheme \<Rightarrow> string \<Rightarrow> string \<Rightarrow> PerfInd \<Rightarrow> nat \<Rightarrow> peer_id \<Rightarrow> error option \<Rightarrow> 'w
    \<Rightarrow> ((peer_id \<times> error option) \<times> 'w) option" where
  "findOrAllocate_loop E serviceHash dockerHash softReq 0 pid err w = Some ((pid, err), w)"
| "findOrAllocate_loop E serviceHash dockerHash softReq (Suc n) pid err w =
     (if pid = '''' then
        do {
          ((pid1, err1), w1) \<leftarrow> findOrAllocate_body E serviceHash dockerHash softReq w;
          findOrAllocate_loop E serviceHash dockerHash softReq n pid1 err1 w1
        }
      else Some ((pid, err), w))"

definition findOrAllocate :: "('w, 'z) proxy_ops_scheme \<Rightarrow> string \<Rightarrow> ServiceInfo \<Rightarrow> PeerCache \<Rightarrow> 'w
    \<Rightarrow> ((peer_id \<times> error option) \<times> PeerCache \<times> 'w) option" where
  "findOrAllocate E servName servInfo peerCache w =
     (let serviceHash = ContentHash servInfo; dockerHash = DockerHash servInfo
      in do {
        (pid, err) \<leftarrow> GetPeer peerCache serviceHash;
        (pid2, peerCache2, w2) \<leftarrow>
          (if err = nil_error then Some (pid, peerCache, w)
           else
             (let (startTime, w1) = Now E w
              in do {
                ((pid1, err1), w2) \<leftarrow>
                  findOrAllocate_loop E serviceHash dockerHash (NetworkSoftReq servInfo) 3 pid err w1;
                (if err1 = nil_error \<and> pid1 \<noteq> '''' then
                   do {
                     peerCache1 \<leftarrow> AddPeer peerCache
                       \<lparr>ID = pid1, Perf = zero_PerfInd, ServName = servName, ServHash = serviceHash\<rparr>;
                     Some (pid1, peerCache1, snd (Now E w2))
                   }
                 else Some (pid1, peerCache, w2))
              }));
        (if pid2 = '''' then
           Some (('''', Some (''Unable to find or allocate service'' @ [CHR 0x0A])), peerCache2, w2)
         else Some ((pid2, nil_error), peerCache2, w2))
      })"

definition splitURIPath :: "string \<Rightarrow> string list" where
  "splitURIPath uriPath =
     (let uriPath1 = TrimPrefix uriPath ''/'';
          uriPath2 = TrimSuffix uriPath1 ''/'';
          res = Split CHR ''/'' uriPath2
      in if hd res = '''' then [] else res)"

definition createStream :: "('w, 'z) lca_ops_scheme \<Rightarrow> peer_id \<Rightarrow> protocol_id \<Rightarrow> 'w
    \<Rightarrow> (stream option \<times> error option) \<times> 'w" where
  "createStream E targetPeer proto w =
     (let ((strm, err), w1) = NewStream E targetPeer proto w
      in if err \<noteq> nil_error then ((None, err), w1) else ((Some strm, nil_error), w1))"

definition resolveService :: "('w, 'z) proxy_ops_scheme \<Rightarrow> string \<Rightarrow> RegistryCache \<Rightarrow> PeerCache \<Rightarrow> 'w
    \<Rightarrow> ((peer_id \<times> ServiceInfo \<times> error option) \<times> RegistryCache \<times> PeerCache \<times> 'w) option" where
  "resolveService E servName registryCache peerCache w =
     (let ((info, err), registryCache1, w1) = GetOrRequestService E registryCache servName w
      in if err \<noteq> nil_error then
           Some (('''', info, Some (''ERROR: Hash lookup for service '' @ servName @ '' failed'' @ [CHR 0x0A] @
                    the err @ [CHR 0x0A])), registryCache1, peerCache, w1)
         else
           do {
             ((peerProxyID, err2), peerCache2, w2) \<leftarrow> findOrAllocate E servName info peerCache w1;
             (if err2 \<noteq> nil_error then
                Some (('''', info, Some (''ERROR: Unable to find or allocate service '' @ servName @ '' ('' @
                         ContentHash info @ '')'' @ [CHR 0x0A] @ the err2 @ [CHR 0x0A])), registryCache1, peerCache2, w2)
              else Some ((peerProxyID, info, nil_error), registryCache1, peerCache2, w2))
           })"

section \<open>The HTTP proxy\<close>

text \<open>
  \<open>runRequest\<close> has the search spelled out again; a peer found is cached inside the loop. (After \<open>continue\<close> the caching is
  skipped, as it is for the error that caused it.)
\<close>

definition runRequest_body :: "('w, 'z) proxy_ops_scheme \<Rightarrow> string \<Rightarrow> string \<Rightarrow> PerfInd \<Rightarrow> 'w
    \<Rightarrow> ((peer_id \<times> error option) \<times> 'w) option" where
  "runRequest_body E serviceHash dockerHash softReq w =
     (let ((pid, perf, err), w1) = FindService E serviceHash w
      in if err \<noteq> nil_error then
           (let ((_, _, err2), w2) = AllocService E dockerHash w1
            in if err2 \<noteq> nil_error then Some ((pid, err2), w2)
               else
                 (let wait = 200 * Millisecond;
                      w3 = Sleep E wait w2;
                      ((backoff, berr), w4) = NewExpoBackoffAttempts E wait Second 5 w3
                  in do {
                    (pid2, perf2, w5) \<leftarrow> backoff_loop E backoff serviceHash pid perf w4;
                    Some ((pid2, err2), w5)
                  }))
         else if LessThan E softReq perf then
           (let ((_, _, err2), w2) = AllocBetterService E dockerHash perf w1
            in Some ((pid, err2), w2))
         else Some ((pid, err), w1))"

fun runRequest_loop :: "('w, 'z) proxy_ops_scheme \<Rightarrow> string \<Rightarrow> ServiceInfo \<Rightarrow> nat \<Rightarrow> peer_id \<Rightarrow> PeerCache \<Rightarrow> 'w
    \<Rightarrow> (peer_id \<times> PeerCache \<times> 'w) option" where
  "runRequest_loop E servName servInfo 0 pid peerCache w = Some (pid, peerCache, w)"
| "runRequest_loop E servName servInfo (Suc n) pid peerCache w =
     (if pid = '''' then
        do {
          ((pid1, err1), w1) \<leftarrow>
            runRequest_body E (ContentHash servInfo) (DockerHash servInfo) (NetworkSoftReq servInfo) w;
          peerCache1 \<leftarrow>
            (if err1 = nil_error \<and> pid1 \<noteq> '''' then
               AddPeer peerCache
                 \<lparr>ID = pid1, Perf = zero_PerfInd, ServName = servName, ServHash = ContentHash servInfo\<rparr>
             else Some peerCache);
          runRequest_loop E servName servInfo n pid1 peerCache1 w1
        }
      else Some (pid, peerCache, w))"

text \<open>The first part of \<open>runRequest\<close>, up to the choice of the peer.\<close>

definition runRequest_resolve :: "('w, 'z) proxy_ops_scheme \<Rightarrow> string \<Rightarrow> ServiceInfo \<Rightarrow> PeerCache \<Rightarrow> 'w
    \<Rightarrow> (peer_id \<times> PeerCache \<times> 'w) option" where
  "runRequest_resolve E servName servInfo peerCache w =
     do {
       (pid, err) \<leftarrow> GetPeer peerCache (ContentHash servInfo);
       (if err = nil_error then Some (pid, peerCache, w)
        else
          (let (startTime, w1) = Now E w
           in do {
             (pid1, peerCache1, w2) \<leftarrow> runRequest_loop E servName servInfo 3 pid peerCache w1;
             Some (pid1, peerCache1, snd (Now E w2))
           }))
     }"

text \<open>
  The whole function. The removal of a peer whose request failed is done by a goroutine, at some later time; the peers to be
  removed are the third component of the result.
\<close>

definition runRequest :: "('w, 'z) proxy_ops_scheme \<Rightarrow> string \<Rightarrow> ServiceInfo \<Rightarrow> http_request \<Rightarrow> PeerCache \<Rightarrow> 'w
    \<Rightarrow> ((http_response option \<times> error option) \<times> PeerCache \<times> peer_id list \<times> 'w) option" where
  "runRequest E servName servInfo req peerCache w =
     do {
       (pid, peerCache1, w1) \<leftarrow> runRequest_resolve E servName servInfo peerCache w;
       (if pid = '''' then Some ((None, Some ''Not found''), peerCache1, [], w1)
        else
          (let ((resp, err), w2) = Request E pid req w1
           in if err \<noteq> nil_error then Some ((resp, err), peerCache1, [pid], w2)
              else Some ((resp, err), peerCache1, [], w2)))
     }"

section \<open>Facts about the searches\<close>

lemma FindService_left:
  "bounded_backoff E left \<Longrightarrow> left b (snd (FindService E h w)) \<le> left b w"
  unfolding bounded_backoff_def FindService_def
  by (auto split: prod.splits list.splits) (metis (no_types, lifting) order_trans snd_conv)+

lemma backoff_loop_returns:
  assumes "bounded_backoff E left"
  shows "\<exists>r. backoff_loop E b h pid perf w = Some r"
proof (induction "left b w" arbitrary: pid perf w rule: less_induct)
  case less
  obtain more w1 where a: "Attempt E b w = Some (more, w1)" and l: "more \<Longrightarrow> left b w1 < left b w"
    using assms unfolding bounded_backoff_def by metis
  obtain pid' perf' err w2 where f: "FindService E h w1 = ((pid', perf', err), w2)" by (metis prod.exhaust)
  with FindService_left [OF assms, of b h w1] have "left b w2 \<le> left b w1" by simp
  with l have "\<exists>r. backoff_loop E b h pid' perf' w2 = Some r" if more
    using less.hyps that by (meson le_less_trans)
  with a f show ?case by (subst backoff_loop.simps) auto
qed

lemma findOrAllocate_body_returns:
  assumes "bounded_backoff E left"
  shows "\<exists>pid err w'. findOrAllocate_body E h d s w = Some ((pid, err), w')"
proof -
  have "\<exists>p q w'. backoff_loop E b h pid perf w1 = Some (p, q, w')" for b pid perf w1
    using backoff_loop_returns [OF assms] by (metis prod.exhaust)
  then have b: "\<exists>p w'. Option.bind (backoff_loop E b h pid perf w1) (\<lambda>(p, q, w'). Some ((p, e), w')) = Some ((p, e), w')"
    for b pid perf w1 and e :: "error option"
    by (metis (no_types, lifting) bind.bind_lunit case_prod_conv)
  show ?thesis
    unfolding findOrAllocate_body_def Let_def using b by (auto split: prod.splits) blast
qed

lemma findOrAllocate_loop_returns:
  assumes "bounded_backoff E left"
  shows "\<exists>pid' err' w'. findOrAllocate_loop E h d s n pid err w = Some ((pid', err'), w')"
proof (induction n arbitrary: pid err w)
  case (Suc n)
  with findOrAllocate_body_returns [OF assms, of h d s w] show ?case by fastforce
qed simp

text \<open>The two copies of the loop body are the same function, and after the first success the loops stop.\<close>

lemma runRequest_body_eq: "runRequest_body = findOrAllocate_body"
  by (intro ext) (simp add: runRequest_body_def findOrAllocate_body_def)

lemma findOrAllocate_loop_stop: "pid \<noteq> [] \<Longrightarrow> findOrAllocate_loop E h d s n pid err w = Some ((pid, err), w)"
  by (cases n) auto

lemma runRequest_loop_stop: "pid \<noteq> [] \<Longrightarrow> runRequest_loop E name info n pid c w = Some (pid, c, w)"
  by (cases n) auto

abbreviation found_peer :: "peer_id \<Rightarrow> string \<Rightarrow> ServiceInfo \<Rightarrow> PeerInfo" where
  "found_peer pid servName servInfo \<equiv>
     \<lparr>ID = pid, Perf = zero_PerfInd, ServName = servName, ServHash = ContentHash servInfo\<rparr>"

lemma runRequest_loop_eq:
  "runRequest_loop E name info n [] c w =
     do {
       ((pid, err'), w') \<leftarrow>
         findOrAllocate_loop E (ContentHash info) (DockerHash info) (NetworkSoftReq info) n [] err w;
       c' \<leftarrow> (if err' = nil_error \<and> pid \<noteq> [] then AddPeer c (found_peer pid name info) else Some c);
       Some (pid, c', w')
     }"
proof (induction n arbitrary: w err)
  case (Suc n)
  show ?case
  proof (cases "findOrAllocate_body E (ContentHash info) (DockerHash info) (NetworkSoftReq info) w")
    case None
    then show ?thesis by (simp add: runRequest_body_eq)
  next
    case (Some r)
    then obtain pid err' w' where
      r: "findOrAllocate_body E (ContentHash info) (DockerHash info) (NetworkSoftReq info) w = Some ((pid, err'), w')"
      by (metis prod.exhaust)
    show ?thesis
    proof (cases "pid = []")
      case True
      with r show ?thesis by (simp add: runRequest_body_eq Suc [where err = err'])
    next
      case False
      with r show ?thesis
        by (auto simp: runRequest_body_eq findOrAllocate_loop_stop runRequest_loop_stop Option.bind_eq_None_conv
            split: Option.bind_split)
    qed
  qed
qed simp

section \<open>A concrete world\<close>

text \<open>
  The world of \<open>demo_lca\<close> with a backoff of five attempts: the last digit of the clock counts the attempts of the
  current backoff. The service \<open>web\<close> is found, the service \<open>db\<close> is not, although its allocation succeeds.
\<close>

definition demo_proxy :: "int proxy_ops" where
  "demo_proxy = \<lparr>
     Now = Now demo_lca, GetServiceWithHostRouting = GetServiceWithHostRouting demo_lca,
     Ping = Ping demo_lca, LessThan = LessThan demo_lca,
     FindPeers = FindPeers demo_lca, SortPeers = SortPeers demo_lca, NewStream = NewStream demo_lca,
     StreamReset = StreamReset demo_lca, StreamClose = StreamClose demo_lca,
     WriteString = WriteString demo_lca, Flush = Flush demo_lca, ReadString = ReadString demo_lca,
     ReadAll = ReadAll demo_lca, RequestWrite = RequestWrite demo_lca, ReadRequest = ReadRequest demo_lca,
     ReadResponse = ReadResponse demo_lca, URLParse = URLParse demo_lca, RoundTrip = RoundTrip demo_lca,
     ResponseWrite = ResponseWrite demo_lca, NewNode = NewNode demo_lca, Advertise = Advertise demo_lca,
     Sleep = (\<lambda>d w. w + d),
     NewExpoBackoffAttempts = (\<lambda>a b n w. ((1, None), w - w mod 10)),
     Attempt = (\<lambda>b w. Some (w mod 10 < 5, w + 1))\<rparr>"

definition demo_left :: "nat \<Rightarrow> int \<Rightarrow> nat" where
  "demo_left b w = nat (5 - w mod 10)"

lemma demo_bounded: "bounded_backoff demo_proxy demo_left"
proof -
  have "demo_left b (w + 1) < demo_left b w" if "w mod 10 < 5" for b w
  proof -
    have "(w + 1) mod 10 = w mod 10 + 1" using that by (simp add: mod_add_eq [symmetric, of w 1 10])
    with that show ?thesis by (simp add: demo_left_def)
  qed
  then show ?thesis by (auto simp: bounded_backoff_def demo_proxy_def demo_lca_def)
qed

section \<open>Properties\<close>

lemma get_levels_miss: "get_levels h c l = Some (pid, Some e) \<Longrightarrow> pid = []"
proof (induction h c l rule: get_levels.induct)
  case (1 h c l)
  then show ?case
    by (subst (asm) get_levels.simps) (auto split: if_splits option.splits Option.bind_splits)
qed

lemma resolvers_eq:
  "map_option (\<lambda>(pid, c, w). (pid, c)) (runRequest_resolve E name info c w) =
   map_option (\<lambda>((pid, err), c, w). (pid, c)) (findOrAllocate E name info c w)"
proof (cases "GetPeer c (ContentHash info)")
  case None
  then show ?thesis by (simp add: runRequest_resolve_def findOrAllocate_def)
next
  case (Some r)
  then obtain pid err where g: "GetPeer c (ContentHash info) = Some (pid, err)" by (metis prod.exhaust)
  show ?thesis
  proof (cases err)
    case None
    with g show ?thesis by (simp add: runRequest_resolve_def findOrAllocate_def)
  next
    case (Some e)
    with g have "pid = []" by (auto simp: GetPeer_def dest: get_levels_miss)
    with g Some show ?thesis
      by (auto simp: runRequest_resolve_def findOrAllocate_def Let_def runRequest_loop_eq [where err = err] map_option_bind
          intro!: arg_cong [where f = "Option.bind _"] split: prod.splits if_splits Option.bind_split)
  qed
qed

text \<open>
  C9. The two resolvers agree: the layer-4 proxy's \<open>findOrAllocate\<close> and the copy of it inside the HTTP proxy's \<open>runRequest\<close> choose the same
  peer and leave the same peer cache, in every world, cache and outcome (including not returning); they differ only in the readings of the
  clock used for logging.
\<close>
theorem resolvers_agree:
  "map_option (\<lambda>(pid, c, w). (pid, c)) (runRequest_resolve E name info c w) =
   map_option (\<lambda>((pid, err), c, w). (pid, c)) (findOrAllocate E name info c w)"
  by (rule resolvers_eq)

lemma findOrAllocate_total:
  assumes "cache_ok c" and "bounded_backoff E left"
  shows "\<exists>pid err c' w'. findOrAllocate E name info c w = Some ((pid, err), c', w') \<and> cache_ok c' \<and>
    (err = nil_error \<longleftrightarrow> pid \<noteq> []) \<and> (pid = [] \<longrightarrow> c' = c)"
proof -
  obtain p0 e0 where g: "GetPeer c (ContentHash info) = Some (p0, e0)" using pc.get_total [OF assms(1)] by blast
  obtain p1 e1 w1 where l: "findOrAllocate_loop E (ContentHash info) (DockerHash info) (NetworkSoftReq info) 3 p0 e0
      (snd (Now E w)) = Some ((p1, e1), w1)"
    using findOrAllocate_loop_returns [OF assms(2)] by blast
  obtain c1 where a: "AddPeer c (found_peer p1 name info) = Some c1" "cache_ok c1"
    using pc.add_ok [OF assms(1)] by blast
  show ?thesis
    using g l a assms(1) by (auto simp: findOrAllocate_def Let_def split: prod.split)
qed

text \<open>
  C7. Resolution always returns: on a well-formed cache, and with a backoff that grants finitely many attempts, \<open>findOrAllocate\<close> returns,
  the cache is well-formed again, and there is an error exactly when there is no peer. If there is none, the cache is unchanged.
\<close>
theorem findOrAllocate_returns:
  assumes "cache_ok c" and "bounded_backoff E left"
  shows "\<exists>pid err c' w'. findOrAllocate E name info c w = Some ((pid, err), c', w') \<and> cache_ok c' \<and>
    (err = nil_error \<longleftrightarrow> pid \<noteq> []) \<and> (pid = [] \<longrightarrow> c' = c)"
  using assms by (rule findOrAllocate_total)

text \<open>Witness of C7: \<open>db\<close> is allocated three times but never shows up.\<close>
theorem findOrAllocate_returns_witness:
  "\<exists>pid err c' w'. findOrAllocate demo_proxy ''db'' (demo_info ''db'') demo_cache 0 = Some ((pid, err), c', w') \<and>
     cache_ok c' \<and> (err = nil_error \<longleftrightarrow> pid \<noteq> []) \<and> (pid = [] \<longrightarrow> c' = demo_cache)"
  by (rule findOrAllocate_returns [OF demo_cache_ok demo_bounded])

lemma runRequest_resolve_total:
  assumes "cache_ok c" and "bounded_backoff E left"
  shows "\<exists>pid c' w'. runRequest_resolve E name info c w = Some (pid, c', w') \<and> cache_ok c'"
proof -
  obtain pid err c' w' where "findOrAllocate E name info c w = Some ((pid, err), c', w')" and ok: "cache_ok c'"
    using findOrAllocate_total [OF assms] by blast
  with resolvers_eq [of E name info c w]
  have "map_option (\<lambda>(pid, c, w). (pid, c)) (runRequest_resolve E name info c w) = Some (pid, c')" by simp
  with ok show ?thesis by auto
qed

text \<open>
  A service whose instance is cached is resolved from the cache alone: the peer returned is one on offer for the service's
  hash, and neither the cache nor the world changes (no discovery, no allocation, no clock reading).
\<close>
theorem findOrAllocate_cache_hit:
  assumes "cache_ok c" and "(y, ContentHash info) \<in> offered c" and "\<forall>z. ([], z) \<notin> offered c"
  shows "\<exists>pid. (pid, ContentHash info) \<in> offered c \<and> findOrAllocate E name info c w = Some ((pid, nil_error), c, w)"
proof -
  from pc.get_ok [OF assms(1), of "ContentHash info"] assms(2) obtain x where
    "GetPeer c (ContentHash info) = Some (x, nil_error)" "(x, ContentHash info) \<in> offered c" by metis
  with assms(3) show ?thesis by (intro exI [of _ x]) (auto simp: findOrAllocate_def Let_def)
qed
text \<open>An instance: a cache that holds a peer for \<open>web\<close>.\<close>
theorem findOrAllocate_cache_hit_witness:
  "\<exists>pid. (pid, ''h-web'') \<in> offered demo_cache \<and>
     findOrAllocate demo_proxy ''web'' (demo_info ''web'') demo_cache 9 = Some ((pid, None), demo_cache, 9)"
proof -
  have o: "(''near'', ContentHash (demo_info ''web'')) \<in> offered demo_cache" "\<forall>z. ([], z) \<notin> offered demo_cache"
    by (simp_all add: offered_def demo_cache_def demo_peer_def demo_info_def)
  from findOrAllocate_cache_hit [OF demo_cache_ok o] show ?thesis by (simp add: demo_info_def)
qed

text \<open>
  The only way the search comes back with a peer and an error: the peer was found, misses the soft requirement, and the request for a better
  instance, the last thing done to the world, failed.
\<close>

definition better_failed :: "('w, 'z) proxy_ops_scheme \<Rightarrow> ServiceInfo \<Rightarrow> peer_id \<Rightarrow> 'w \<Rightarrow> bool" where
  "better_failed E info pid w' \<longleftrightarrow> (\<exists>v perf v1 x y e. FindService E (ContentHash info) v = ((pid, perf, nil_error), v1) \<and>
     LessThan E (NetworkSoftReq info) perf \<and> AllocBetterService E (DockerHash info) perf v1 = ((x, y, Some e), w'))"

lemma findOrAllocate_body_kept:
  assumes "findOrAllocate_body E (ContentHash info) (DockerHash info) (NetworkSoftReq info) w = Some ((pid, Some e), w')" and "pid \<noteq> []"
  shows "better_failed E info pid w'"
proof -
  obtain p perf err w1 where f: "FindService E (ContentHash info) w = ((p, perf, err), w1)" by (metis prod.exhaust)
  show ?thesis
  proof (cases "err = nil_error")
    case True
    obtain x y err2 w2 where "AllocBetterService E (DockerHash info) perf w1 = ((x, y, err2), w2)" by (metis prod.exhaust)
    with f True assms show ?thesis
      by (simp add: findOrAllocate_body_def better_failed_def split: if_splits) blast
  next
    case False
    then have "p = []" by (rule find.failure_empty [OF f])
    moreover obtain x y err2 w2 where "AllocService E (DockerHash info) w1 = ((x, y, err2), w2)" by (metis prod.exhaust)
    ultimately show ?thesis using f assms False
      by (cases err2) (simp_all add: findOrAllocate_body_def split_def Let_def bind_eq_Some_conv)
  qed
qed

lemma findOrAllocate_loop_kept:
  "findOrAllocate_loop E (ContentHash info) (DockerHash info) (NetworkSoftReq info) n [] e0 w = Some ((pid, Some e), w') \<Longrightarrow>
    pid \<noteq> [] \<Longrightarrow> better_failed E info pid w'"
proof (induction n arbitrary: e0 w)
  case (Suc n)
  then obtain p1 e1 w1 where b: "findOrAllocate_body E (ContentHash info) (DockerHash info) (NetworkSoftReq info) w = Some ((p1, e1), w1)"
    and l: "findOrAllocate_loop E (ContentHash info) (DockerHash info) (NetworkSoftReq info) n p1 e1 w1 = Some ((pid, Some e), w')"
    by (auto simp: bind_eq_Some_conv)
  show ?case
  proof (cases "p1 = []")
    case True
    with l Suc.IH [of e1 w1] Suc.prems(2) show ?thesis by simp
  next
    case False
    with l have "p1 = pid \<and> e1 = Some e \<and> w1 = w'" by (cases n) auto
    with b Suc.prems(2) show ?thesis by (auto intro: findOrAllocate_body_kept)
  qed
qed simp

text \<open>
  C8. What is found is remembered: when the cache offers nothing for the service and the search succeeds, the peer returned is
  added to the cache, and then the next resolution of the service returns the same peer without touching the world. The one exception is a
  peer that was found but misses the soft requirement, while the request for a better instance, made last, failed: it is returned and the
  cache is left as it was.
\<close>
theorem findOrAllocate_remembers:
  assumes "cache_ok c" and "\<forall>y. (y, ContentHash info) \<notin> offered c"
    and "findOrAllocate E name info c w = Some ((pid, nil_error), c', w')"
  shows "AddPeer c (found_peer pid name info) = Some c' \<and>
      findOrAllocate E name info c' w2 = Some ((pid, nil_error), c', w2) \<or>
    c' = c \<and> (\<exists>v perf v1 x y e. FindService E (ContentHash info) v = ((pid, perf, nil_error), v1) \<and>
      LessThan E (NetworkSoftReq info) perf \<and> AllocBetterService E (DockerHash info) perf v1 = ((x, y, Some e), w'))"
proof -
  from pc.get_ok [OF assms(1), of "ContentHash info"] assms(2) obtain e where
    g: "GetPeer c (ContentHash info) = Some ([], Some e)" by auto
  with assms(3) have ne: "pid \<noteq> []"
    and r: "c' = c \<and> better_failed E info pid w' \<or> AddPeer c (found_peer pid name info) = Some c'"
    by (auto simp: findOrAllocate_def Let_def intro: findOrAllocate_loop_kept split: prod.splits if_splits Option.bind_splits)
  have "findOrAllocate E name info c' w2 = Some ((pid, nil_error), c', w2)"
    if "AddPeer c (found_peer pid name info) = Some c'"
  proof -
    from pc.get_after_add [OF assms(1) that] assms(2)
    have "GetPeer c' (ContentHash info) = Some (pid, nil_error)" by auto
    with ne show ?thesis by (simp add: findOrAllocate_def)
  qed
  with r show ?thesis unfolding better_failed_def by blast
qed

lemma demo_find_web: "FindService demo_proxy ''h-web'' w = ((''near'', \<lparr>RTT = 50\<rparr>, None), w)"
  by (simp add: FindService_def demo_proxy_def demo_lca_def demo_alloc_def LCAAllocatorRendezvous_def)

lemma New_miss: "GetPeer (fst (NewPeerCache None)) h = Some ([], Some ''No suitable peer found in cache'')"
  by (subst GetPeer_3) (auto simp: NewPeerCache_levels)

lemma New_offers_nothing: "y \<notin> offered (fst (NewPeerCache None))"
  by (simp add: offered_def NewPeerCache_levels)

text \<open>Witness of C8: the first resolution of \<open>web\<close> with a fresh cache.\<close>
theorem findOrAllocate_remembers_witness:
  "\<exists>c' w'. findOrAllocate demo_proxy ''web'' (demo_info ''web'') (fst (NewPeerCache None)) 0 = Some ((''near'', None), c', w') \<and>
     findOrAllocate demo_proxy ''web'' (demo_info ''web'') c' 77 = Some ((''near'', None), c', 77)"
proof -
  let ?c = "fst (NewPeerCache None)"
  obtain c' where a: "AddPeer ?c (found_peer ''near'' ''web'' (demo_info ''web'')) = Some c'"
    and o: "offered c' = insert (''near'', ''h-web'') (offered ?c)"
    using pc.add_ok [OF cache_ok_New, of None "found_peer ''near'' ''web'' (demo_info ''web'')"] by (auto simp: demo_info_def)
  then have "c' \<noteq> ?c" using New_offers_nothing [of "(''near'', ''h-web'')"] by auto
  have "findOrAllocate_loop demo_proxy ''h-web'' ''d-web'' \<lparr>RTT = 100\<rparr> 3 [] e w = Some ((''near'', None), w)" for e w
    by (simp add: numeral_3_eq_3 findOrAllocate_body_def demo_find_web)
      (simp add: demo_proxy_def demo_lca_def demo_ops_def)
  with a have r: "findOrAllocate demo_proxy ''web'' (demo_info ''web'') ?c 0 =
      Some ((''near'', None), c', snd (Now demo_proxy (snd (Now demo_proxy 0))))"
    by (simp add: findOrAllocate_def New_miss demo_info_def split_def)
  have "\<forall>y. (y, ContentHash (demo_info ''web'')) \<notin> offered ?c" by (simp add: New_offers_nothing)
  from findOrAllocate_remembers [OF cache_ok_New this r, of 77] r \<open>c' \<noteq> ?c\<close> show ?thesis by blast
qed

text \<open>
  What a first search that finds a peer leads to: with a cache miss and \<open>FindService\<close> returning a peer, that very peer is returned in all
  cases. If it meets the soft requirement it is cached. If not, a better instance is requested from the allocators, and the peer is cached
  exactly when that request succeeded, although it is the old peer, not the new instance.
\<close>
theorem findOrAllocate_found:
  assumes "cache_ok c" and "\<forall>y. (y, ContentHash info) \<notin> offered c"
    and "FindService E (ContentHash info) (snd (Now E w)) = ((pid, perf, nil_error), w1)" and "pid \<noteq> []"
    and "AddPeer c (found_peer pid name info) = Some c1"
    and "AllocBetterService E (DockerHash info) perf w1 = ((pid2, perf2, err2), w2)"
  shows "findOrAllocate E name info c w = Some ((pid, nil_error),
    (if LessThan E (NetworkSoftReq info) perf
     then (if err2 = nil_error then (c1, snd (Now E w2)) else (c, w2))
     else (c1, snd (Now E w1))))"
proof -
  from pc.get_ok [OF assms(1), of "ContentHash info"] assms(2) obtain e where
    g: "GetPeer c (ContentHash info) = Some ([], Some e)" by auto
  with assms(3-) show ?thesis
    by (simp add: findOrAllocate_def numeral_3_eq_3 findOrAllocate_body_def split_def)
qed

text \<open>An instance: the near peer for \<open>web\<close>.\<close>
theorem findOrAllocate_found_witness:
  "\<exists>c1. findOrAllocate demo_proxy ''web'' (demo_info ''web'') (fst (NewPeerCache None)) 0 =
     Some ((''near'', None), c1, 2000000)"
proof -
  let ?c = "fst (NewPeerCache None)"
  have n: "\<forall>y. (y, ContentHash (demo_info ''web'')) \<notin> offered ?c" by (simp add: New_offers_nothing)
  have f: "FindService demo_proxy (ContentHash (demo_info ''web'')) (snd (Now demo_proxy 0)) =
      ((''near'', \<lparr>RTT = 50\<rparr>, None), snd (Now demo_proxy 0))"
    by (simp add: demo_info_def demo_find_web)
  obtain c1 where a: "AddPeer ?c (found_peer ''near'' ''web'' (demo_info ''web'')) = Some c1"
    using pc.add_ok [OF cache_ok_New] by blast
  obtain p2 f2 e2 w2 where
    b: "AllocBetterService demo_proxy (DockerHash (demo_info ''web'')) \<lparr>RTT = 50\<rparr> (snd (Now demo_proxy 0)) = ((p2, f2, e2), w2)"
    by (metis prod.exhaust)
  from findOrAllocate_found [OF cache_ok_New n f _ a b] show ?thesis
    by (simp add: demo_info_def demo_proxy_def demo_lca_def demo_ops_def)
qed

lemma resolveService_total:
  assumes "rcache_reach E rc" and "cache_ok c" and "bounded_backoff E left"
  shows "\<exists>pid info err rc' c' w'. resolveService E name rc c w = Some ((pid, info, err), rc', c', w') \<and>
    rcache_reach E rc' \<and> cache_ok c' \<and> (err = nil_error \<longleftrightarrow> pid \<noteq> []) \<and>
    (err = nil_error \<longrightarrow> registry_said E name info) \<and>
    (snd (fst (GetOrRequestService E rc name w)) \<noteq> nil_error \<longrightarrow> err \<noteq> nil_error \<and> c' = c)"
proof -
  obtain info err rc' w1 where g: "GetOrRequestService E rc name w = ((info, err), rc', w1)"
    by (metis prod.exhaust)
  then have reach: "rcache_reach E rc'" using rcache_reach.request [OF assms(1), of name w] by simp
  obtain pid err2 c' w2 where f: "findOrAllocate E name info c w1 = Some ((pid, err2), c', w2)" "cache_ok c'"
      "err2 = nil_error \<longleftrightarrow> pid \<noteq> []"
    using findOrAllocate_total [OF assms(2,3)] by blast
  show ?thesis
  proof (cases err)
    case None
    with g have "registry_said E name info" using rcache_answers_said [OF assms(1)] by blast
    with g f reach None show ?thesis by (cases err2) (auto simp: resolveService_def)
  next
    case (Some e)
    with g reach assms(2) show ?thesis by (auto simp: resolveService_def)
  qed
qed

text \<open>
  C6. Resolving a service name end to end: with a registry cache reached by its operations and a well-formed peer cache, \<open>resolveService\<close> returns;
  if there is no error, there is a peer and the information returned is an answer the registry gave for that name; if there is an error there
  is no peer, and when the name lookup failed the peer cache was not consulted at all.
\<close>
theorem resolveService_outcome:
  assumes "rcache_reach E rc" and "cache_ok c" and "bounded_backoff E left"
  shows "\<exists>pid info err rc' c' w'. resolveService E name rc c w = Some ((pid, info, err), rc', c', w') \<and>
    rcache_reach E rc' \<and> cache_ok c' \<and> (err = nil_error \<longleftrightarrow> pid \<noteq> []) \<and>
    (err = nil_error \<longrightarrow> registry_said E name info) \<and>
    (snd (fst (GetOrRequestService E rc name w)) \<noteq> nil_error \<longrightarrow> err \<noteq> nil_error \<and> c' = c)"
  using assms by (rule resolveService_total)

text \<open>Witness of C6: an unknown service.\<close>
theorem resolveService_outcome_witness:
  "\<exists>pid info err rc' c' w'.
     resolveService demo_proxy ''nosuch'' (NewRegistryCache 3600) demo_cache 0 = Some ((pid, info, err), rc', c', w') \<and>
     err \<noteq> nil_error \<and> pid = [] \<and> c' = demo_cache"
proof -
  have "snd (fst (GetOrRequestService demo_proxy (NewRegistryCache 3600) ''nosuch'' 0)) \<noteq> nil_error"
    by (simp add: GetOrRequestService_def Get_def NewRegistryCache_def demo_proxy_def demo_lca_def demo_ops_def)
  with resolveService_outcome [OF rcache_reach.new [of demo_proxy 3600] demo_cache_ok demo_bounded, of "''nosuch''" 0]
  show ?thesis by (auto simp del: split_paired_Ex)
qed

lemma TrimPrefix_slash: "TrimPrefix (''/'' @ s) ''/'' = s"
  by (simp add: TrimPrefix_def HasPrefix_def)

lemma TrimSuffix_last: "TrimSuffix s [c] = (if s \<noteq> [] \<and> last s = c then butlast s else s)"
  by (cases s rule: rev_cases) (auto simp: TrimSuffix_def HasSuffix_def)

lemma last_Join: "ts \<noteq> [] \<Longrightarrow> last ts \<noteq> [] \<Longrightarrow> Join sep ts \<noteq> [] \<and> last (Join sep ts) = last (last ts)"
  by (induction sep ts rule: Join.induct) auto

text \<open>
  \<open>splitURIPath\<close> inverts the path syntax of a chain request: for components without slashes, of which the first and the last are not empty, the
  path \<open>/c1/.../cn\<close>, with or without the trailing slash, is split into exactly these components. The result never contains a
  slash, and a path without components gives the empty list.
\<close>
theorem splitURIPath_roundtrip:
  assumes "cs \<noteq> []" and "\<forall>c \<in> set cs. CHR ''/'' \<notin> set c" and "hd cs \<noteq> []" and "last cs \<noteq> []"
  shows "splitURIPath (''/'' @ Join ''/'' cs) = cs \<and> splitURIPath (''/'' @ Join ''/'' cs @ ''/'') = cs \<and>
    (\<forall>path. \<forall>t \<in> set (splitURIPath path). CHR ''/'' \<notin> set t) \<and> splitURIPath ''/'' = [] \<and> splitURIPath [] = []"
proof -
  have split: "Split CHR ''/'' (Join ''/'' cs) = cs" using Split_Join [OF assms(1,2)] .
  from assms(4) have "last (last cs) \<in> set (last cs)" by simp
  with assms(1,2) have "last (last cs) \<noteq> CHR ''/''" by (metis last_in_set)
  with last_Join [OF assms(1,4), of "''/''"] have "TrimSuffix (Join ''/'' cs) ''/'' = Join ''/'' cs"
    by (simp add: TrimSuffix_last)
  then have "splitURIPath (''/'' @ Join ''/'' cs) = cs"
    by (simp only: splitURIPath_def Let_def TrimPrefix_slash split assms(3) if_False)
  moreover have "splitURIPath (''/'' @ Join ''/'' cs @ ''/'') = cs"
    by (simp only: splitURIPath_def Let_def TrimPrefix_slash TrimSuffix_append split assms(3) if_False)
  moreover have "CHR ''/'' \<notin> set t" if "t \<in> set (splitURIPath path)" for path t
    using that by (auto simp: splitURIPath_def Let_def dest: Split_no_sep split: if_splits)
  moreover have "splitURIPath ''/'' = []" "splitURIPath [] = []" by code_simp+
  ultimately show ?thesis by blast
qed

text \<open>An instance: a chain of two services over TCP.\<close>
theorem splitURIPath_roundtrip_witness:
  "splitURIPath ''/tcp/web/db'' = [''tcp'', ''web'', ''db'']"
  using splitURIPath_roundtrip [of "[''tcp'', ''web'', ''db'']"] by simp

end
