(* ===== verification/Chain_Msg.thy ===== *)
theory Chain_Msg
  imports Resolve
begin

text \<open>
  The message protocol of service chains (first part of \<open>src/l4-proxy/chain-setup.go\<close>): typed messages, encoding and decoding of their payload, and the
  functions that send and receive them. A communicator is identified with its stream: sending and receiving one framed, gob-encoded
  message are operations of the world.
\<close>

section \<open>Messages\<close>

text \<open>\<open>ChainMsgType\<close> is an integer type: a message received may carry any value.\<close>

type_synonym ChainMsgType = int

definition MsgError :: ChainMsgType where "MsgError = 0"
definition SetupRequest :: ChainMsgType where "SetupRequest = 1"
definition SetupACK :: ChainMsgType where "SetupACK = 2"
definition MsgData :: ChainMsgType where "MsgData = 3"

lemmas msg_types = MsgError_def SetupRequest_def SetupACK_def MsgData_def

definition REV_CHAIN_MSG_PREFIX :: string where
  "REV_CHAIN_MSG_PREFIX = ''Reverse chain: ''"

definition ChainMsgType_String :: "ChainMsgType \<Rightarrow> string" where
  "ChainMsgType_String t =
     (if t = MsgError then ''Error''
      else if t = SetupRequest then ''SetupRequest''
      else if t = SetupACK then ''SetupACK''
      else if t = MsgData then ''Data''
      else Itoa t)"

record ChainMsg =
  mType :: ChainMsgType
  mData :: string

text \<open>The dynamic types that occur behind \<open>interface{}\<close>: an error (with its text), a string, a slice of strings, a slice of bytes.\<close>

datatype go_value = ErrV string | StrV string | StringsV "string list" | BytesV string

fun go_type :: "go_value option \<Rightarrow> string" where
  "go_type None = ''<nil>''"
| "go_type (Some (ErrV _)) = ''*errors.errorString''"
| "go_type (Some (StrV _)) = ''string''"
| "go_type (Some (StringsV _)) = ''[]string''"
| "go_type (Some (BytesV _)) = ''[]uint8''"

text \<open>
  The \<open>encoding/gob\<close> codec for a slice of strings (\<open>GobDecode\<close> is the slice after \<open>Decode\<close>, whose error the code ignores), the text \<open>fmt.Errorf\<close>
  makes of a format without operands, and sending and receiving one message.
\<close>

record 'w msg_ops = "'w proxy_ops" +
  GobEncode :: "string list \<Rightarrow> string"
  GobDecode :: "string \<Rightarrow> string list"
  ErrorfText :: "string \<Rightarrow> string"
  MsgSend :: "stream \<Rightarrow> ChainMsg \<Rightarrow> 'w \<Rightarrow> error option \<times> 'w"
  MsgRecv :: "stream \<Rightarrow> 'w \<Rightarrow> (ChainMsg \<times> error option) \<times> 'w"

text \<open>Documented behaviour: gob decodes what it encoded, and a format without a percent sign stands for itself.\<close>

definition gob_roundtrip :: "('w, 'z) msg_ops_scheme \<Rightarrow> bool" where
  "gob_roundtrip E \<longleftrightarrow> (\<forall>xs. GobDecode E (GobEncode E xs) = xs)"

definition plain_formats :: "('w, 'z) msg_ops_scheme \<Rightarrow> bool" where
  "plain_formats E \<longleftrightarrow> (\<forall>s. CHR ''%'' \<notin> set s \<longrightarrow> ErrorfText E s = s)"

definition quoted :: "string \<Rightarrow> string" where
  "quoted s = [CHR 0x27] @ s @ [CHR 0x27]"

section \<open>Encoding and decoding payloads\<close>

text \<open>\<open>EncodeChainData\<close> sets the payload of a message in place; with an error the message is left as it was.\<close>

definition EncodeChainData :: "('w, 'z) msg_ops_scheme \<Rightarrow> ChainMsg \<Rightarrow> go_value \<Rightarrow> ChainMsg \<times> error option" where
  "EncodeChainData E msg obj =
     (if mType msg = MsgError then
        (case obj of
           ErrV s \<Rightarrow> (msg\<lparr>mData := s\<rparr>, nil_error)
         | StrV s \<Rightarrow> (msg\<lparr>mData := s\<rparr>, nil_error)
         | _ \<Rightarrow> (msg, Some (''ChainMsg type '' @ ChainMsgType_String (mType msg) @
                   '' can only encode data of type '' @ quoted ''error'' @ '' or '' @ quoted ''string'')))
      else if mType msg = SetupRequest then
        (case obj of
           StringsV cs \<Rightarrow> (msg\<lparr>mData := GobEncode E cs\<rparr>, nil_error)
         | _ \<Rightarrow> (msg, Some (''ChainMsg type '' @ ChainMsgType_String (mType msg) @
                   '' can only encode data of type '' @ quoted ''[]string'')))
      else if mType msg = SetupACK then
        (case obj of
           StrV s \<Rightarrow> (msg\<lparr>mData := s\<rparr>, nil_error)
         | _ \<Rightarrow> (msg, Some (''ChainMsg type '' @ ChainMsgType_String (mType msg) @
                   '' can only encode data of type '' @ quoted ''string'')))
      else if mType msg = MsgData then
        (case obj of
           BytesV b \<Rightarrow> (msg\<lparr>mData := b\<rparr>, nil_error)
         | _ \<Rightarrow> (msg, Some (''ChainMsg type '' @ ChainMsgType_String (mType msg) @
                   '' can only encode data of type '' @ quoted ''[]byte'')))
      else (msg, Some (''Unknown chain message type: '' @ ChainMsgType_String (mType msg) @ [CHR 0x0A])))"

text \<open>
  \<open>DecodeChainData\<close>; the message pointer may be nil. The text of an error message is used as a format. (The format of the last case has a verb without
  an operand.)
\<close>

definition DecodeChainData :: "('w, 'z) msg_ops_scheme \<Rightarrow> ChainMsg option \<Rightarrow> go_value option \<times> error option" where
  "DecodeChainData E msg =
     (case msg of
        None \<Rightarrow> (None, Some (''ERROR: msg == nil'' @ [CHR 0x0A]))
      | Some m \<Rightarrow>
          if mType m = MsgError then (Some (ErrV (ErrorfText E (mData m))), nil_error)
          else if mType m = SetupRequest then (Some (StringsV (GobDecode E (mData m))), nil_error)
          else if mType m = SetupACK then (Some (StrV (mData m)), nil_error)
          else if mType m = MsgData then (Some (BytesV (mData m)), nil_error)
          else (None, Some (''ERROR: Unknown chain message type: %!d(MISSING)'' @ [CHR 0x0A])))"

section \<open>Constructors\<close>

definition NewChainError :: "('w, 'z) msg_ops_scheme \<Rightarrow> error \<Rightarrow> ChainMsg" where
  "NewChainError E err = fst (EncodeChainData E \<lparr>mType = MsgError, mData = ''''\<rparr> (StrV err))"

text \<open>A nil pointer when the encoding fails.\<close>

definition NewChainSetupRequest :: "('w, 'z) msg_ops_scheme \<Rightarrow> string list \<Rightarrow> ChainMsg option" where
  "NewChainSetupRequest E chainSpec =
     (let (msg, err) = EncodeChainData E \<lparr>mType = SetupRequest, mData = ''''\<rparr> (StringsV chainSpec)
      in if err \<noteq> nil_error then None else Some msg)"

definition NewChainSetupACK :: "('w, 'z) msg_ops_scheme \<Rightarrow> string \<Rightarrow> ChainMsg" where
  "NewChainSetupACK E debug = fst (EncodeChainData E \<lparr>mType = SetupACK, mData = ''''\<rparr> (StrV debug))"

definition NewChainData :: "('w, 'z) msg_ops_scheme \<Rightarrow> string \<Rightarrow> ChainMsg" where
  "NewChainData E dat = fst (EncodeChainData E \<lparr>mType = MsgData, mData = ''''\<rparr> (BytesV dat))"

text \<open>Only the answer; what the function logs is not modelled.\<close>

definition expectTypePrintErr :: "ChainMsg \<Rightarrow> ChainMsgType \<Rightarrow> bool" where
  "expectTypePrintErr cm ct \<longleftrightarrow> mType cm = ct"

section \<open>Sending and receiving\<close>

definition send_failed :: "ChainMsgType \<Rightarrow> error \<Rightarrow> error" where
  "send_failed t err = ''Attempt to send '' @ ChainMsgType_String t @ '' message failed'' @ [CHR 0x0A] @ err @ [CHR 0x0A]"

definition sendError :: "('w, 'z) msg_ops_scheme \<Rightarrow> stream \<Rightarrow> error \<Rightarrow> 'w \<Rightarrow> error option \<times> 'w" where
  "sendError E cmsr err w =
     (let errMsg = NewChainError E err; (err2, w1) = MsgSend E cmsr errMsg w
      in (if err2 \<noteq> nil_error then Some (send_failed (mType errMsg) (the err2)) else nil_error, w1))"

text \<open>\<open>None\<close> is the panic of sending a nil message.\<close>

definition sendSetupRequest :: "('w, 'z) msg_ops_scheme \<Rightarrow> stream \<Rightarrow> string list \<Rightarrow> 'w \<Rightarrow> (error option \<times> 'w) option" where
  "sendSetupRequest E cmsr chainSpec w =
     do {
       setupMsg \<leftarrow> NewChainSetupRequest E chainSpec;
       let (err, w1) = MsgSend E cmsr setupMsg w;
       Some (if err \<noteq> nil_error then Some (send_failed (mType setupMsg) (the err)) else nil_error, w1)
     }"

definition sendSetupACK :: "('w, 'z) msg_ops_scheme \<Rightarrow> stream \<Rightarrow> string \<Rightarrow> 'w \<Rightarrow> error option \<times> 'w" where
  "sendSetupACK E cmsr debug w =
     (let resMsg = NewChainSetupACK E debug; (err, w1) = MsgSend E cmsr resMsg w
      in (if err \<noteq> nil_error then Some (send_failed (mType resMsg) (the err)) else nil_error, w1))"

definition sendData :: "('w, 'z) msg_ops_scheme \<Rightarrow> stream \<Rightarrow> string \<Rightarrow> 'w \<Rightarrow> error option \<times> 'w" where
  "sendData E cmsr dat w =
     (let dataMsg = NewChainData E dat; (err, w1) = MsgSend E cmsr dataMsg w
      in (if err \<noteq> nil_error then Some (send_failed (mType dataMsg) (the err)) else nil_error, w1))"

definition recv_failed :: "error \<Rightarrow> error" where
  "recv_failed err = ''Unable to receive chain message'' @ [CHR 0x0A] @ err @ [CHR 0x0A]"

definition not_type :: "ChainMsgType \<Rightarrow> error" where
  "not_type t = ''Received ChainMsg was not type '' @ ChainMsgType_String t @ [CHR 0x0A]"

definition decode_failed :: "error \<Rightarrow> error" where
  "decode_failed err = ''Unable to decode chain message'' @ [CHR 0x0A] @ err @ [CHR 0x0A]"

definition wrong_payload :: "ChainMsgType \<Rightarrow> string \<Rightarrow> go_value option \<Rightarrow> error" where
  "wrong_payload t expected v = ''Expected data in '' @ ChainMsgType_String t @ '' message to be type '' @ quoted expected @
     '', but was type '' @ quoted (go_type v) @ [CHR 0x0A]"

definition receiveSetupRequest :: "('w, 'z) msg_ops_scheme \<Rightarrow> stream \<Rightarrow> 'w \<Rightarrow> (string list \<times> error option) \<times> 'w" where
  "receiveSetupRequest E cmsr w =
     (let ((msg, err), w1) = MsgRecv E cmsr w
      in if err \<noteq> nil_error then (([], Some (recv_failed (the err))), w1)
         else if \<not> expectTypePrintErr msg SetupRequest then (([], Some (not_type SetupRequest)), w1)
         else
           (let (msgData, err2) = DecodeChainData E (Some msg)
            in if err2 \<noteq> nil_error then (([], Some (decode_failed (the err2))), w1)
               else
                 (case msgData of
                    Some (StringsV chainSpec) \<Rightarrow> ((chainSpec, nil_error), w1)
                  | _ \<Rightarrow> (([], Some (wrong_payload (mType msg) ''[]string'' msgData)), w1))))"

definition receiveSetupACK :: "('w, 'z) msg_ops_scheme \<Rightarrow> stream \<Rightarrow> 'w \<Rightarrow> (string \<times> error option) \<times> 'w" where
  "receiveSetupACK E cmsr w =
     (let ((msg, err), w1) = MsgRecv E cmsr w
      in if err \<noteq> nil_error then (('''', Some (recv_failed (the err))), w1)
         else if \<not> expectTypePrintErr msg SetupACK then (('''', Some (not_type SetupACK)), w1)
         else
           (let (msgData, err2) = DecodeChainData E (Some msg)
            in if err2 \<noteq> nil_error then (('''', Some (decode_failed (the err2))), w1)
               else
                 (case msgData of
                    Some (StrV debugStr) \<Rightarrow> ((debugStr, nil_error), w1)
                  | _ \<Rightarrow> (('''', Some (wrong_payload (mType msg) ''[]string'' msgData)), w1))))"

text \<open>The error for a message of another type names \<open>SetupACK\<close> here too.\<close>

definition receiveData :: "('w, 'z) msg_ops_scheme \<Rightarrow> stream \<Rightarrow> 'w \<Rightarrow> (string \<times> error option) \<times> 'w" where
  "receiveData E cmsr w =
     (let ((msg, err), w1) = MsgRecv E cmsr w
      in if err \<noteq> nil_error then (('''', Some (recv_failed (the err))), w1)
         else if \<not> expectTypePrintErr msg MsgData then (('''', Some (not_type SetupACK)), w1)
         else
           (let (msgData, err2) = DecodeChainData E (Some msg)
            in if err2 \<noteq> nil_error then (('''', Some (decode_failed (the err2))), w1)
               else
                 (case msgData of
                    Some (BytesV msgBytes) \<Rightarrow> ((msgBytes, nil_error), w1)
                  | _ \<Rightarrow> (('''', Some (wrong_payload (mType msg) ''[]byte'' msgData)), w1))))"

section \<open>The contract of a receiver\<close>

text \<open>
  The three receive functions have one contract: they take one message from the stream, accept it exactly when its type is the expected one, and return the
  decoded payload; every other message gives an error and no payload.
\<close>

locale typed_receiver =
  fixes raw :: "stream \<Rightarrow> 'w \<Rightarrow> (ChainMsg \<times> error option) \<times> 'w"
    and rcv :: "stream \<Rightarrow> 'w \<Rightarrow> ('a \<times> error option) \<times> 'w"
    and ty :: ChainMsgType
    and payload :: "string \<Rightarrow> 'a"
    and none :: 'a
    and refusal :: error
  assumes lost: "raw s w = ((m, Some e), w') \<Longrightarrow> rcv s w = ((none, Some (recv_failed e)), w')"
    and accepts: "raw s w = ((m, nil_error), w') \<Longrightarrow> mType m = ty \<Longrightarrow> rcv s w = ((payload (mData m), nil_error), w')"
    and refuses: "raw s w = ((m, nil_error), w') \<Longrightarrow> mType m \<noteq> ty \<Longrightarrow> rcv s w = ((none, Some refusal), w')"
begin

lemma received_iff:
  "rcv s w = ((x, nil_error), w') \<longleftrightarrow> (\<exists>d. raw s w = ((\<lparr>mType = ty, mData = d\<rparr>, nil_error), w') \<and> x = payload d)"
proof -
  obtain m e w1 where r: "raw s w = ((m, e), w1)" by (metis prod.exhaust)
  show ?thesis
  proof (cases "e = nil_error \<and> mType m = ty")
    case True
    with accepts [of s w m w1] r show ?thesis by (cases m) auto
  next
    case False
    with lost [of s w m _ w1] refuses [of s w m w1] r show ?thesis by (cases m; cases e) auto
  qed
qed

lemma error_no_payload: "rcv s w = ((x, Some e), w') \<Longrightarrow> x = none"
  using lost accepts refuses by (cases "raw s w") (metis (no_types, lifting) Pair_inject not_Some_eq prod.exhaust)

lemma one_message: "snd (rcv s w) = snd (raw s w)"
  using lost accepts refuses by (cases "raw s w") (metis not_Some_eq prod.exhaust snd_conv)

end

lemmas receive_defs = DecodeChainData_def expectTypePrintErr_def msg_types

interpretation req: typed_receiver "MsgRecv E" "receiveSetupRequest E" SetupRequest "GobDecode E" "[]" "not_type SetupRequest"
  for E :: "('w, 'z) msg_ops_scheme"
  by unfold_locales (simp_all add: receiveSetupRequest_def receive_defs)

interpretation ack: typed_receiver "MsgRecv E" "receiveSetupACK E" SetupACK "\<lambda>d. d" "[]" "not_type SetupACK"
  for E :: "('w, 'z) msg_ops_scheme"
  by unfold_locales (simp_all add: receiveSetupACK_def receive_defs)

interpretation dat: typed_receiver "MsgRecv E" "receiveData E" MsgData "\<lambda>d. d" "[]" "not_type SetupACK"
  for E :: "('w, 'z) msg_ops_scheme"
  by unfold_locales (simp_all add: receiveData_def receive_defs)

section \<open>What is sent\<close>

lemma NewChainSetupRequest_eq [simp]: "NewChainSetupRequest E cs = Some \<lparr>mType = SetupRequest, mData = GobEncode E cs\<rparr>"
  by (simp add: NewChainSetupRequest_def EncodeChainData_def msg_types)

lemma NewChainSetupACK_eq [simp]: "NewChainSetupACK E d = \<lparr>mType = SetupACK, mData = d\<rparr>"
  by (simp add: NewChainSetupACK_def EncodeChainData_def msg_types)

lemma NewChainData_eq [simp]: "NewChainData E d = \<lparr>mType = MsgData, mData = d\<rparr>"
  by (simp add: NewChainData_def EncodeChainData_def msg_types)

lemma NewChainError_eq [simp]: "NewChainError E e = \<lparr>mType = MsgError, mData = e\<rparr>"
  by (simp add: NewChainError_def EncodeChainData_def msg_types)

lemma sendData_eq [send_simps]:
  "MsgSend E s \<lparr>mType = MsgData, mData = d\<rparr> w = (e, w') \<Longrightarrow> sendData E s d w = (map_option (send_failed MsgData) e, w')"
  by (cases e) (simp_all add: sendData_def)

lemma sendSetupACK_eq [send_simps]:
  "MsgSend E s \<lparr>mType = SetupACK, mData = d\<rparr> w = (e, w') \<Longrightarrow> sendSetupACK E s d w = (map_option (send_failed SetupACK) e, w')"
  by (cases e) (simp_all add: sendSetupACK_def)

lemma sendSetupRequest_eq [send_simps]:
  "MsgSend E s \<lparr>mType = SetupRequest, mData = GobEncode E cs\<rparr> w = (e, w') \<Longrightarrow>
     sendSetupRequest E s cs w = Some (map_option (send_failed SetupRequest) e, w')"
  by (cases e) (simp_all add: sendSetupRequest_def)

section \<open>A concrete world\<close>

text \<open>
  The world of \<open>demo_proxy\<close>, with messages received from stream 5 that are a request, from stream 6 an acknowledgement, and from other streams an
  error. A slice of strings is encoded by putting a dot before each character and a semicolon after each string.
\<close>

definition demo_gob_encode :: "string list \<Rightarrow> string" where
  "demo_gob_encode xs = concat (map (\<lambda>x. concat (map (\<lambda>c. [CHR ''.'', c]) x) @ '';'') xs)"

fun demo_gob_decode :: "string \<Rightarrow> string \<Rightarrow> string list" where
  "demo_gob_decode acc (d # c # s) =
     (if d = CHR ''.'' then demo_gob_decode (acc @ [c]) s else acc # demo_gob_decode [] (c # s))"
| "demo_gob_decode acc [d] = (if d = CHR '';'' then [acc] else [])"
| "demo_gob_decode acc [] = []"

lemma demo_gob_decode_item:
  "demo_gob_decode acc (concat (map (\<lambda>c. [CHR ''.'', c]) x) @ CHR '';'' # s) = (acc @ x) # demo_gob_decode [] s"
proof (induction x arbitrary: acc)
  case Nil
  then show ?case by (cases s) auto
qed simp

lemma demo_gob_roundtrip: "demo_gob_decode [] (demo_gob_encode xs) = xs"
  by (induction xs) (simp_all add: demo_gob_encode_def demo_gob_decode_item)

definition demo_msg :: "int msg_ops" where
  "demo_msg = proxy_ops.extend (proxy_ops.truncate demo_proxy) (msg_ops.fields demo_gob_encode (demo_gob_decode []) (\<lambda>s. s)
     (\<lambda>s m w. (None, w))
     (\<lambda>s w. ((if s = 5 then \<lparr>mType = SetupRequest, mData = demo_gob_encode [''tcp'', ''web'']\<rparr>
              else if s = 6 then \<lparr>mType = SetupACK, mData = REV_CHAIN_MSG_PREFIX @ ''web''\<rparr>
              else \<lparr>mType = MsgError, mData = ''down''\<rparr>, None), w)))"

lemma demo_msg_laws: "gob_roundtrip demo_msg" "plain_formats demo_msg"
  by (simp_all add: gob_roundtrip_def plain_formats_def demo_msg_def proxy_ops.defs msg_ops.defs demo_gob_roundtrip)

section \<open>Properties\<close>

text \<open>
  C33. Payloads survive the wire: \<open>EncodeChainData\<close> accepts exactly the values that belong to the message's type and otherwise reports an error and leaves the
  message as it was; and decoding what was encoded gives the value back, for all four types (a string sent in an error message comes back as an
  error with that text, provided the text has no percent sign).
\<close>
theorem chain_payload_roundtrip:
  assumes "gob_roundtrip E" and "plain_formats E" and "EncodeChainData E m v = (m', err)"
    and "\<And>s. mType m = MsgError \<Longrightarrow> v = ErrV s \<or> v = StrV s \<Longrightarrow> CHR ''%'' \<notin> set s"
  shows "mType m' = mType m \<and>
    (err = nil_error \<longleftrightarrow>
       (case v of ErrV _ \<Rightarrow> mType m = MsgError | StrV _ \<Rightarrow> mType m = MsgError \<or> mType m = SetupACK
        | StringsV _ \<Rightarrow> mType m = SetupRequest | BytesV _ \<Rightarrow> mType m = MsgData)) \<and>
    (err \<noteq> nil_error \<longrightarrow> m' = m) \<and>
    (err = nil_error \<longrightarrow> DecodeChainData E (Some m') =
       (Some (case v of StrV s \<Rightarrow> (if mType m = MsgError then ErrV s else v) | _ \<Rightarrow> v), nil_error))"
  using assms
  by (cases v; cases "mType m = MsgError"; cases "mType m = SetupRequest"; cases "mType m = SetupACK"; cases "mType m = MsgData")
    (auto simp: EncodeChainData_def DecodeChainData_def gob_roundtrip_def plain_formats_def msg_types)

text \<open>Witness of C33: a chain specification.\<close>
theorem chain_payload_roundtrip_witness:
  "DecodeChainData demo_msg (Some (fst (EncodeChainData demo_msg \<lparr>mType = SetupRequest, mData = []\<rparr> (StringsV [''tcp'', ''web''])))) =
     (Some (StringsV [''tcp'', ''web'']), None)"
proof -
  have e: "EncodeChainData demo_msg \<lparr>mType = SetupRequest, mData = []\<rparr> (StringsV [''tcp'', ''web'']) =
      (\<lparr>mType = SetupRequest, mData = GobEncode demo_msg [''tcp'', ''web'']\<rparr>, None)"
    by (simp add: EncodeChainData_def msg_types)
  show ?thesis unfolding e using chain_payload_roundtrip [OF demo_msg_laws e] by (simp add: msg_types)
qed

text \<open>
  C34. No message is taken for another: each receive function takes one message off the stream and succeeds exactly when a message of its own type arrived,
  returning that message's payload; on a message of any other type, known or unknown, or on a failure of the stream, it returns an error and no payload.
\<close>
theorem receivers_check_type:
  "(receiveSetupRequest E s w = ((cs, nil_error), w') \<longleftrightarrow>
      (\<exists>d. MsgRecv E s w = ((\<lparr>mType = SetupRequest, mData = d\<rparr>, nil_error), w') \<and> cs = GobDecode E d)) \<and>
   (receiveSetupACK E s w = ((t, nil_error), w') \<longleftrightarrow> MsgRecv E s w = ((\<lparr>mType = SetupACK, mData = t\<rparr>, nil_error), w')) \<and>
   (receiveData E s w = ((b, nil_error), w') \<longleftrightarrow> MsgRecv E s w = ((\<lparr>mType = MsgData, mData = b\<rparr>, nil_error), w')) \<and>
   snd (receiveSetupRequest E s w) = snd (MsgRecv E s w) \<and> snd (receiveSetupACK E s w) = snd (MsgRecv E s w) \<and>
   snd (receiveData E s w) = snd (MsgRecv E s w) \<and>
   (snd (fst (receiveSetupRequest E s w)) = nil_error \<or> fst (fst (receiveSetupRequest E s w)) = []) \<and>
   (snd (fst (receiveSetupACK E s w)) = nil_error \<or> fst (fst (receiveSetupACK E s w)) = []) \<and>
   (snd (fst (receiveData E s w)) = nil_error \<or> fst (fst (receiveData E s w)) = [])"
proof -
  have "e = nil_error \<or> x = []" if "receiveSetupRequest E s w = ((x, e), w1)" for x e w1
    using req.error_no_payload that by (cases e) auto
  moreover have "e = nil_error \<or> x = []" if "receiveSetupACK E s w = ((x, e), w1)" for x e w1
    using ack.error_no_payload that by (cases e) auto
  moreover have "e = nil_error \<or> x = []" if "receiveData E s w = ((x, e), w1)" for x e w1
    using dat.error_no_payload that by (cases e) auto
  ultimately show ?thesis
    by (simp add: req.received_iff ack.received_iff dat.received_iff req.one_message ack.one_message dat.one_message)
      (metis prod.collapse)
qed

end
