(* ===== verification/Tunnel.thy ===== *)
theory Tunnel
  imports Chain_Msg
begin

text \<open>
  Moving data: the forwarders between streams and TCP or UDP connections (\<open>src/l4-proxy/tcp-proxy.go\<close>, \<open>src/l4-proxy/udp-proxy.go\<close>, \<open>fwdStream2Stream\<close> of
  \<open>src/l4-proxy/chain-setup.go\<close>) and the handlers that start them at the end and in the middle of a chain. A forwarder runs until its source or its sink fails; its
  loop is a partial function, and \<open>None\<close> means that it does not end.
\<close>

section \<open>Operations of the world\<close>

type_synonym conn = nat
type_synonym addr = string

text \<open>
  Network connections (\<open>Read\<close> into a buffer of a given size, giving the bytes read; \<open>Write\<close> and \<open>UDPConn.WriteTo\<close>, giving the number of bytes written; \<open>Close\<close>), address
  resolution and dialling, and \<open>Stream.SetProtocol\<close>.
\<close>

record 'w tunnel_ops = "'w msg_ops" +
  ConnRead :: "conn \<Rightarrow> nat \<Rightarrow> 'w \<Rightarrow> (string \<times> error option) \<times> 'w"
  ConnWrite :: "conn \<Rightarrow> string \<Rightarrow> 'w \<Rightarrow> (int \<times> error option) \<times> 'w"
  WriteTo :: "conn \<Rightarrow> string \<Rightarrow> addr \<Rightarrow> 'w \<Rightarrow> (int \<times> error option) \<times> 'w"
  ConnClose :: "conn \<Rightarrow> 'w \<Rightarrow> 'w"
  ResolveTCPAddr :: "string \<Rightarrow> 'w \<Rightarrow> (addr \<times> error option) \<times> 'w"
  DialTCP :: "addr \<Rightarrow> 'w \<Rightarrow> (conn \<times> error option) \<times> 'w"
  ResolveUDPAddr :: "string \<Rightarrow> 'w \<Rightarrow> (addr \<times> error option) \<times> 'w"
  DialUDP :: "addr \<Rightarrow> 'w \<Rightarrow> (conn \<times> error option) \<times> 'w"
  SetProtocol :: "stream \<Rightarrow> protocol_id \<Rightarrow> 'w \<Rightarrow> 'w"

definition tcpTunnelProtoID :: protocol_id where
  "tcpTunnelProtoID = ''/LCATunnelTCP/1.0''"

definition udpTunnelProtoID :: protocol_id where
  "udpTunnelProtoID = ''/LCATunnelUDP/1.0''"

definition MAX_TCP_TUNNEL_PAYLOAD :: nat where
  "MAX_TCP_TUNNEL_PAYLOAD = 0xffff - 20 - 20"

definition MAX_UDP_TUNNEL_PAYLOAD :: nat where
  "MAX_UDP_TUNNEL_PAYLOAD = 0xffff - 8 - 20"

section \<open>TCP forwarders\<close>

text \<open>The inner loop of the forwarders to a connection: write the whole of \<open>data\<close> until \<open>nBytes\<close> bytes have been accepted in total.\<close>

partial_function (option) write_loop :: "(string \<Rightarrow> 'w \<Rightarrow> (int \<times> error option) \<times> 'w) \<Rightarrow> string \<Rightarrow> int \<Rightarrow> 'w
    \<Rightarrow> (error option \<times> 'w) option" where
  [code]: "write_loop wr dat nBytesW w =
     (if nBytesW < int (length dat) then
        (case wr dat w of
           ((n, err), w1) \<Rightarrow>
             if err \<noteq> nil_error then Some (err, w1) else write_loop wr dat (nBytesW + n) w1)
      else Some (nil_error, w))"

partial_function (option) tcpFwdStream2Conn_loop :: "('w, 'z) tunnel_ops_scheme \<Rightarrow> stream \<Rightarrow> conn \<Rightarrow> 'w \<Rightarrow> 'w option" where
  [code]: "tcpFwdStream2Conn_loop E src dst w =
     (case receiveData E src w of
        ((dat, err), w1) \<Rightarrow>
          if err \<noteq> nil_error then Some w1
          else
            Option.bind (write_loop (ConnWrite E dst) dat 0 w1) (\<lambda>(err2, w2).
              if err2 \<noteq> nil_error then Some w2 else tcpFwdStream2Conn_loop E src dst w2))"

definition tcpFwdStream2Conn :: "('w, 'z) tunnel_ops_scheme \<Rightarrow> stream \<Rightarrow> conn \<Rightarrow> 'w \<Rightarrow> 'w option" where
  "tcpFwdStream2Conn E src dst w =
     map_option (\<lambda>w1. ConnClose E dst (StreamReset E src w1)) (tcpFwdStream2Conn_loop E src dst w)"

partial_function (option) tcpFwdConn2Stream_loop :: "('w, 'z) tunnel_ops_scheme \<Rightarrow> conn \<Rightarrow> stream \<Rightarrow> 'w \<Rightarrow> 'w option" where
  [code]: "tcpFwdConn2Stream_loop E src dst w =
     (case ConnRead E src MAX_TCP_TUNNEL_PAYLOAD w of
        ((dat, err), w1) \<Rightarrow>
          if err \<noteq> nil_error then Some w1
          else
            (case sendData E dst dat w1 of
               (err2, w2) \<Rightarrow> if err2 \<noteq> nil_error then Some w2 else tcpFwdConn2Stream_loop E src dst w2))"

definition tcpFwdConn2Stream :: "('w, 'z) tunnel_ops_scheme \<Rightarrow> conn \<Rightarrow> stream \<Rightarrow> 'w \<Rightarrow> 'w option" where
  "tcpFwdConn2Stream E src dst w =
     map_option (\<lambda>w1. ConnClose E src (StreamReset E dst w1)) (tcpFwdConn2Stream_loop E src dst w)"

section \<open>UDP forwarders\<close>

text \<open>With a destination address the connection is the shared listening socket: \<open>WriteTo\<close> is used and the connection is not closed.\<close>

partial_function (option) udpFwdStream2Conn_loop :: "('w, 'z) tunnel_ops_scheme \<Rightarrow> stream \<Rightarrow> conn \<Rightarrow> addr option \<Rightarrow> 'w \<Rightarrow> 'w option" where
  [code]: "udpFwdStream2Conn_loop E src dst dstAddr w =
     (case receiveData E src w of
        ((dat, err), w1) \<Rightarrow>
          if err \<noteq> nil_error then Some w1
          else
            Option.bind
              (write_loop (\<lambda>d. case dstAddr of Some a \<Rightarrow> WriteTo E dst d a | None \<Rightarrow> ConnWrite E dst d) dat 0 w1) (\<lambda>(err2, w2).
              if err2 \<noteq> nil_error then Some w2 else udpFwdStream2Conn_loop E src dst dstAddr w2))"

definition udpFwdStream2Conn :: "('w, 'z) tunnel_ops_scheme \<Rightarrow> stream \<Rightarrow> conn \<Rightarrow> addr option \<Rightarrow> 'w \<Rightarrow> 'w option" where
  "udpFwdStream2Conn E src dst dstAddr w =
     map_option (\<lambda>w1. let w2 = StreamReset E src w1 in if dstAddr = None then ConnClose E dst w2 else w2)
       (udpFwdStream2Conn_loop E src dst dstAddr w)"

partial_function (option) udpFwdConn2Stream_loop :: "('w, 'z) tunnel_ops_scheme \<Rightarrow> conn \<Rightarrow> stream \<Rightarrow> 'w \<Rightarrow> 'w option" where
  [code]: "udpFwdConn2Stream_loop E src dst w =
     (case ConnRead E src MAX_UDP_TUNNEL_PAYLOAD w of
        ((dat, err), w1) \<Rightarrow>
          if err \<noteq> nil_error then Some w1
          else
            (case sendData E dst dat w1 of
               (err2, w2) \<Rightarrow> if err2 \<noteq> nil_error then Some w2 else udpFwdConn2Stream_loop E src dst w2))"

definition udpFwdConn2Stream :: "('w, 'z) tunnel_ops_scheme \<Rightarrow> conn \<Rightarrow> stream \<Rightarrow> 'w \<Rightarrow> 'w option" where
  "udpFwdConn2Stream E src dst w =
     map_option (\<lambda>w1. ConnClose E src (StreamReset E dst w1)) (udpFwdConn2Stream_loop E src dst w)"

section \<open>Between streams\<close>

partial_function (option) fwdStream2Stream_loop :: "('w, 'z) tunnel_ops_scheme \<Rightarrow> stream \<Rightarrow> stream \<Rightarrow> 'w \<Rightarrow> 'w option" where
  [code]: "fwdStream2Stream_loop E src dst w =
     (case receiveData E src w of
        ((msgBytes, err), w1) \<Rightarrow>
          if err \<noteq> nil_error then Some w1
          else
            (case sendData E dst msgBytes w1 of
               (err2, w2) \<Rightarrow> if err2 \<noteq> nil_error then Some w2 else fwdStream2Stream_loop E src dst w2))"

definition fwdStream2Stream :: "('w, 'z) tunnel_ops_scheme \<Rightarrow> stream \<Rightarrow> stream \<Rightarrow> 'w \<Rightarrow> 'w option" where
  "fwdStream2Stream E src dst w =
     map_option (\<lambda>w1. StreamReset E src (StreamReset E dst w1)) (fwdStream2Stream_loop E src dst w)"

section \<open>The handlers at the end and in the middle of a chain\<close>

text \<open>A goroutine that a function starts is part of its result.\<close>

datatype goroutine =
    Go_connQualMonitor peer_id ServiceInfo stream
  | Go_tcpFwdStream2Conn stream conn
  | Go_tcpFwdConn2Stream conn stream
  | Go_udpFwdStream2Conn stream conn "addr option"
  | Go_udpFwdConn2Stream conn stream
  | Go_fwdStream2Stream stream stream

definition tcpEndChainHandler :: "('w, 'z) tunnel_ops_scheme \<Rightarrow> string \<Rightarrow> stream \<Rightarrow> 'w \<Rightarrow> goroutine list \<times> 'w" where
  "tcpEndChainHandler E servEndpoint strm w =
     (let ((rAddr, err), w1) = ResolveTCPAddr E servEndpoint w
      in if err \<noteq> nil_error then ([], w1)
         else
           (let ((rConn, err2), w2) = DialTCP E rAddr w1
            in if err2 \<noteq> nil_error then ([], w2)
               else ([Go_tcpFwdStream2Conn strm rConn, Go_tcpFwdConn2Stream rConn strm], w2)))"

definition tcpMidChainHandler :: "('w, 'z) tunnel_ops_scheme \<Rightarrow> string \<Rightarrow> stream \<Rightarrow> stream \<Rightarrow> 'w \<Rightarrow> goroutine list \<times> 'w" where
  "tcpMidChainHandler E servEndpoint inStream outStream w =
     (let ((rAddr, err), w1) = ResolveTCPAddr E servEndpoint w
      in if err \<noteq> nil_error then ([], w1)
         else
           (let ((rConn, err2), w2) = DialTCP E rAddr w1
            in if err2 \<noteq> nil_error then ([], w2)
               else ([Go_tcpFwdStream2Conn inStream rConn, Go_tcpFwdConn2Stream rConn outStream,
                      Go_fwdStream2Stream outStream inStream], w2)))"

definition udpResolveAndDial :: "('w, 'z) tunnel_ops_scheme \<Rightarrow> string \<Rightarrow> string \<Rightarrow> 'w \<Rightarrow> (conn option \<times> error option) \<times> 'w" where
  "udpResolveAndDial E servEndpoint endpoint w =
     (let ((rAddr, err), w1) = ResolveUDPAddr E endpoint w
      in if err \<noteq> nil_error then
           ((None, Some (''Unable to resolve UDP target address '' @ servEndpoint @ [CHR 0x0A] @ the err @ [CHR 0x0A])), w1)
         else
           (let ((rConn, err2), w2) = DialUDP E rAddr w1
            in if err2 \<noteq> nil_error then
                 ((None, Some (''Unable to dial UDP target address '' @ rAddr @ [CHR 0x0A] @ the err2 @ [CHR 0x0A])), w2)
               else ((Some rConn, nil_error), w2)))"

text \<open>A nil connection is returned only together with an error.\<close>

definition udpEndChainHandler :: "('w, 'z) tunnel_ops_scheme \<Rightarrow> string \<Rightarrow> stream \<Rightarrow> 'w \<Rightarrow> goroutine list \<times> 'w" where
  "udpEndChainHandler E servEndpoint strm w =
     (case udpResolveAndDial E servEndpoint servEndpoint w of
        ((Some rConn, None), w1) \<Rightarrow> ([Go_udpFwdStream2Conn strm rConn None, Go_udpFwdConn2Stream rConn strm], w1)
      | ((_, _), w1) \<Rightarrow> ([], w1))"

definition udpMidChainHandler :: "('w, 'z) tunnel_ops_scheme \<Rightarrow> string \<Rightarrow> stream \<Rightarrow> stream \<Rightarrow> 'w \<Rightarrow> goroutine list \<times> 'w" where
  "udpMidChainHandler E servEndpoint inStream outStream w =
     (case udpResolveAndDial E servEndpoint servEndpoint w of
        ((Some rConn, None), w1) \<Rightarrow>
          ([Go_udpFwdStream2Conn inStream rConn None, Go_udpFwdConn2Stream rConn outStream,
            Go_fwdStream2Stream outStream inStream], w1)
      | ((_, _), w1) \<Rightarrow> ([], w1))"

section \<open>The contract of a forwarder\<close>

text \<open>
  All forwarders are the same loop over a source and a sink. With \<open>pending\<close> the pieces the source will still deliver and \<open>sunk\<close> what the sink has taken, a forwarder with a
  working source and sink ends when the source is exhausted, and has then moved everything, in order, nothing twice.
\<close>

definition source_law :: "('w \<Rightarrow> (string \<times> error option) \<times> 'w) \<Rightarrow> ('w \<Rightarrow> string list) \<Rightarrow> ('w \<Rightarrow> 'b list) \<Rightarrow> bool" where
  "source_law get pending sunk \<longleftrightarrow>
     (\<forall>w d ds. pending w = d # ds \<longrightarrow> (\<exists>w1. get w = ((d, nil_error), w1) \<and> pending w1 = ds \<and> sunk w1 = sunk w)) \<and>
     (\<forall>w. pending w = [] \<longrightarrow> (\<exists>d e w1. get w = ((d, Some e), w1) \<and> pending w1 = [] \<and> sunk w1 = sunk w))"

definition sink_law :: "(string \<Rightarrow> 'w \<Rightarrow> (error option \<times> 'w) option) \<Rightarrow> (string \<Rightarrow> 'b list) \<Rightarrow> ('w \<Rightarrow> string list) \<Rightarrow> ('w \<Rightarrow> 'b list) \<Rightarrow> bool" where
  "sink_law put emb pending sunk \<longleftrightarrow>
     (\<forall>d w. \<exists>w1. put d w = Some (nil_error, w1) \<and> sunk w1 = sunk w @ emb d \<and> pending w1 = pending w)"

locale forwarder =
  fixes get :: "'w \<Rightarrow> (string \<times> error option) \<times> 'w"
    and put :: "string \<Rightarrow> 'w \<Rightarrow> (error option \<times> 'w) option"
    and loop :: "'w \<Rightarrow> 'w option"
  assumes loop_eq: "loop w =
     (case get w of
        ((d, err), w1) \<Rightarrow>
          if err \<noteq> nil_error then Some w1
          else Option.bind (put d w1) (\<lambda>(err2, w2). if err2 \<noteq> nil_error then Some w2 else loop w2))"
begin

lemma ends_with_source: "get w = ((d, Some e), w1) \<Longrightarrow> loop w = Some w1"
  by (subst loop_eq) simp

lemma ends_with_sink: "get w = ((d, nil_error), w1) \<Longrightarrow> put d w1 = Some (Some e, w2) \<Longrightarrow> loop w = Some w2"
  by (subst loop_eq) simp

lemma goes_on: "get w = ((d, nil_error), w1) \<Longrightarrow> put d w1 = Some (nil_error, w2) \<Longrightarrow> loop w = loop w2"
  by (subst loop_eq) simp

lemma transfers:
  assumes src: "source_law get pending sunk" and snk: "sink_law put emb pending sunk"
  shows "\<exists>w'. loop w = Some w' \<and> sunk w' = sunk w @ concat (map emb (pending w)) \<and> pending w' = []"
proof (induction "pending w" arbitrary: w)
  case Nil
  then obtain d e w1 where "get w = ((d, Some e), w1)" "pending w1 = []" "sunk w1 = sunk w"
    using src unfolding source_law_def by metis
  with Nil show ?case by (metis append_Nil2 concat.simps(1) ends_with_source list.map_disc_iff)
next
  case (Cons d ds)
  then obtain w1 where g: "get w = ((d, nil_error), w1)" "pending w1 = ds" "sunk w1 = sunk w"
    using src unfolding source_law_def by metis
  obtain w2 where p: "put d w1 = Some (nil_error, w2)" "sunk w2 = sunk w1 @ emb d" "pending w2 = pending w1"
    using snk unfolding sink_law_def by blast
  from Cons.hyps(1) [of w2] g p obtain w' where
    "loop w2 = Some w'" "sunk w' = sunk w2 @ concat (map emb ds)" "pending w' = []" by auto
  with goes_on [OF g(1) p(1)] g p Cons.hyps(2) [symmetric] show ?case by auto
qed

end

interpretation t2c: forwarder "receiveData E src" "\<lambda>d. write_loop (ConnWrite E dst) d 0" "tcpFwdStream2Conn_loop E src dst"
  for E :: "('w, 'z) tunnel_ops_scheme" and src dst
  by unfold_locales (rule tcpFwdStream2Conn_loop.simps)

interpretation t2s: forwarder "ConnRead E src MAX_TCP_TUNNEL_PAYLOAD" "\<lambda>d w. Some (sendData E dst d w)" "tcpFwdConn2Stream_loop E src dst"
  for E :: "('w, 'z) tunnel_ops_scheme" and src dst
  by unfold_locales (subst tcpFwdConn2Stream_loop.simps, simp split: prod.split)

interpretation u2c: forwarder "receiveData E src"
    "\<lambda>d. write_loop (\<lambda>d. case dstAddr of Some a \<Rightarrow> WriteTo E dst d a | None \<Rightarrow> ConnWrite E dst d) d 0"
    "udpFwdStream2Conn_loop E src dst dstAddr"
  for E :: "('w, 'z) tunnel_ops_scheme" and src dst dstAddr
  by unfold_locales (rule udpFwdStream2Conn_loop.simps)

interpretation u2s: forwarder "ConnRead E src MAX_UDP_TUNNEL_PAYLOAD" "\<lambda>d w. Some (sendData E dst d w)" "udpFwdConn2Stream_loop E src dst"
  for E :: "('w, 'z) tunnel_ops_scheme" and src dst
  by unfold_locales (subst udpFwdConn2Stream_loop.simps, simp split: prod.split)

interpretation s2s: forwarder "receiveData E src" "\<lambda>d w. Some (sendData E dst d w)" "fwdStream2Stream_loop E src dst"
  for E :: "('w, 'z) tunnel_ops_scheme" and src dst
  by unfold_locales (subst fwdStream2Stream_loop.simps, simp split: prod.split)


lemma write_loop_empty: "write_loop wr [] 0 w = Some (nil_error, w)"
  by (subst write_loop.simps) simp

lemma write_loop_full:
  assumes "wr d w = ((int (length d), nil_error), w1)" and "d \<noteq> []"
  shows "write_loop wr d 0 w = Some (nil_error, w1)"
proof -
  have "write_loop wr d (int (length d)) w1 = Some (nil_error, w1)" by (subst write_loop.simps) simp
  with assms show ?thesis by (subst write_loop.simps) simp
qed

text \<open>A connection that takes whole writes, as \<open>net.Conn\<close> promises when there is no error, and does not fail.\<close>

definition takes_writes :: "(string \<Rightarrow> 'w \<Rightarrow> (int \<times> error option) \<times> 'w) \<Rightarrow> (string \<Rightarrow> 'b list) \<Rightarrow> ('w \<Rightarrow> string list) \<Rightarrow> ('w \<Rightarrow> 'b list) \<Rightarrow> bool" where
  "takes_writes wr emb pending sunk \<longleftrightarrow>
     (\<forall>d w. \<exists>w1. wr d w = ((int (length d), nil_error), w1) \<and> sunk w1 = sunk w @ emb d \<and> pending w1 = pending w)"

lemma takes_writes_sink:
  assumes "takes_writes wr emb pending sunk"
  shows "sink_law (\<lambda>d. write_loop wr d 0) (\<lambda>d. if d = [] then [] else emb d) pending sunk"
  unfolding sink_law_def
proof (intro allI)
  fix d w
  obtain w1 where w1: "wr d w = ((int (length d), nil_error), w1)" "sunk w1 = sunk w @ emb d" "pending w1 = pending w"
    using assms unfolding takes_writes_def by blast
  show "\<exists>w1. write_loop wr d 0 w = Some (nil_error, w1) \<and> sunk w1 = sunk w @ (if d = [] then [] else emb d) \<and> pending w1 = pending w"
    using w1 write_loop_full [of wr d w w1] by (cases "d = []") (auto simp: write_loop_empty)
qed

lemma concat_skip_empty: "concat (map (\<lambda>d. if d = [] then [] else d) ds) = concat ds"
  by (induction ds) auto

lemma concat_singletons: "concat (map (\<lambda>d. [d]) ds) = ds"
  by (induction ds) auto

text \<open>A stream that takes every data message, with the messages sent as observation.\<close>

definition takes_messages :: "('w, 'z) msg_ops_scheme \<Rightarrow> stream \<Rightarrow> ('w \<Rightarrow> string list) \<Rightarrow> ('w \<Rightarrow> string list) \<Rightarrow> bool" where
  "takes_messages E s pending sent \<longleftrightarrow>
     (\<forall>d w. \<exists>w1. MsgSend E s \<lparr>mType = MsgData, mData = d\<rparr> w = (nil_error, w1) \<and> sent w1 = sent w @ [d] \<and> pending w1 = pending w)"

lemma takes_messages_sink:
  "takes_messages E s pending sent \<Longrightarrow> sink_law (\<lambda>d w. Some (sendData E s d w)) (\<lambda>d. [d]) pending sent"
  unfolding sink_law_def takes_messages_def by (metis (no_types, lifting) option.simps(8) sendData_eq)

text \<open>A stream that delivers data messages and then ends.\<close>

definition delivers_messages :: "('w, 'z) msg_ops_scheme \<Rightarrow> stream \<Rightarrow> ('w \<Rightarrow> string list) \<Rightarrow> ('w \<Rightarrow> 'b list) \<Rightarrow> bool" where
  "delivers_messages E s inbox sunk \<longleftrightarrow>
     (\<forall>w d ds. inbox w = d # ds \<longrightarrow>
        (\<exists>w1. MsgRecv E s w = ((\<lparr>mType = MsgData, mData = d\<rparr>, nil_error), w1) \<and> inbox w1 = ds \<and> sunk w1 = sunk w)) \<and>
     (\<forall>w. inbox w = [] \<longrightarrow> (\<exists>m e w1. MsgRecv E s w = ((m, Some e), w1) \<and> inbox w1 = [] \<and> sunk w1 = sunk w))"

lemma delivers_messages_source: "delivers_messages E s inbox sunk \<Longrightarrow> source_law (receiveData E s) inbox sunk"
  unfolding source_law_def delivers_messages_def
  using dat.accepts [of E s] dat.lost [of E s] by (metis ChainMsg.select_convs)


section \<open>A concrete world\<close>

text \<open>
  Operations that do nothing, and on top of them a world of two lists: the pieces a source still delivers, and the pieces a sink has taken.
\<close>

definition null_tunnel :: "'w tunnel_ops" where
  "null_tunnel = \<lparr>
     Now = (\<lambda>w. (0, w)), GetServiceWithHostRouting = (\<lambda>n w. ((zero_ServiceInfo, Some ''none''), w)),
     Ping = (\<lambda>d p w. (0, w)), LessThan = (\<lambda>a b. RTT a < RTT b),
     FindPeers = (\<lambda>n w. ((0, Some ''none''), w)), SortPeers = (\<lambda>c w. ([], w)), NewStream = (\<lambda>p q w. ((0, Some ''none''), w)),
     StreamReset = (\<lambda>s w. w), StreamClose = (\<lambda>s w. w), WriteString = (\<lambda>s t w. (None, w)), Flush = (\<lambda>s w. w),
     ReadString = (\<lambda>s w. (([], Some ''none''), w)), ReadAll = (\<lambda>s w. (([], None), w)), RequestWrite = (\<lambda>s r w. (None, w)),
     ReadRequest = (\<lambda>s w. ((\<lparr>RequestURI = [], ReqRest = []\<rparr>, Some ''none''), w)),
     ReadResponse = (\<lambda>b r. (demo_response, None)), URLParse = (\<lambda>r u. (u, None)), RoundTrip = (\<lambda>u r w. ((None, Some ''none''), w)),
     ResponseWrite = (\<lambda>s r w. (None, w)), NewNode = (\<lambda>cfg w. (None, w)), Advertise = (\<lambda>h w. w),
     Sleep = (\<lambda>d w. w), NewExpoBackoffAttempts = (\<lambda>a b n w. ((0, None), w)), Attempt = (\<lambda>b w. Some (False, w)),
     GobEncode = demo_gob_encode, GobDecode = demo_gob_decode [], ErrorfText = (\<lambda>s. s),
     MsgSend = (\<lambda>s m w. (None, w)), MsgRecv = (\<lambda>s w. ((\<lparr>mType = MsgError, mData = []\<rparr>, Some ''EOF''), w)),
     ConnRead = (\<lambda>c n w. (([], Some ''EOF''), w)), ConnWrite = (\<lambda>c d w. ((int (length d), None), w)),
     WriteTo = (\<lambda>c d a w. ((int (length d), None), w)), ConnClose = (\<lambda>c w. w),
     ResolveTCPAddr = (\<lambda>e w. ((e, None), w)), DialTCP = (\<lambda>a w. ((1, None), w)),
     ResolveUDPAddr = (\<lambda>e w. ((e, None), w)), DialUDP = (\<lambda>a w. ((1, None), w)), SetProtocol = (\<lambda>s p w. w)\<rparr>"

definition demo_tunnel :: "(string list \<times> string list) tunnel_ops" where
  "demo_tunnel = null_tunnel\<lparr>
     ConnRead := (\<lambda>c n (p, s). case p of [] \<Rightarrow> (([], Some ''EOF''), ([], s)) | d # ds \<Rightarrow> ((d, None), (ds, s))),
     MsgRecv := (\<lambda>st (p, s). case p of [] \<Rightarrow> ((\<lparr>mType = MsgError, mData = []\<rparr>, Some ''EOF''), ([], s))
        | d # ds \<Rightarrow> ((\<lparr>mType = MsgData, mData = d\<rparr>, None), (ds, s))),
     MsgSend := (\<lambda>st m (p, s). (None, (p, s @ [mData m]))),
     ConnWrite := (\<lambda>c d (p, s). ((int (length d), None), (p, s @ [d]))),
     WriteTo := (\<lambda>c d a (p, s). ((int (length d), None), (p, s @ [d])))\<rparr>"

lemma demo_tunnel_laws:
  "source_law (ConnRead demo_tunnel c n) fst snd" "takes_messages demo_tunnel s fst snd"
  "delivers_messages demo_tunnel s fst snd" "delivers_messages demo_tunnel s fst (\<lambda>w. concat (snd w))"
  "takes_writes (ConnWrite demo_tunnel c) (\<lambda>d. d) fst (\<lambda>w. concat (snd w))"
  "takes_writes (\<lambda>d. WriteTo demo_tunnel c d a) (\<lambda>d. [d]) fst snd"
  by (auto simp: demo_tunnel_def source_law_def takes_messages_def delivers_messages_def takes_writes_def)

section \<open>Properties\<close>

text \<open>
  A TCP tunnel is transparent: the forwarder at one end turns what it reads from its connection into data messages, one per read, in order, and ends when the connection
  does; if these messages arrive at the other end, the forwarder there ends too, and has written exactly the same bytes in the same order to its connection. Each closes its
  connection and resets its stream at the end.
\<close>
theorem tcp_tunnel_transparent:
  assumes "source_law (ConnRead E c MAX_TCP_TUNNEL_PAYLOAD) chunks sent" and "takes_messages E s chunks sent" and "sent w = []"
    and "delivers_messages F t inbox out" and "takes_writes (ConnWrite F d) (\<lambda>x. x) inbox out"
  shows "\<exists>w'. tcpFwdConn2Stream E c s w = Some (ConnClose E c (StreamReset E s w')) \<and> sent w' = chunks w \<and>
    (\<forall>v. inbox v = sent w' \<longrightarrow>
       (\<exists>v'. tcpFwdStream2Conn F t d v = Some (ConnClose F d (StreamReset F t v')) \<and> out v' = out v @ concat (chunks w)))"
proof -
  from t2s.transfers [OF assms(1) takes_messages_sink [OF assms(2)], of w] assms(3) obtain w' where
    "tcpFwdConn2Stream_loop E c s w = Some w'" "sent w' = chunks w" by (auto simp: concat_singletons)
  moreover have "\<exists>v'. tcpFwdStream2Conn_loop F t d v = Some v' \<and> out v' = out v @ concat (chunks w)" if "inbox v = chunks w" for v
    using t2c.transfers [OF delivers_messages_source [OF assms(4)] takes_writes_sink [OF assms(5)], of v] that
    by (auto simp: concat_skip_empty)
  ultimately show ?thesis by (fastforce simp: tcpFwdConn2Stream_def tcpFwdStream2Conn_def)
qed

text \<open>An instance: three reads.\<close>
theorem tcp_tunnel_transparent_witness:
  "\<exists>v'. tcpFwdStream2Conn demo_tunnel 9 3 ([''GET'', '' /'', ''x''], []) = Some v' \<and> concat (snd v') = ''GET /x''"
proof -
  have s: "snd ([''GET'', '' /'', ''x''], [] :: string list) = []" by simp
  let ?w = "([''GET'', '' /'', ''x''], [] :: string list)"
  note t = tcp_tunnel_transparent [where E = demo_tunnel and c = 1 and s = 2 and chunks = fst and sent = snd and w = ?w and
      F = demo_tunnel and t = 9 and d = 3 and inbox = fst and out = "\<lambda>w. concat (snd w)",
      OF demo_tunnel_laws(1) demo_tunnel_laws(2) s demo_tunnel_laws(4) demo_tunnel_laws(5)]
  obtain w' :: "string list \<times> string list" where w': "snd w' = fst ?w"
    and v: "\<forall>v. fst v = snd w' \<longrightarrow> (\<exists>v'. tcpFwdStream2Conn demo_tunnel 9 3 v =
        Some (ConnClose demo_tunnel 3 (StreamReset demo_tunnel 9 v')) \<and> concat (snd v') = concat (snd v) @ concat (fst ?w))"
    using t by blast
  from v w' have "\<exists>v'. tcpFwdStream2Conn demo_tunnel 9 3 ([''GET'', '' /'', ''x''], []) =
        Some (ConnClose demo_tunnel 3 (StreamReset demo_tunnel 9 v')) \<and> concat (snd v') = ''GET /x''" by force
  then show ?thesis by (simp add: demo_tunnel_def null_tunnel_def)
qed

text \<open>
  A UDP tunnel keeps datagrams apart, but loses empty ones: the forwarder to the client's address sends every non-empty datagram that arrives on the stream as one
  datagram, in order; a datagram of length zero is not sent, because the write loop is not entered. The shared socket is left open, the stream is reset.
\<close>
theorem udp_forwarder_datagrams:
  assumes "delivers_messages E s inbox sunk" and "takes_writes (\<lambda>d. WriteTo E c d a) (\<lambda>d. [d]) inbox sunk"
  shows "\<exists>w'. udpFwdStream2Conn E s c (Some a) w = Some (StreamReset E s w') \<and>
    sunk w' = sunk w @ filter (\<lambda>d. d \<noteq> []) (inbox w)"
proof -
  have "concat (map (\<lambda>d. if d = [] then [] else [d]) ds) = filter (\<lambda>d. d \<noteq> []) ds" for ds :: "string list"
    by (induction ds) auto
  with u2c.transfers [where dstAddr = "Some a", OF delivers_messages_source [OF assms(1)],
      simplified, OF takes_writes_sink [OF assms(2)], of w]
  show ?thesis by (auto simp: udpFwdStream2Conn_def)
qed

text \<open>An instance: the second of three datagrams is empty.\<close>
theorem udp_forwarder_datagrams_witness:
  "\<exists>w'. udpFwdStream2Conn demo_tunnel 9 3 (Some ''1.2.3.4:5'') ([''a'', [], ''b''], []) = Some w' \<and> snd w' = [''a'', ''b'']"
  using udp_forwarder_datagrams [OF demo_tunnel_laws(3) demo_tunnel_laws(6), of 9 3 "''1.2.3.4:5''" "([''a'', [], ''b''], [])"]
  by (auto simp: demo_tunnel_def null_tunnel_def)

text \<open>
  In the middle of a chain, the reverse path relays messages unchanged: \<open>fwdStream2Stream\<close> sends on exactly the data messages it receives, in order, until the source ends; any other kind of message
  ends the relay at once without being sent on, and then both streams are reset.
\<close>
theorem fwdStream2Stream_relays:
  assumes "delivers_messages E src inbox sent" and "takes_messages E dst inbox sent"
  shows "(\<exists>w'. fwdStream2Stream E src dst w = Some (StreamReset E src (StreamReset E dst w')) \<and> sent w' = sent w @ inbox w) \<and>
    (\<forall>m v v'. MsgRecv E src v = ((m, nil_error), v') \<longrightarrow> mType m \<noteq> MsgData \<longrightarrow>
       fwdStream2Stream E src dst v = Some (StreamReset E src (StreamReset E dst v')))"
proof -
  from s2s.transfers [OF delivers_messages_source [OF assms(1)] takes_messages_sink [OF assms(2)], of w]
  have "\<exists>w'. fwdStream2Stream E src dst w = Some (StreamReset E src (StreamReset E dst w')) \<and> sent w' = sent w @ inbox w"
    by (auto simp: fwdStream2Stream_def concat_singletons)
  moreover have "fwdStream2Stream_loop E src dst v = Some v'" if "MsgRecv E src v = ((m, nil_error), v')" "mType m \<noteq> MsgData" for m v v'
    using s2s.ends_with_source dat.refuses that by metis
  ultimately show ?thesis by (simp add: fwdStream2Stream_def)
qed

text \<open>An instance: two messages.\<close>
theorem fwdStream2Stream_relays_witness:
  "\<exists>w'. fwdStream2Stream demo_tunnel 1 2 ([''a'', ''b''], [''z'']) = Some w' \<and> snd w' = [''z'', ''a'', ''b'']"
  using fwdStream2Stream_relays [OF demo_tunnel_laws(3) demo_tunnel_laws(2), of 1 2 "([''a'', ''b''], [''z''])"]
  by (auto simp: demo_tunnel_def null_tunnel_def)

section \<open>The way back through a whole chain\<close>

text \<open>
  A node in the middle of a chain, as its relay sees it: its world with the stream it receives on and the stream it sends on, the messages still to come and those sent on.
\<close>

record 'w hop =
  hopOps :: "'w tunnel_ops"
  hopIn :: stream
  hopOut :: stream
  hopInbox :: "'w \<Rightarrow> string list"
  hopSent :: "'w \<Rightarrow> string list"

definition hop_works :: "'w hop \<Rightarrow> bool" where
  "hop_works h \<longleftrightarrow> delivers_messages (hopOps h) (hopIn h) (hopInbox h) (hopSent h) \<and> takes_messages (hopOps h) (hopOut h) (hopInbox h) (hopSent h) \<and>
     (\<forall>s w. hopSent h (StreamReset (hopOps h) s w) = hopSent h w)"

text \<open>
  The relays of the nodes on the way, each run from a world in which nothing has been sent yet and what the previous node sent is to come: \<open>None\<close> if one of them does not end, else what
  the last one sent. A world is given for each node and each sequence of messages to come.
\<close>

fun relay_path :: "('w hop \<times> (string list \<Rightarrow> 'w)) list \<Rightarrow> string list \<Rightarrow> string list option" where
  "relay_path [] ms = Some ms"
| "relay_path ((h, world) # hops) ms =
     (case fwdStream2Stream (hopOps h) (hopIn h) (hopOut h) (world ms) of
        None \<Rightarrow> None
      | Some w' \<Rightarrow> relay_path hops (hopSent h w'))"

definition starts_with :: "'w hop \<times> (string list \<Rightarrow> 'w) \<Rightarrow> bool" where
  "starts_with hw \<longleftrightarrow> hop_works (fst hw) \<and> (\<forall>ms. hopInbox (fst hw) (snd hw ms) = ms \<and> hopSent (fst hw) (snd hw ms) = [])"

lemma relay_path_identity: "list_all starts_with hops \<Longrightarrow> relay_path hops ms = Some ms"
proof (induction hops arbitrary: ms)
  case Nil
  show ?case by simp
next
  case (Cons hw hops)
  obtain h world where hw: "hw = (h, world)" by (cases hw)
  with Cons.prems have works: "delivers_messages (hopOps h) (hopIn h) (hopInbox h) (hopSent h)" "takes_messages (hopOps h) (hopOut h) (hopInbox h) (hopSent h)"
    and reset: "hopSent h (StreamReset (hopOps h) s w) = hopSent h w" and world: "hopInbox h (world ms) = ms" "hopSent h (world ms) = []" for s w
    by (simp_all add: starts_with_def hop_works_def)
  from s2s.transfers [OF delivers_messages_source [OF works(1)] takes_messages_sink [OF works(2)], of "world ms"] world
  obtain w' where "fwdStream2Stream_loop (hopOps h) (hopIn h) (hopOut h) (world ms) = Some w'" "hopSent h w' = ms" by (auto simp: concat_singletons)
  with Cons hw reset show ?case by (simp add: fwdStream2Stream_def)
qed

text \<open>
  C24. A chain is transparent on the way back, whatever its length: if the last service's node forwards from its connection to the chain, any number of nodes in the middle relay, and the client's node forwards to the
  client's connection, then all of these loops end with their sources, and the client gets exactly the bytes the last service wrote, in order.
\<close>
theorem chain_way_back_transparent:
  assumes "source_law (ConnRead E c MAX_TCP_TUNNEL_PAYLOAD) chunks sent" and "takes_messages E s chunks sent" and "sent w = []"
    and "list_all starts_with hops"
    and "delivers_messages F t inbox out" and "takes_writes (ConnWrite F d) (\<lambda>x. x) inbox out"
  shows "\<exists>w'. tcpFwdConn2Stream E c s w = Some (ConnClose E c (StreamReset E s w')) \<and> relay_path hops (sent w') = Some (chunks w) \<and>
    (\<forall>v. inbox v = chunks w \<longrightarrow>
       (\<exists>v'. tcpFwdStream2Conn F t d v = Some (ConnClose F d (StreamReset F t v')) \<and> out v' = out v @ concat (chunks w)))"
proof -
  from tcp_tunnel_transparent [OF assms(1-3,5,6)] obtain w' where
    "tcpFwdConn2Stream E c s w = Some (ConnClose E c (StreamReset E s w'))" "sent w' = chunks w"
    "\<forall>v. inbox v = sent w' \<longrightarrow> (\<exists>v'. tcpFwdStream2Conn F t d v = Some (ConnClose F d (StreamReset F t v')) \<and> out v' = out v @ concat (chunks w))"
    by blast
  with relay_path_identity [OF assms(4)] show ?thesis by auto
qed

text \<open>Witness of C24: two nodes in the middle.\<close>
theorem chain_way_back_transparent_witness:
  "\<exists>b. relay_path (replicate 2 (\<lparr>hopOps = demo_tunnel, hopIn = 4, hopOut = 5, hopInbox = fst, hopSent = snd\<rparr>, \<lambda>ms. (ms, []))) b = Some [''GET'', '' /'', ''x'']"
proof -
  let ?w = "([''GET'', '' /'', ''x''], [] :: string list)"
  let ?h = "(\<lparr>hopOps = demo_tunnel, hopIn = 4, hopOut = 5, hopInbox = fst, hopSent = snd\<rparr>, \<lambda>ms. (ms, []))"
  have s: "snd ?w = []" by simp
  have h: "list_all starts_with (replicate 2 ?h)"
    using demo_tunnel_laws(2,3) by (auto simp: list_all_iff starts_with_def hop_works_def demo_tunnel_def null_tunnel_def)
  note t = chain_way_back_transparent [where E = demo_tunnel and c = 1 and s = 2 and chunks = fst and sent = snd and w = ?w and
      F = demo_tunnel and t = 9 and d = 3 and inbox = fst and out = "\<lambda>w. concat (snd w)",
      OF demo_tunnel_laws(1) demo_tunnel_laws(2) s h demo_tunnel_laws(4) demo_tunnel_laws(5)]
  from t show ?thesis unfolding fst_conv by blast
qed

end
