(* ===== verification/Chain_Setup.thy ===== *)
theory Chain_Setup
  imports Tunnel
begin

text \<open>
  Setting up a chain of services (second part of \<open>src/l4-proxy/chain-setup.go\<close>): the client's \<open>setupChain\<close>, the handler each proxy on the way runs, and the monitor of a
  connection's quality. A proxy's own name and the endpoint of its service are the package variables \<open>service\<close> and \<open>servEndpoint\<close>, here arguments.
\<close>

section \<open>Operations of the world\<close>

text \<open>Waiting for the next tick of a one-second ticker, and closing the connection below a stream.\<close>

record 'w chain_ops = "'w tunnel_ops" +
  TickerWait :: "'w \<Rightarrow> 'w"
  StreamConnClose :: "stream \<Rightarrow> 'w \<Rightarrow> 'w"

definition chainSetupProtoID :: protocol_id where
  "chainSetupProtoID = ''/ChainSetup/1.0''"

section \<open>The connection monitor\<close>

text \<open>
  Ping the peer every second until it does not answer or misses its hard requirement; then remove it from the peer cache and close the connection. The peer cache
  is only touched in the last step: the argument is the cache at that moment.
\<close>

definition bad_ping :: "('w, 'z) world_ops_scheme \<Rightarrow> ServiceInfo \<Rightarrow> duration \<Rightarrow> bool" where
  "bad_ping E servInfo rtt \<longleftrightarrow> rtt = 0 \<or> LessThan E (NetworkHardReq servInfo) \<lparr>RTT = rtt\<rparr>"

partial_function (option) connQualMonitor :: "('w, 'z) chain_ops_scheme \<Rightarrow> peer_id \<Rightarrow> ServiceInfo \<Rightarrow> stream \<Rightarrow> PeerCache \<Rightarrow> 'w
    \<Rightarrow> (PeerCache \<times> 'w) option" where
  [code]: "connQualMonitor E pid servInfo strm peerCache w =
     (case Ping E (RTT (NetworkHardReq servInfo)) pid w of
        (rtt, w1) \<Rightarrow>
          if bad_ping E servInfo rtt then
            Option.bind (RemovePeer peerCache pid) (\<lambda>peerCache1. Some (peerCache1, StreamConnClose E strm w1))
          else connQualMonitor E pid servInfo strm peerCache (TickerWait E w1))"

section \<open>The client's side\<close>

definition setupChain :: "('w, 'z) chain_ops_scheme \<Rightarrow> string list \<Rightarrow> RegistryCache \<Rightarrow> PeerCache \<Rightarrow> 'w
    \<Rightarrow> ((stream option \<times> error option) \<times> RegistryCache \<times> PeerCache \<times> goroutine list \<times> 'w) option" where
  "setupChain E chainSpec registryCache peerCache w =
     (if length chainSpec < 2 then
        Some ((None, Some (''Chain spec must contain at least two tokens (transport protocol and a service name)'' @ [CHR 0x0A])),
              registryCache, peerCache, [], w)
      else
        (let tpProto = chainSpec ! 0; servName = chainSpec ! 1
         in if tpProto \<noteq> ''udp'' \<and> tpProto \<noteq> ''tcp'' then
              Some ((None, Some (''Expecting protocol to be either '' @ quoted ''tcp'' @ '' or '' @ quoted ''udp'' @ [CHR 0x0A])),
                    registryCache, peerCache, [], w)
            else
              do {
                ((peerProxyID, servInfo, err), registryCache1, peerCache1, w1) \<leftarrow> resolveService E servName registryCache peerCache w;
                (if err \<noteq> nil_error then
                   Some ((None, Some (''Unable to resolve service '' @ servName @ [CHR 0x0A] @ the err @ [CHR 0x0A])),
                         registryCache1, peerCache1, [], w1)
                 else
                   (case createStream E peerProxyID chainSetupProtoID w1 of
                      ((Some strm, None), w2) \<Rightarrow>
                        do {
                          setupReq \<leftarrow> NewChainSetupRequest E chainSpec;
                          let w3 = snd (MsgSend E strm setupReq w2);
                          let ((resMsg, err3), w4) = receiveSetupACK E strm w3;
                          (if err3 \<noteq> nil_error then
                             Some ((None, Some (''Unable to receive chain SetupACK'' @ [CHR 0x0A] @ the err3 @ [CHR 0x0A])),
                                   registryCache1, peerCache1, [Go_connQualMonitor peerProxyID servInfo strm], w4)
                           else
                             Some ((Some strm, nil_error), registryCache1, peerCache1,
                                   [Go_connQualMonitor peerProxyID servInfo strm], w4))
                        }
                    | ((_, err2), w2) \<Rightarrow>
                        Some ((None, Some (''Unable to open stream to peer '' @ peerProxyID @ [CHR 0x0A] @ the err2 @ [CHR 0x0A])),
                              registryCache1, peerCache1, [], w2)))
              }))"

section \<open>The handler on the way\<close>

text \<open>
  The scan of the chain specification: the current protocol, the protocol in force at this service's (last) occurrence before the scan ends, whether the service was found, and the
  first other service after it.
\<close>

fun scan_chain :: "string \<Rightarrow> string list \<Rightarrow> string \<Rightarrow> string \<Rightarrow> bool \<Rightarrow> string \<times> string \<times> string \<times> bool" where
  "scan_chain service [] tpProto tpProtoThis foundMe = (tpProto, tpProtoThis, '''', foundMe)"
| "scan_chain service (token # tokens) tpProto tpProtoThis foundMe =
     (if token = ''udp'' \<or> token = ''tcp'' then scan_chain service tokens token tpProtoThis foundMe
      else if token = service then scan_chain service tokens tpProto tpProto True
      else if foundMe then (tpProto, tpProtoThis, token, foundMe)
      else scan_chain service tokens tpProto tpProtoThis foundMe)"

text \<open>The debugging text a middle proxy passes on: its own name is appended to a reverse-chain message.\<close>

definition mid_ack :: "string \<Rightarrow> string \<Rightarrow> string" where
  "mid_ack service resMsg = (if HasPrefix resMsg REV_CHAIN_MSG_PREFIX then resMsg @ '' '' @ service else resMsg)"

definition chainSetupHandler :: "('w, 'z) chain_ops_scheme \<Rightarrow> string \<Rightarrow> string \<Rightarrow> stream \<Rightarrow> RegistryCache \<Rightarrow> PeerCache \<Rightarrow> 'w
    \<Rightarrow> (RegistryCache \<times> PeerCache \<times> goroutine list \<times> 'w) option" where
  "chainSetupHandler E service servEndpoint strm registryCache peerCache w =
     (let ((chainSpec, err), w1) = receiveSetupRequest E strm w
      in if err \<noteq> nil_error then Some (registryCache, peerCache, [], w1)
         else
           (let (tpProto, tpProtoThis, nextServ, foundMe) = scan_chain service chainSpec '''' '''' False
            in if \<not> foundMe then Some (registryCache, peerCache, [], w1)
               else if nextServ = '''' then
                 (let (err2, w2) = sendSetupACK E strm (REV_CHAIN_MSG_PREFIX @ service) w1
                  in if err2 \<noteq> nil_error then Some (registryCache, peerCache, [], w2)
                     else if tpProtoThis = ''udp'' then
                       (let (gs, w3) = udpEndChainHandler E servEndpoint strm (SetProtocol E strm udpTunnelProtoID w2)
                        in Some (registryCache, peerCache, gs, w3))
                     else if tpProtoThis = ''tcp'' then
                       (let (gs, w3) = tcpEndChainHandler E servEndpoint strm (SetProtocol E strm tcpTunnelProtoID w2)
                        in Some (registryCache, peerCache, gs, w3))
                     else Some (registryCache, peerCache, [], w2))
               else
                 do {
                   ((peerProxyID, servInfo, err3), registryCache1, peerCache1, w2) \<leftarrow> resolveService E nextServ registryCache peerCache w1;
                   (if err3 \<noteq> nil_error then Some (registryCache1, peerCache1, [], w2)
                    else
                      (case createStream E peerProxyID chainSetupProtoID w2 of
                         ((Some outStream, None), w3) \<Rightarrow>
                           (let mon = Go_connQualMonitor peerProxyID servInfo strm
                            in do {
                              (err4, w4) \<leftarrow> sendSetupRequest E outStream chainSpec w3;
                              (if err4 \<noteq> nil_error then Some (registryCache1, peerCache1, [mon], w4)
                               else
                                 (let ((resMsg, err5), w5) = receiveSetupACK E outStream w4
                                  in if err5 \<noteq> nil_error then Some (registryCache1, peerCache1, [mon], w5)
                                     else
                                       (let w6 = snd (sendSetupACK E strm (mid_ack service resMsg) w5)
                                        in if tpProtoThis = ''udp'' then
                                             (let (gs, w7) = udpMidChainHandler E servEndpoint strm outStream
                                                               (SetProtocol E outStream udpTunnelProtoID w6)
                                              in Some (registryCache1, peerCache1, mon # gs, w7))
                                           else if tpProtoThis = ''tcp'' then
                                             (let (gs, w7) = tcpMidChainHandler E servEndpoint strm outStream
                                                               (SetProtocol E outStream tcpTunnelProtoID w6)
                                              in Some (registryCache1, peerCache1, mon # gs, w7))
                                           else Some (registryCache1, peerCache1, [mon], w6))))
                            })
                       | ((_, _), w3) \<Rightarrow> Some (registryCache1, peerCache1, [], w3)))
                 }))"

section \<open>Routing along the chain\<close>

text \<open>
  The services of a specification are its tokens other than the two protocol names; \<open>next_of\<close> is where the handler of a service forwards the request, the empty name at the end.
\<close>

definition is_proto :: "string \<Rightarrow> bool" where
  "is_proto t \<longleftrightarrow> t = ''udp'' \<or> t = ''tcp''"

definition services_of :: "string list \<Rightarrow> string list" where
  "services_of spec = filter (\<lambda>t. \<not> is_proto t) spec"

definition next_of :: "string list \<Rightarrow> string \<Rightarrow> string" where
  "next_of spec s = fst (snd (snd (scan_chain s spec [] [] False)))"

lemma scan_after:
  "\<not> is_proto s \<Longrightarrow> s \<notin> set (services_of toks) \<Longrightarrow>
     \<exists>p. scan_chain s toks tp this True = (p, this, (case services_of toks of [] \<Rightarrow> [] | v # _ \<Rightarrow> v), True)"
  by (induction toks arbitrary: tp) (auto simp: services_of_def is_proto_def)

lemma scan_before:
  "\<not> is_proto s \<Longrightarrow> services_of toks = us @ s # vs \<Longrightarrow> s \<notin> set us \<Longrightarrow> s \<notin> set vs \<Longrightarrow>
     \<exists>p. scan_chain s toks tp this False =
       (p, last (tp # filter is_proto (takeWhile (\<lambda>t. t \<noteq> s) toks)), (case vs of [] \<Rightarrow> [] | v # _ \<Rightarrow> v), True)"
proof (induction toks arbitrary: tp us)
  case (Cons t toks)
  show ?case
  proof (cases "is_proto t")
    case True
    with Cons.prems have "services_of toks = us @ s # vs" by (simp add: services_of_def)
    from Cons.IH [OF Cons.prems(1) this Cons.prems(3,4), of t] True Cons.prems(1) show ?thesis
      by (auto simp: is_proto_def)
  next
    case np: False
    then have split: "t # services_of toks = us @ s # vs" using Cons.prems(2) by (simp add: services_of_def)
    show ?thesis
    proof (cases us)
      case Nil
      with split have "t = s" "services_of toks = vs" by auto
      with scan_after [of s toks tp tp] np Cons.prems(4) show ?thesis by (auto simp: is_proto_def)
    next
      case (Cons u us')
      with split have "t = u" "services_of toks = us' @ s # vs" by auto
      with Cons.IH [OF Cons.prems(1) _ _ Cons.prems(4), of us' tp] Cons Cons.prems(3) np show ?thesis
        by (auto simp: is_proto_def)
    qed
  qed
qed (simp add: services_of_def)

lemma services_not_proto: "s \<in> set (services_of spec) \<Longrightarrow> \<not> is_proto s"
  by (simp add: services_of_def)

lemma scan_distinct:
  assumes "distinct (services_of spec)" and "i < length (services_of spec)"
  shows "\<exists>p. scan_chain (services_of spec ! i) spec [] [] False =
    (p, last ([] # filter is_proto (takeWhile (\<lambda>t. t \<noteq> services_of spec ! i) spec)),
     if Suc i < length (services_of spec) then services_of spec ! Suc i else [], True)"
proof -
  let ?ss = "services_of spec" and ?s = "services_of spec ! i"
  have split: "?ss = take i ?ss @ ?s # drop (Suc i) ?ss" using assms(2) by (rule id_take_nth_drop)
  with assms(1) have "distinct (take i ?ss @ ?s # drop (Suc i) ?ss)" by simp
  then have "?s \<notin> set (take i ?ss)" "?s \<notin> set (drop (Suc i) ?ss)" by simp_all
  moreover have "(case drop (Suc i) ?ss of [] \<Rightarrow> [] | v # _ \<Rightarrow> v) = (if Suc i < length ?ss then ?ss ! Suc i else [])"
    by (auto simp: hd_drop_conv_nth [symmetric] split: list.split)
  ultimately show ?thesis
    using scan_before [OF services_not_proto [OF nth_mem [OF assms(2)]] split, of "[]" "[]"] by simp
qed

lemma next_of_distinct:
  assumes "distinct (services_of spec)" and "i < length (services_of spec)"
  shows "next_of spec (services_of spec ! i) = (if Suc i < length (services_of spec) then services_of spec ! Suc i else [])"
  using scan_distinct [OF assms] by (auto simp: next_of_def)

section \<open>Properties\<close>

text \<open>
  C20. A chain without repetitions is walked in order: in a specification whose services are all different, the handler of each service finds itself, uses the last
  protocol named before it, and forwards the request to the service that follows it; the last service finds no successor and ends the chain.
\<close>
theorem chain_walked_in_order:
  assumes "distinct (services_of spec)" and "i < length (services_of spec)"
  shows "\<exists>p. scan_chain (services_of spec ! i) spec [] [] False =
    (p, last ([] # filter is_proto (takeWhile (\<lambda>t. t \<noteq> services_of spec ! i) spec)),
     if Suc i < length (services_of spec) then services_of spec ! Suc i else [], True)"
  using assms by (rule scan_distinct)

text \<open>Witness of C20: the example of the source, \<open>/tcp/service1/service2/udp/service3\<close>, at its second service.\<close>
theorem chain_walked_in_order_witness:
  "\<exists>p. scan_chain ''service2'' [''tcp'', ''service1'', ''service2'', ''udp'', ''service3''] [] [] False = (p, ''tcp'', ''service3'', True)"
  using chain_walked_in_order [of "[''tcp'', ''service1'', ''service2'', ''udp'', ''service3'']" 1]
  by (simp add: services_of_def is_proto_def)

text \<open>
  A specification that comes back to a service is routed in a circle: the handler of the second service forwards to the first, which forwards to the second again.
\<close>

lemma looped_chain_circles:
  assumes "services_of spec = a # b # a # rest" and "a \<noteq> b" and "a \<noteq> []"
  shows "next_of spec a = b \<and> next_of spec b = a"
proof -
  have go: "s \<noteq> v \<Longrightarrow> \<not> is_proto s \<Longrightarrow> services_of toks = v # rest \<Longrightarrow> fst (snd (snd (scan_chain s toks tp this True))) = v"
    for s toks v rest tp this
    by (induction toks arbitrary: tp this) (auto simp: services_of_def is_proto_def split: if_splits)
  have at: "\<not> is_proto s \<Longrightarrow> services_of toks = s # v # rest \<Longrightarrow> s \<noteq> v \<Longrightarrow> fst (snd (snd (scan_chain s toks tp this False))) = v"
    for s toks v rest tp this
    by (induction toks arbitrary: tp this) (auto simp: services_of_def is_proto_def go [unfolded services_of_def is_proto_def] split: if_splits)
  have skip: "\<not> is_proto s \<Longrightarrow> services_of toks = u # s # v # rest \<Longrightarrow> s \<noteq> u \<Longrightarrow> s \<noteq> v \<Longrightarrow>
      fst (snd (snd (scan_chain s toks tp this False))) = v" for s u toks v rest tp this
    by (induction toks arbitrary: tp this)
      (auto simp: services_of_def is_proto_def at [unfolded services_of_def is_proto_def] split: if_splits)
  have "\<not> is_proto a" "\<not> is_proto b" using assms(1) services_not_proto [of _ spec] by auto
  with assms at skip show ?thesis by (auto simp: next_of_def)
qed

section \<open>A concrete world\<close>

text \<open>
  A world that is the log of the messages sent. Every service is known and has one peer; streams open as number 8. A request for the chain \<open>/tcp/a/b\<close> waits on stream 5, the acknowledgement
  of \<open>b\<close> on stream 8. The peer answers pings until three entries are in the log; a tick adds one.
\<close>

definition demo_chain :: "(stream \<times> ChainMsg) list chain_ops" where
  "demo_chain = (tunnel_ops.extend null_tunnel (chain_ops.fields (\<lambda>w. w @ [(0, \<lparr>mType = MsgError, mData = []\<rparr>)]) (\<lambda>s w. w)))\<lparr>
     GetServiceWithHostRouting := (\<lambda>n w. ((demo_info n, None), w)),
     FindPeers := (\<lambda>n w. ((1, None), w)), SortPeers := (\<lambda>c w. ([demo_alloc ''peer'' 50], w)),
     Ping := (\<lambda>d p w. (if length w < 3 then 50 else 0, w)),
     NewStream := (\<lambda>p q w. ((8, None), w)),
     MsgSend := (\<lambda>s m w. (None, w @ [(s, m)])),
     MsgRecv := (\<lambda>s w. ((if s = 5 then \<lparr>mType = SetupRequest, mData = demo_gob_encode [''tcp'', ''a'', ''b'']\<rparr>
        else \<lparr>mType = SetupACK, mData = REV_CHAIN_MSG_PREFIX @ ''b''\<rparr>, None), w))\<rparr>"

lemma demo_chain_simps [simp]:
  "GetServiceWithHostRouting demo_chain n w = ((demo_info n, None), w)" "Now demo_chain w = (0, w)"
  "FindPeers demo_chain n w = ((1, None), w)" "SortPeers demo_chain c w = ([demo_alloc ''peer'' 50], w)"
  "Ping demo_chain d p w = (if length w < 3 then 50 else 0, w)" "NewStream demo_chain p q w = ((8, None), w)"
  "MsgSend demo_chain s m w = (None, w @ [(s, m)])" "GobDecode demo_chain = demo_gob_decode []" "GobEncode demo_chain = demo_gob_encode"
  "MsgRecv demo_chain s w = ((if s = 5 then \<lparr>mType = SetupRequest, mData = demo_gob_encode [''tcp'', ''a'', ''b'']\<rparr>
     else \<lparr>mType = SetupACK, mData = REV_CHAIN_MSG_PREFIX @ ''b''\<rparr>, None), w)"
  "LessThan demo_chain x y = (RTT x < RTT y)" "TickerWait demo_chain w = w @ [(0, \<lparr>mType = MsgError, mData = []\<rparr>)]"
  "StreamConnClose demo_chain s w = w" "SetProtocol demo_chain s q w = w" "Attempt demo_chain b w = Some (False, w)"
  "ResolveTCPAddr demo_chain e w = ((e, None), w)" "DialTCP demo_chain a w = ((1, None), w)"
  by (simp_all add: demo_chain_def null_tunnel_def tunnel_ops.defs chain_ops.defs)

lemma demo_chain_backoff: "bounded_backoff demo_chain (\<lambda>b w. 0)"
  by (auto simp: bounded_backoff_def intro: exI [of _ False])

lemma demo_chain_resolves:
  assumes "n = ''a'' \<or> n = ''b''"
  shows "\<exists>rc1 pc1. resolveService (demo_chain\<lparr>MsgRecv := f\<rparr>) n (NewRegistryCache 60) demo_cache [] = Some ((''peer'', demo_info n, None), rc1, pc1, [])"
proof -
  let ?E = "demo_chain\<lparr>MsgRecv := f\<rparr>"
  obtain rc1 where g: "GetOrRequestService ?E (NewRegistryCache 60) n [] = ((demo_info n, None), rc1, [])"
    by (simp add: GetOrRequestService_def Get_def Add_def NewRegistryCache_def)
  have "GetPeer demo_cache (''h-'' @ n) = Some ([], Some ''No suitable peer found in cache'')"
    using assms by (subst GetPeer_3) (auto simp: demo_cache_def demo_peer_def)
  moreover have "findOrAllocate_loop ?E (''h-'' @ n) (''d-'' @ n) \<lparr>RTT = 100\<rparr> 3 [] e [] = Some ((''peer'', None), [])" for e
    by (simp add: numeral_3_eq_3 findOrAllocate_body_def FindService_def demo_alloc_def)
  moreover obtain pc1 where "AddPeer demo_cache (found_peer ''peer'' n (demo_info n)) = Some pc1"
    using pc.add_ok [OF demo_cache_ok] by blast
  ultimately have "findOrAllocate ?E n (demo_info n) demo_cache [] = Some ((''peer'', None), pc1, [])"
    by (simp add: findOrAllocate_def demo_info_def)
  with g show ?thesis by (simp add: resolveService_def)
qed

section \<open>Properties of the handlers\<close>

text \<open>What follows the acknowledgement at the end and in the middle of a chain.\<close>

definition end_tunnel :: "('w, 'z) chain_ops_scheme \<Rightarrow> string \<Rightarrow> string \<Rightarrow> stream \<Rightarrow> 'w \<Rightarrow> goroutine list \<times> 'w" where
  "end_tunnel E proto ep s w =
     (if proto = ''udp'' then udpEndChainHandler E ep s (SetProtocol E s udpTunnelProtoID w)
      else if proto = ''tcp'' then tcpEndChainHandler E ep s (SetProtocol E s tcpTunnelProtoID w) else ([], w))"

definition mid_tunnel :: "('w, 'z) chain_ops_scheme \<Rightarrow> string \<Rightarrow> string \<Rightarrow> stream \<Rightarrow> stream \<Rightarrow> 'w \<Rightarrow> goroutine list \<times> 'w" where
  "mid_tunnel E proto ep s t w =
     (if proto = ''udp'' then udpMidChainHandler E ep s t (SetProtocol E t udpTunnelProtoID w)
      else if proto = ''tcp'' then tcpMidChainHandler E ep s t (SetProtocol E t tcpTunnelProtoID w) else ([], w))"

lemma chainSetupHandler_end:
  assumes "receiveSetupRequest E s w = ((spec, nil_error), w1)" and "scan_chain me spec [] [] False = (p, proto, [], True)"
    and "MsgSend E s \<lparr>mType = SetupACK, mData = REV_CHAIN_MSG_PREFIX @ me\<rparr> w1 = (nil_error, w2)"
  shows "chainSetupHandler E me ep s rc pc w = Some (rc, pc, end_tunnel E proto ep s w2)"
  using assms by (simp add: chainSetupHandler_def send_simps end_tunnel_def split: prod.split)

lemma chainSetupHandler_mid:
  assumes "receiveSetupRequest E s w = ((spec, nil_error), w1)" and "scan_chain me spec [] [] False = (p, proto, nxt, True)" and "nxt \<noteq> []"
    and "resolveService E nxt rc pc w1 = Some ((pid, info, nil_error), rc1, pc1, w2)"
    and "NewStream E pid chainSetupProtoID w2 = ((out, nil_error), w3)"
    and "MsgSend E out \<lparr>mType = SetupRequest, mData = GobEncode E spec\<rparr> w3 = (nil_error, w4)"
    and "MsgRecv E out w4 = ((\<lparr>mType = SetupACK, mData = txt\<rparr>, nil_error), w5)"
    and "MsgSend E s \<lparr>mType = SetupACK, mData = mid_ack me txt\<rparr> w5 = (e, w6)"
    and "mid_tunnel E proto ep s out w6 = (gs, w7)"
  shows "chainSetupHandler E me ep s rc pc w = Some (rc1, pc1, Go_connQualMonitor pid info s # gs, w7)"
  using assms ack.accepts [OF assms(7)]
  by (auto simp: chainSetupHandler_def createStream_def send_simps mid_tunnel_def split: prod.splits if_splits)

text \<open>
  C19. One hop of a chain setup: the proxy of service \<open>i\<close> of a repetition-free specification forwards the specification unchanged to a peer of service \<open>i + 1\<close>, waits
  for its acknowledgement, acknowledges upstream with \<open>mid_ack\<close> of the text it received, and starts the data forwarders of the protocol in force at its place, beside the connection
  monitor. The proxy of the last service acknowledges with its own name and starts the forwarders to its service.
\<close>
theorem chain_setup_hop:
  assumes "receiveSetupRequest E s w = ((spec, nil_error), w1)" and "distinct (services_of spec)" and "[] \<notin> set (services_of spec)"
    and "i < length (services_of spec)" and "me = services_of spec ! i"
    and "proto = last ([] # filter is_proto (takeWhile (\<lambda>t. t \<noteq> me) spec))"
  shows "(Suc i = length (services_of spec) \<longrightarrow>
      (\<forall>w2. MsgSend E s \<lparr>mType = SetupACK, mData = REV_CHAIN_MSG_PREFIX @ me\<rparr> w1 = (nil_error, w2) \<longrightarrow>
        chainSetupHandler E me ep s rc pc w = Some (rc, pc, end_tunnel E proto ep s w2))) \<and>
    (Suc i < length (services_of spec) \<longrightarrow>
      (\<forall>pid info rc1 pc1 w2 out w3 w4 txt w5 e w6 gs w7.
        resolveService E (services_of spec ! Suc i) rc pc w1 = Some ((pid, info, nil_error), rc1, pc1, w2) \<longrightarrow>
        NewStream E pid chainSetupProtoID w2 = ((out, nil_error), w3) \<longrightarrow>
        MsgSend E out \<lparr>mType = SetupRequest, mData = GobEncode E spec\<rparr> w3 = (nil_error, w4) \<longrightarrow>
        MsgRecv E out w4 = ((\<lparr>mType = SetupACK, mData = txt\<rparr>, nil_error), w5) \<longrightarrow>
        MsgSend E s \<lparr>mType = SetupACK, mData = mid_ack me txt\<rparr> w5 = (e, w6) \<longrightarrow>
        mid_tunnel E proto ep s out w6 = (gs, w7) \<longrightarrow>
        chainSetupHandler E me ep s rc pc w = Some (rc1, pc1, Go_connQualMonitor pid info s # gs, w7)))"
proof -
  from scan_distinct [OF assms(2,4)] assms(5,6) obtain p where
    sc: "scan_chain me spec [] [] False = (p, proto, if Suc i < length (services_of spec) then services_of spec ! Suc i else [], True)"
    by auto
  have "services_of spec ! Suc i \<noteq> []" if "Suc i < length (services_of spec)" using that assms(3) by (metis nth_mem)
  with sc chainSetupHandler_end [OF assms(1)] chainSetupHandler_mid [OF assms(1)] show ?thesis
    by (intro conjI impI allI) auto
qed

text \<open>Witness of C19: the proxy of \<open>a\<close> in \<open>/tcp/a/b\<close> sends the request on and acknowledges \<open>Reverse chain: b a\<close>.\<close>
theorem chain_setup_hop_witness:
  "\<exists>rc pc gs. chainSetupHandler demo_chain ''a'' ''127.0.0.1:80'' 5 (NewRegistryCache 60) demo_cache [] =
     Some (rc, pc, gs, [(8, \<lparr>mType = SetupRequest, mData = demo_gob_encode [''tcp'', ''a'', ''b'']\<rparr>),
                        (5, \<lparr>mType = SetupACK, mData = REV_CHAIN_MSG_PREFIX @ ''b a''\<rparr>)])"
proof -
  let ?spec = "[''tcp'', ''a'', ''b'']"
  have ss: "services_of ?spec = [''a'', ''b'']" by (simp add: services_of_def is_proto_def)
  have rq: "receiveSetupRequest demo_chain 5 [] = ((?spec, None), [])"
    by (subst req.received_iff) (simp add: demo_gob_roundtrip)
  have d: "distinct (services_of ?spec)" "[] \<notin> set (services_of ?spec)" "0 < length (services_of ?spec)" "''a'' = services_of ?spec ! 0"
    by (simp_all add: ss)
  have p: "''tcp'' = last ([] # filter is_proto (takeWhile (\<lambda>t. t \<noteq> ''a'') ?spec))" by (simp add: is_proto_def)
  obtain rc1 pc1 where r: "resolveService demo_chain ''b'' (NewRegistryCache 60) demo_cache [] = Some ((''peer'', demo_info ''b'', None), rc1, pc1, [])"
    using demo_chain_resolves [of "''b''" "MsgRecv demo_chain"] by auto
  show ?thesis
    using chain_setup_hop [OF rq d p, of "''127.0.0.1:80''" "NewRegistryCache 60" demo_cache] r
    by (simp add: ss mid_ack_def mid_tunnel_def tcpMidChainHandler_def)
qed

text \<open>The world before round \<open>n\<close> of the monitor, if the rounds before it were good.\<close>

fun monitor_world :: "('w, 'z) chain_ops_scheme \<Rightarrow> peer_id \<Rightarrow> ServiceInfo \<Rightarrow> nat \<Rightarrow> 'w \<Rightarrow> 'w" where
  "monitor_world E pid info 0 w = w"
| "monitor_world E pid info (Suc n) w =
     monitor_world E pid info n (TickerWait E (snd (Ping E (RTT (NetworkHardReq info)) pid w)))"

definition bad_round :: "('w, 'z) chain_ops_scheme \<Rightarrow> peer_id \<Rightarrow> ServiceInfo \<Rightarrow> nat \<Rightarrow> 'w \<Rightarrow> bool" where
  "bad_round E pid info n w \<longleftrightarrow>
     bad_ping E info (fst (Ping E (RTT (NetworkHardReq info)) pid (monitor_world E pid info n w)))"

lemma connQualMonitor_stops:
  assumes "\<forall>k < n. \<not> bad_round E pid info k w" and "bad_round E pid info n w" and "RemovePeer c pid = Some c'"
  shows "connQualMonitor E pid info s c w =
    Some (c', StreamConnClose E s (snd (Ping E (RTT (NetworkHardReq info)) pid (monitor_world E pid info n w))))"
  using assms
proof (induction n arbitrary: w)
  case 0
  then show ?case
    by (cases "Ping E (RTT (NetworkHardReq info)) pid w") (subst connQualMonitor.simps, simp add: bad_round_def)
next
  case (Suc n)
  obtain rtt w1 where p: "Ping E (RTT (NetworkHardReq info)) pid w = (rtt, w1)" by (metis prod.exhaust)
  from Suc.prems(1) p have good: "\<not> bad_ping E info rtt" by (force simp: bad_round_def dest: spec [of _ 0])
  have "\<forall>k < n. \<not> bad_round E pid info k (TickerWait E w1)"
    using Suc.prems(1) p by (auto simp: bad_round_def dest: spec [of _ "Suc _"])
  moreover have "bad_round E pid info n (TickerWait E w1)" using Suc.prems(2) p by (simp add: bad_round_def)
  ultimately have "connQualMonitor E pid info s c (TickerWait E w1) =
      Some (c', StreamConnClose E s (snd (Ping E (RTT (NetworkHardReq info)) pid (monitor_world E pid info n (TickerWait E w1)))))"
    using Suc.IH Suc.prems(3) by blast
  with p good show ?case by (subst connQualMonitor.simps) simp
qed

lemma connQualMonitor_returned:
  assumes "connQualMonitor E pid info s c w = Some r"
  shows "\<exists>n. bad_round E pid info n w"
  using _ assms
proof (rule connQualMonitor.raw_induct [where P = "\<lambda>E pid info s c w r. \<exists>n. bad_round E pid info n w"])
  fix f E pid info s c w y
  assume IH: "\<And>E pid info s c w y. f E pid info s c w = Some y \<Longrightarrow> \<exists>n. bad_round E pid info n w"
    and step: "(case Ping E (RTT (NetworkHardReq info)) pid w of
        (rtt, w1) \<Rightarrow>
          if bad_ping E info rtt then
            Option.bind (RemovePeer c pid) (\<lambda>peerCache1. Some (peerCache1, StreamConnClose E s w1))
          else f E pid info s c (TickerWait E w1)) = Some y"
  obtain rtt w1 where p: "Ping E (RTT (NetworkHardReq info)) pid w = (rtt, w1)" by (metis prod.exhaust)
  show "\<exists>n. bad_round E pid info n w"
  proof (cases "bad_ping E info rtt")
    case True
    with p have "bad_round E pid info 0 w" by (simp add: bad_round_def)
    then show ?thesis by blast
  next
    case False
    with step p have "f E pid info s c (TickerWait E w1) = Some y" by simp
    with IH obtain n where "bad_round E pid info n (TickerWait E w1)" by blast
    with p have "bad_round E pid info (Suc n) w" by (simp add: bad_round_def)
    then show ?thesis by blast
  qed
qed

text \<open>
  C23. The connection monitor closes a connection at the first bad ping and not before: if the rounds before round \<open>n\<close> are good and round \<open>n\<close> is bad (no answer, or slower than
  the hard requirement), the monitor returns after exactly that ping, the peer has been removed from the cache and the connection closed; and it returns only if some round is bad.
\<close>
theorem connQualMonitor_closes_bad_connection:
  assumes "cache_ok c" and "\<forall>k < n. \<not> bad_round E pid info k w" and "bad_round E pid info n w"
  shows "(\<exists>c'. RemovePeer c pid = Some c' \<and> cache_ok c' \<and>
      connQualMonitor E pid info s c w =
        Some (c', StreamConnClose E s (snd (Ping E (RTT (NetworkHardReq info)) pid (monitor_world E pid info n w))))) \<and>
    (\<forall>v. (\<forall>k. \<not> bad_round E pid info k v) \<longrightarrow> connQualMonitor E pid info s c v = None)"
proof -
  obtain c' where "RemovePeer c pid = Some c'" "cache_ok c'" using pc.rem_ok [OF assms(1)] by blast
  with connQualMonitor_stops [OF assms(2,3)] connQualMonitor_returned [of E pid info s c] show ?thesis
    by (metis not_None_eq)
qed

text \<open>Witness of C23: a peer that answers three pings and then falls silent.\<close>
theorem connQualMonitor_closes_bad_connection_witness:
  "\<exists>c'. RemovePeer demo_cache ''near'' = Some c' \<and>
     connQualMonitor demo_chain ''near'' (demo_info ''web'') 8 demo_cache [] =
       Some (c', replicate 3 (0, \<lparr>mType = MsgError, mData = []\<rparr>))"
proof -
  have "monitor_world demo_chain ''near'' (demo_info ''web'') n w = w @ replicate n (0, \<lparr>mType = MsgError, mData = []\<rparr>)" for n w
    by (induction n arbitrary: w) (auto simp: replicate_append_same)
  note m = this
  have hard: "RTT (NetworkHardReq (demo_info ''web'')) = 1000" by (simp add: demo_info_def)
  have b: "bad_round demo_chain ''near'' (demo_info ''web'') n [] \<longleftrightarrow> 3 \<le> n" for n
    by (auto simp: m hard bad_round_def bad_ping_def)
  have "\<forall>k < 3. \<not> bad_round demo_chain ''near'' (demo_info ''web'') k []" "bad_round demo_chain ''near'' (demo_info ''web'') 3 []"
    by (simp_all add: b)
  from connQualMonitor_closes_bad_connection [OF demo_cache_ok this, of 8] show ?thesis by (auto simp: m)
qed

lemma setupChain_total:
  assumes "rcache_reach E rc" and "cache_ok c" and "bounded_backoff E left"
  shows "\<exists>strm err rc' c' gs w'. setupChain E spec rc c w = Some ((strm, err), rc', c', gs, w') \<and>
    rcache_reach E rc' \<and> cache_ok c' \<and> (strm \<noteq> None \<longleftrightarrow> err = nil_error) \<and>
    (length spec < 2 \<or> hd spec \<notin> {''tcp'', ''udp''} \<longrightarrow> err \<noteq> nil_error \<and> rc' = rc \<and> c' = c \<and> gs = [] \<and> w' = w) \<and>
    (\<forall>s. strm = Some s \<longrightarrow> (\<exists>txt v. MsgRecv E s v = ((\<lparr>mType = SetupACK, mData = txt\<rparr>, nil_error), w')))"
proof (cases "length spec < 2 \<or> hd spec \<notin> {''tcp'', ''udp''}")
  case True
  then have "length spec < 2 \<or> \<not> length spec < 2 \<and> spec ! 0 \<noteq> ''udp'' \<and> spec ! 0 \<noteq> ''tcp''"
    by (cases spec) auto
  with assms(1,2) True show ?thesis by (auto simp: setupChain_def)
next
  case False
  then have ok: "\<not> length spec < 2" "\<not> (spec ! 0 \<noteq> ''udp'' \<and> spec ! 0 \<noteq> ''tcp'')" by (cases spec; auto)+
  obtain pid info err rc' c' w1 where
    r: "resolveService E (spec ! 1) rc c w = Some ((pid, info, err), rc', c', w1)" "rcache_reach E rc'" "cache_ok c'"
    using resolveService_total [OF assms] by blast
  obtain strm serr w2 where n: "NewStream E pid chainSetupProtoID w1 = ((strm, serr), w2)" by (metis prod.exhaust)
  obtain e3 w3 where sd: "MsgSend E strm \<lparr>mType = SetupRequest, mData = GobEncode E spec\<rparr> w2 = (e3, w3)" by (metis prod.exhaust)
  obtain t4 e4 w4 where a: "receiveSetupACK E strm w3 = ((t4, e4), w4)" by (metis prod.exhaust)
  have "\<exists>txt v. MsgRecv E strm v = ((\<lparr>mType = SetupACK, mData = txt\<rparr>, nil_error), w4)" if "e4 = nil_error"
    using a that ack.received_iff [of E strm w3 t4 w4] by auto
  with False ok r n sd a show ?thesis
    by (cases "err = nil_error"; cases "serr = nil_error"; cases "e4 = nil_error")
      (auto simp: setupChain_def createStream_def, blast+)
qed

text \<open>
  C22. \<open>setupChain\<close> answers every chain specification: with a working resolver it returns; it hands out a stream exactly when there is no error; a specification that is too short or whose
  protocol is neither \<open>tcp\<close> nor \<open>udp\<close> is refused without touching caches or network; and a stream is handed out only after a \<open>SetupACK\<close> was received on it.
\<close>
theorem setupChain_outcome:
  assumes "rcache_reach E rc" and "cache_ok c" and "bounded_backoff E left"
  shows "\<exists>strm err rc' c' gs w'. setupChain E spec rc c w = Some ((strm, err), rc', c', gs, w') \<and>
    cache_ok c' \<and> (strm \<noteq> None \<longleftrightarrow> err = nil_error) \<and>
    (length spec < 2 \<or> hd spec \<notin> {''tcp'', ''udp''} \<longrightarrow> err \<noteq> nil_error \<and> rc' = rc \<and> c' = c \<and> gs = [] \<and> w' = w) \<and>
    (\<forall>s. strm = Some s \<longrightarrow> (\<exists>txt v. MsgRecv E s v = ((\<lparr>mType = SetupACK, mData = txt\<rparr>, nil_error), w')))"
  using setupChain_total [OF assms, of spec w] by (elim exE conjE) (intro exI conjI; assumption)

text \<open>Witness of C22: a protocol that is not supported.\<close>
theorem setupChain_outcome_witness:
  "\<exists>strm err rc' c' gs w'. setupChain demo_chain [''sctp'', ''a''] (NewRegistryCache 60) demo_cache [] = Some ((strm, err), rc', c', gs, w') \<and>
     err \<noteq> nil_error \<and> c' = demo_cache"
  using setupChain_outcome [OF rcache_reach.new [of demo_chain 60] demo_cache_ok demo_chain_backoff, of "[''sctp'', ''a'']" "[]"]
  by (auto simp del: split_paired_Ex)

end
