(* ===== verification/Http_Proxy.thy ===== *)
theory Http_Proxy
  imports Resolve "HOL-Library.Signed_Division"
begin

text \<open>
  The HTTP proxy's handlers (\<open>src/proxy/proxy.go\<close>): \<open>httpRequestHandler\<close>, which resolves the service a request names, has it
  answered by a peer and relays the answer, and \<open>httpMetricsHandler\<close>, which reports the seconds since the last serviced request.
\<close>

section \<open>The response writer\<close>

text \<open>
  What a handler does to its \<open>http.ResponseWriter\<close>: header fields in the order they were added (keys as they come, the fields of a parsed response are in
  canonical form already), the status (set by the first \<open>WriteHeader\<close>, by a write without one to 200) and the body.
  \<open>WriteHeader\<close> panics on a code that does not have three digits or is below 100.
\<close>

record ResponseWriter =
  wHeader :: "(string \<times> string) list"
  wStatus :: "int option"
  wBody :: string

definition new_writer :: ResponseWriter where
  "new_writer = \<lparr>wHeader = [], wStatus = None, wBody = ''''\<rparr>"

definition WriteHeader :: "int \<Rightarrow> ResponseWriter \<Rightarrow> ResponseWriter option" where
  "WriteHeader code rw =
     (if code < 100 \<or> 999 < code then None
      else Some (case wStatus rw of None \<Rightarrow> rw\<lparr>wStatus := Some code\<rparr> | Some _ \<Rightarrow> rw))"

definition http_Write :: "string \<Rightarrow> ResponseWriter \<Rightarrow> ResponseWriter" where
  "http_Write s rw =
     (case wStatus rw of
        None \<Rightarrow> rw\<lparr>wStatus := Some 200, wBody := wBody rw @ s\<rparr>
      | Some _ \<Rightarrow> rw\<lparr>wBody := wBody rw @ s\<rparr>)"

definition header_set :: "string \<Rightarrow> string \<Rightarrow> ResponseWriter \<Rightarrow> ResponseWriter" where
  "header_set k v rw = rw\<lparr>wHeader := filter (\<lambda>h. fst h \<noteq> k) (wHeader rw) @ [(k, v)]\<rparr>"

definition header_add :: "string \<Rightarrow> string \<Rightarrow> ResponseWriter \<Rightarrow> ResponseWriter" where
  "header_add k v rw = rw\<lparr>wHeader := wHeader rw @ [(k, v)]\<rparr>"

text \<open>\<open>http.Error\<close>.\<close>

definition http_Error :: "string \<Rightarrow> int \<Rightarrow> ResponseWriter \<Rightarrow> ResponseWriter option" where
  "http_Error msg code rw =
     do {
       rw1 \<leftarrow> WriteHeader code
         (header_set ''X-Content-Type-Options'' ''nosniff''
           (header_set ''Content-Type'' ''text/plain; charset=utf-8'' rw));
       Some (http_Write (msg @ [CHR 0x0A]) rw1)
     }"

section \<open>Relaying a request\<close>

text \<open>The two nested loops that copy the header fields.\<close>

definition copy_headers :: "(string \<times> string list) list \<Rightarrow> ResponseWriter \<Rightarrow> ResponseWriter" where
  "copy_headers hs rw = fold (\<lambda>(k, v). fold (\<lambda>s. header_add k s) v) hs rw"

text \<open>
  The handler. The result is the response written, the two caches, the peers whose removal was handed to a goroutine, and the
  world. \<open>None\<close> is a panic (an index out of range, or the refusal of the status code) or a search that does not return.
\<close>

definition httpRequestHandler :: "('w, 'z) proxy_ops_scheme \<Rightarrow> http_request \<Rightarrow> RegistryCache \<Rightarrow> PeerCache \<Rightarrow> 'w
    \<Rightarrow> (ResponseWriter \<times> RegistryCache \<times> PeerCache \<times> peer_id list \<times> 'w) option" where
  "httpRequestHandler E r registryCache peerCache w =
     (if RequestURI r = '''' then None
      else
        (let tokens = SplitN CHR ''/'' 3 (RequestURI r)
         in do {
           serviceName \<leftarrow> go_index tokens 1;
           (let ((info, err), registryCache1, w1) = GetOrRequestService E registryCache serviceName w
            in if err \<noteq> nil_error then
                 do {
                   rw \<leftarrow> http_Error ''404 Not Found'' 404 new_writer;
                   Some (http_Write (the err @ [CHR 0x0A]) rw, registryCache1, peerCache, [], w1)
                 }
               else
                 do {
                   ((resp, err2), peerCache2, removals, w2) \<leftarrow> runRequest E serviceName info r peerCache w1;
                   (if err2 \<noteq> nil_error then
                      do {
                        rw \<leftarrow> (case resp of
                                Some rs \<Rightarrow> http_Error (''Service error: '' @ Status rs) (StatusCode rs) new_writer
                              | None \<Rightarrow> http_Error ''Service error'' 502 new_writer);
                        Some (rw, registryCache1, peerCache2, removals, w2)
                      }
                    else
                      do {
                        rs \<leftarrow> resp;
                        rw \<leftarrow> WriteHeader (StatusCode rs) (copy_headers (Header rs) new_writer);
                        Some (http_Write (Body rs) rw, registryCache1, peerCache2, removals, w2)
                      })
                 })
         }))"

section \<open>Metrics\<close>

text \<open>\<open>Time.Sub\<close> saturates at the ends of the 64-bit range; division of durations truncates towards zero.\<close>

definition Time_Sub :: "time \<Rightarrow> time \<Rightarrow> duration" where
  "Time_Sub t u = max (- (2 ^ 63)) (min (2 ^ 63 - 1) (t - u))"

definition httpMetricsHandler :: "('w, 'z) world_ops_scheme \<Rightarrow> LCAManager \<Rightarrow> 'w \<Rightarrow> ResponseWriter \<times> 'w" where
  "httpMetricsHandler E manager w =
     (let oldTime = Tolsr manager;
          (t, w1) = Now E w
      in (http_Write (Itoa (Time_Sub t oldTime sdiv Second) @ [CHR 0x0A]) new_writer, w1))"

section \<open>Properties\<close>

lemma Request_answer:
  "Request E pid req w = ((resp, err), w') \<Longrightarrow> (err = nil_error \<longleftrightarrow> resp \<noteq> None)"
  by (auto simp: Request_def Let_def split: prod.splits if_splits)

text \<open>The pages the handler writes: an error page, and the relayed response.\<close>

definition error_page :: "int \<Rightarrow> string \<Rightarrow> ResponseWriter" where
  "error_page code text = \<lparr>wHeader = [(''Content-Type'', ''text/plain; charset=utf-8''), (''X-Content-Type-Options'', ''nosniff'')],
     wStatus = Some code, wBody = text\<rparr>"

definition relayed :: "http_response \<Rightarrow> ResponseWriter" where
  "relayed rs = \<lparr>wHeader = concat (map (\<lambda>(k, vs). map (Pair k) vs) (Header rs)),
     wStatus = Some (StatusCode rs), wBody = Body rs\<rparr>"

lemma http_Error_page: "100 \<le> code \<Longrightarrow> code \<le> 999 \<Longrightarrow> http_Error msg code new_writer = Some (error_page code (msg @ [CHR 0x0A]))"
  by (simp add: http_Error_def WriteHeader_def header_set_def new_writer_def http_Write_def error_page_def)

lemma http_pages [page_simps]:
  "http_Write s (error_page k t) = error_page k (t @ s)" "wStatus (error_page k t) = Some k" "wBody (error_page k t) = t"
  "wStatus (http_Write s new_writer) = Some 200" "wBody (http_Write s new_writer) = s"
  by (simp_all add: http_Write_def error_page_def new_writer_def)

lemma copy_values: "fold (header_add k) vs rw = rw\<lparr>wHeader := wHeader rw @ map (Pair k) vs\<rparr>"
  by (induction vs arbitrary: rw) (auto simp: header_add_def)

lemma copy_headers_concat:
  "copy_headers hs rw = rw\<lparr>wHeader := wHeader rw @ concat (map (\<lambda>(k, vs). map (Pair k) vs) hs)\<rparr>"
  by (induction hs arbitrary: rw) (auto simp: copy_headers_def copy_values)

lemma relay_page:
  "100 \<le> StatusCode rs \<Longrightarrow> StatusCode rs \<le> 999 \<Longrightarrow>
     map_option (http_Write (Body rs)) (WriteHeader (StatusCode rs) (copy_headers (Header rs) new_writer)) = Some (relayed rs)"
  by (simp add: WriteHeader_def copy_headers_concat new_writer_def http_Write_def relayed_def)

text \<open>
  C10. What a client of the HTTP proxy gets for a request \<open>/name/rest\<close>. If the name is unknown: status 404 with the lookup error, and no cache or
  network search. If no peer is found or allocated: status 502. If the chosen peer does not answer: status 502, and that peer is scheduled for removal
  from the cache. Otherwise exactly the peer's answer: its status, its body, and every header field in order.
\<close>
theorem httpRequestHandler_outcome:
  assumes uri: "RequestURI r = ''/'' @ name @ ''/'' @ rest" "CHR ''/'' \<notin> set name"
    and lookup: "GetOrRequestService E rc name w = ((info, err), rc1, w1)"
    and resolve: "runRequest_resolve E name info c w1 = Some (pid, c2, w2)"
    and request: "Request E pid r w2 = ((resp, rerr), w3)"
    and code: "\<And>rs. resp = Some rs \<Longrightarrow> 100 \<le> StatusCode rs \<and> StatusCode rs \<le> 999"
  shows "httpRequestHandler E r rc c w =
    (if err \<noteq> nil_error then
       Some (error_page 404 (''404 Not Found'' @ [CHR 0x0A] @ the err @ [CHR 0x0A]), rc1, c, [], w1)
     else if pid = [] then Some (error_page 502 (''Service error'' @ [CHR 0x0A]), rc1, c2, [], w2)
     else (case resp of
         None \<Rightarrow> Some (error_page 502 (''Service error'' @ [CHR 0x0A]), rc1, c2, [pid], w3)
       | Some rs \<Rightarrow> Some (relayed rs, rc1, c2, [], w3)))"
proof -
  have tok: "go_index (SplitN CHR ''/'' 3 (RequestURI r)) 1 = Some name" "RequestURI r \<noteq> []"
    using uri by (simp_all add: SplitN_3 [simplified])
  have run: "runRequest E name info r c w1 =
      (if pid = [] then Some ((None, Some ''Not found''), c2, [], w2)
       else Some ((resp, rerr), c2, if rerr \<noteq> nil_error then [pid] else [], w3))"
    using resolve request by (simp add: runRequest_def)
  note ans = Request_answer [OF request]
  show ?thesis
  proof (cases "err = nil_error \<and> pid \<noteq> [] \<and> resp \<noteq> None")
    case True
    then obtain rs where rs: "resp = Some rs" by blast
    with code have "100 \<le> StatusCode rs \<and> StatusCode rs \<le> 999" by simp
    then obtain rw where "WriteHeader (StatusCode rs) (copy_headers (Header rs) new_writer) = Some rw"
        "http_Write (Body rs) rw = relayed rs"
      using relay_page by fastforce
    with True rs ans tok lookup run show ?thesis by (simp add: httpRequestHandler_def)
  next
    case False
    with ans tok lookup run show ?thesis
      by (cases resp) (auto simp: httpRequestHandler_def http_Error_page page_simps)
  qed
qed

text \<open>Witness of C10: \<open>/web/index\<close>, answered by the cached near peer.\<close>
theorem httpRequestHandler_outcome_witness:
  "\<exists>rc' c' w'. httpRequestHandler demo_proxy \<lparr>RequestURI = ''/web/index'', ReqRest = ''''\<rparr> (NewRegistryCache 3600) demo_cache 0 =
     Some (\<lparr>wHeader = [], wStatus = Some 200, wBody = ''hello''\<rparr>, rc', c', [], w')"
proof -
  let ?r = "\<lparr>RequestURI = ''/web/index'', ReqRest = ''''\<rparr>"
  have u: "RequestURI ?r = ''/'' @ ''web'' @ ''/'' @ ''index''" "CHR ''/'' \<notin> set ''web''" by simp_all
  obtain rc1 where l: "GetOrRequestService demo_proxy (NewRegistryCache 3600) ''web'' 0 = ((demo_info ''web'', None), rc1, 1000000)"
    by (simp add: GetOrRequestService_def Get_def Add_def NewRegistryCache_def demo_proxy_def demo_lca_def demo_ops_def)
  have g: "GetPeer demo_cache ''h-web'' = Some (''near'', None)"
    by (subst GetPeer_3) (auto simp: demo_cache_def demo_peer_def)
  have s: "runRequest_resolve demo_proxy ''web'' (demo_info ''web'') demo_cache 1000000 = Some (''near'', demo_cache, 1000000)"
    by (simp add: runRequest_resolve_def g demo_info_def)
  have q: "Request demo_proxy ''near'' ?r 1000000 = ((Some demo_response, None), 1000000)"
    by (simp add: Request_def demo_proxy_def demo_lca_def)
  from httpRequestHandler_outcome [OF u l s q] show ?thesis
    by (simp add: demo_response_def relayed_def)
qed

lemma SplitN_slash: "\<exists>t. go_index (SplitN CHR ''/'' 3 (CHR ''/'' # s)) 1 = Some t"
proof -
  have "SplitN CHR ''/'' 3 (CHR ''/'' # s) = [] # SplitN CHR ''/'' 2 s"
    by (simp add: numeral_3_eq_3 numeral_2_eq_2)
  moreover have "length (SplitN CHR ''/'' 2 s) > 0"
    by (simp add: numeral_2_eq_2 split: list.split)
  ultimately show ?thesis by (auto simp: go_index_def)
qed

text \<open>
  The one way the handler is brought down by a request: the name is known, a peer is found, and the peer's answer carries a status code that
  \<open>WriteHeader\<close> refuses.
\<close>

definition answer_refused :: "('w, 'z) proxy_ops_scheme \<Rightarrow> http_request \<Rightarrow> RegistryCache \<Rightarrow> PeerCache \<Rightarrow> 'w \<Rightarrow> bool" where
  "answer_refused E r rc c w \<longleftrightarrow> (\<exists>name info rc1 w1 pid c2 w2 rs w3.
     go_index (SplitN CHR ''/'' 3 (RequestURI r)) 1 = Some name \<and>
     GetOrRequestService E rc name w = ((info, nil_error), rc1, w1) \<and>
     runRequest_resolve E name info c w1 = Some (pid, c2, w2) \<and> pid \<noteq> [] \<and>
     Request E pid r w2 = ((Some rs, nil_error), w3) \<and> (StatusCode rs < 100 \<or> 999 < StatusCode rs))"

text \<open>
  C11. Whether the HTTP proxy answers a request: for a request URI that begins with a slash, on a well-formed peer cache and with a backoff
  that grants finitely many attempts, the handler returns with a status written and a well-formed cache, unless the chosen peer answers
  with a status code below 100 (or above 999). Then, and only then, it panics: the code comes from another host, nothing between
  \<open>ReadResponse\<close>, which accepts any three digits, and \<open>WriteHeader\<close> checks it, and \<open>WriteHeader\<close> panics on it.
\<close>
theorem httpRequestHandler_returns:
  assumes "RequestURI r = CHR ''/'' # s" and "cache_ok c" and "bounded_backoff E left"
  shows "(httpRequestHandler E r rc c w = None \<longleftrightarrow> answer_refused E r rc c w) \<and>
    (\<forall>rw rc' c' rem w'. httpRequestHandler E r rc c w = Some (rw, rc', c', rem, w') \<longrightarrow> wStatus rw \<noteq> None \<and> cache_ok c')"
proof -
  obtain name where tok: "go_index (SplitN CHR ''/'' 3 (RequestURI r)) 1 = Some name" "RequestURI r \<noteq> []"
    using SplitN_slash assms(1) by fastforce
  obtain info err rc1 w1 where l: "GetOrRequestService E rc name w = ((info, err), rc1, w1)" by (metis prod.exhaust)
  obtain pid c2 w2 where s: "runRequest_resolve E name info c w1 = Some (pid, c2, w2)" and ok: "cache_ok c2"
    using runRequest_resolve_total [OF assms(2,3)] by blast
  obtain resp rerr w3 where q: "Request E pid r w2 = ((resp, rerr), w3)" by (metis prod.exhaust)
  have refused: "answer_refused E r rc c w \<longleftrightarrow>
      err = nil_error \<and> pid \<noteq> [] \<and> (case resp of None \<Rightarrow> False | Some rs \<Rightarrow> StatusCode rs < 100 \<or> 999 < StatusCode rs)"
    using tok l s q Request_answer [OF q] by (auto simp: answer_refused_def split: option.split)
  have run: "runRequest E name info r c w1 =
      (if pid = [] then Some ((None, Some ''Not found''), c2, [], w2)
       else Some ((resp, rerr), c2, if rerr \<noteq> nil_error then [pid] else [], w3))"
    using s q by (simp add: runRequest_def)
  show ?thesis
    using tok l run ok assms(2) Request_answer [OF q] refused
    by (cases resp; cases "err = nil_error \<and> pid \<noteq> []")
      (auto simp: httpRequestHandler_def http_Error_page page_simps WriteHeader_def http_Write_def split: if_splits option.splits)
qed

lemma demo_resolve_web:
  "runRequest_resolve E ''web'' (demo_info ''web'') demo_cache w = Some (''near'', demo_cache, w)"
proof -
  have "GetPeer demo_cache ''h-web'' = Some (''near'', None)"
    by (subst GetPeer_3) (auto simp: demo_cache_def demo_peer_def)
  then show ?thesis by (simp add: runRequest_resolve_def demo_info_def)
qed

text \<open>Witness of C11: a request for a service that cannot be started is answered; the peer of \<open>web\<close> brings the handler down with status 99.\<close>
theorem httpRequestHandler_returns_witness:
  "(\<exists>rw rc' c' rem w'. httpRequestHandler demo_proxy \<lparr>RequestURI = ''/db'', ReqRest = ''''\<rparr> (NewRegistryCache 3600) (fst (NewPeerCache None)) 0 =
     Some (rw, rc', c', rem, w') \<and> wStatus rw \<noteq> None \<and> cache_ok c') \<and>
   httpRequestHandler (demo_proxy\<lparr>ReadResponse := \<lambda>buf req. (demo_response\<lparr>StatusCode := 99\<rparr>, None)\<rparr>)
     \<lparr>RequestURI = ''/web/index'', ReqRest = ''''\<rparr> (NewRegistryCache 3600) demo_cache 0 = None"
proof -
  let ?E = "demo_proxy\<lparr>ReadResponse := \<lambda>buf req. (demo_response\<lparr>StatusCode := 99\<rparr>, None)\<rparr>"
  let ?db = "\<lparr>RequestURI = ''/db'', ReqRest = ''''\<rparr>" and ?web = "\<lparr>RequestURI = ''/web/index'', ReqRest = ''''\<rparr>"
  have u: "RequestURI ?db = CHR ''/'' # ''db''" "RequestURI ?web = CHR ''/'' # ''web/index''" by simp_all
  have code: "StatusCode rs = 200" if "Request demo_proxy pid ?db v = ((Some rs, nil_error), v')" for pid v rs v'
    using that by (auto simp: Request_def demo_proxy_def demo_lca_def demo_response_def split: if_splits)
  have "\<not> answer_refused demo_proxy ?db (NewRegistryCache 3600) (fst (NewPeerCache None)) 0"
    using code unfolding answer_refused_def by fastforce
  with httpRequestHandler_returns [OF u(1) cache_ok_New demo_bounded, of "NewRegistryCache 3600" None 0]
  have 1: "\<exists>rw rc' c' rem w'. httpRequestHandler demo_proxy ?db (NewRegistryCache 3600) (fst (NewPeerCache None)) 0 =
      Some (rw, rc', c', rem, w') \<and> wStatus rw \<noteq> None \<and> cache_ok c'"
    by (metis option.exhaust prod.exhaust)
  have b: "bounded_backoff ?E demo_left" using demo_bounded by (simp add: bounded_backoff_def)
  have t: "go_index (SplitN CHR ''/'' 3 (RequestURI ?web)) 1 = Some ''web''" by code_simp
  obtain rc1 where l: "GetOrRequestService ?E (NewRegistryCache 3600) ''web'' 0 = ((demo_info ''web'', None), rc1, 1000000)"
    by (simp add: GetOrRequestService_def Get_def Add_def NewRegistryCache_def demo_proxy_def demo_lca_def demo_ops_def)
  have q: "Request ?E ''near'' ?web 1000000 = ((Some (demo_response\<lparr>StatusCode := 99\<rparr>), None), 1000000)"
    by (simp add: Request_def demo_proxy_def demo_lca_def)
  have "answer_refused ?E ?web (NewRegistryCache 3600) demo_cache 0"
    unfolding answer_refused_def using t l demo_resolve_web [of ?E 1000000] q by fastforce
  with httpRequestHandler_returns [OF u(2) demo_cache_ok b] 1 show ?thesis by blast
qed

section \<open>What the metrics endpoint says\<close>

lemma Time_Sub_range: "- (2 ^ 63) \<le> Time_Sub t u \<and> Time_Sub t u < 2 ^ 63"
  by (simp add: Time_Sub_def)

lemma sdiv_Second_range:
  assumes "- (2 ^ 63) \<le> d" and "d < 2 ^ 63"
  shows "- (2 ^ 63) \<le> d sdiv Second \<and> d sdiv Second < 2 ^ 63"
proof -
  have "\<bar>d\<bar> div Second \<le> 2 ^ 63 div Second" using assms by (intro zdiv_mono1) (auto simp: Second_def)
  then have "\<bar>d\<bar> div Second < 2 ^ 62" by (simp add: Second_def)
  moreover have "0 \<le> \<bar>d\<bar> div Second" by (simp add: Second_def pos_imp_zdiv_nonneg_iff)
  moreover have "d sdiv Second = sgn d * (\<bar>d\<bar> div Second)" by (simp add: signed_divide_int_def Second_def)
  ultimately show ?thesis by (cases "0 < d"; cases "d = 0") auto
qed

lemma metrics_parse:
  "ParseInt64 (TrimSpace (wBody (fst (httpMetricsHandler E m w)))) = Some (Time_Sub (fst (Now E w)) (Tolsr m) sdiv Second)"
  using sdiv_Second_range [OF Time_Sub_range [THEN conjunct1] Time_Sub_range [THEN conjunct2]]
  by (simp add: httpMetricsHandler_def http_Write_def new_writer_def split_def Let_def ParseInt64_printed_line)

lemma idle_over_60: "60 < Time_Sub t u sdiv Second \<longleftrightarrow> 61 * Second \<le> t - u"
proof (cases "0 \<le> t - u")
  case True
  then have "Time_Sub t u sdiv Second = min (2 ^ 63 - 1) (t - u) div Second"
    by (simp add: Time_Sub_def signed_divide_int_def Second_def sgn_if)
  moreover have "60 < x div Second \<longleftrightarrow> 61 * Second \<le> x" for x
    by (simp add: Second_def) linarith
  ultimately show ?thesis by (auto simp: Second_def min_def)
next
  case False
  then have "Time_Sub t u < 0" by (simp add: Time_Sub_def)
  then have "Time_Sub t u sdiv Second \<le> 0"
    by (simp add: signed_divide_int_def Second_def pos_imp_zdiv_nonneg_iff)
  with False show ?thesis by (simp add: Second_def)
qed

end
