(* ===== verification/Control.thy ===== *)
theory Control
  imports Chain_Setup Http_Proxy
begin

text \<open>
  The control plane of the layer-4 proxy: the HTTP endpoint \<open>requestHandler\<close> (\<open>src/l4-proxy/l4-proxy.go\<close>), the opening of local listening ports for a chain (\<open>openTCPProxy\<close>,
  \<open>openUDPProxy\<close>), and the accept loop with the per-connection set-up of the TCP side (\<open>src/l4-proxy/tcp-proxy.go\<close>). The state is the map \<open>serv2Fwd\<close> from
  chain keys to forwarders.
\<close>

section \<open>State and operations of the world\<close>

text \<open>A forwarder: its address, and which of its two workers is not nil.\<close>

record Forwarder =
  ListenAddr :: string
  tcpWorker :: bool
  udpWorker :: bool

type_synonym listener = nat

text \<open>\<open>net.Listen\<close> and \<open>net.ListenUDP\<close>, each with the address the new socket is bound to.\<close>

record 'w control_ops = "'w chain_ops" +
  Listen :: "string \<Rightarrow> 'w \<Rightarrow> ((listener \<times> string) \<times> error option) \<times> 'w"
  ListenUDP :: "addr \<Rightarrow> 'w \<Rightarrow> ((conn \<times> string) \<times> error option) \<times> 'w"

datatype worker =
    Go_tcpServiceProxy listener "string list"
  | Go_udpServiceProxy conn "string list"
  | Go_tcpFwdConnToServ conn "string list"

definition ctrlHost :: string where
  "ctrlHost = ''127.0.0.1''"

section \<open>Opening a proxy for a chain\<close>

definition openTCPProxy :: "('w, 'z) control_ops_scheme \<Rightarrow> string list \<Rightarrow> (string \<rightharpoonup> Forwarder) \<Rightarrow> 'w
    \<Rightarrow> (string \<times> error option) \<times> (string \<rightharpoonup> Forwarder) \<times> worker list \<times> 'w" where
  "openTCPProxy E chainSpec serv2Fwd w =
     (let serviceKey = Join ''/'' chainSpec
      in case serv2Fwd serviceKey of
           None \<Rightarrow>
             (let (((listen, listenAddr), err), w1) = Listen E (ctrlHost @ '':'') w
              in if err \<noteq> nil_error then (('''', Some (''Unable to open TCP listening port'' @ [CHR 0x0A])), serv2Fwd, [], w1)
                 else ((listenAddr, nil_error),
                       serv2Fwd(serviceKey \<mapsto> \<lparr>ListenAddr = listenAddr, tcpWorker = True, udpWorker = False\<rparr>),
                       [Go_tcpServiceProxy listen chainSpec], w1))
         | Some fwd \<Rightarrow> ((ListenAddr fwd, nil_error), serv2Fwd, [], w))"

definition openUDPProxy :: "('w, 'z) control_ops_scheme \<Rightarrow> string list \<Rightarrow> (string \<rightharpoonup> Forwarder) \<Rightarrow> 'w
    \<Rightarrow> (string \<times> error option) \<times> (string \<rightharpoonup> Forwarder) \<times> worker list \<times> 'w" where
  "openUDPProxy E chainSpec serv2Fwd w =
     (let servChainKey = Join ''/'' chainSpec
      in case serv2Fwd servChainKey of
           None \<Rightarrow>
             (let ((udpAddr, err), w1) = ResolveUDPAddr E (ctrlHost @ '':'') w
              in if err \<noteq> nil_error then
                   (('''', Some (''Unable to resolve UDP address'' @ [CHR 0x0A] @ the err @ [CHR 0x0A])), serv2Fwd, [], w1)
                 else
                   (let (((lConn, listenAddr), err2), w2) = ListenUDP E udpAddr w1
                    in if err2 \<noteq> nil_error then
                         (('''', Some (''Unable to open UDP listening port'' @ [CHR 0x0A])), serv2Fwd, [], w2)
                       else ((listenAddr, nil_error),
                             serv2Fwd(servChainKey \<mapsto> \<lparr>ListenAddr = listenAddr, tcpWorker = False, udpWorker = True\<rparr>),
                             [Go_udpServiceProxy lConn chainSpec], w2)))
         | Some fwd \<Rightarrow> ((ListenAddr fwd, nil_error), serv2Fwd, [], w))"

section \<open>The control endpoint\<close>

record ctrl_request =
  rPath :: string
  rRawQuery :: string

definition bad_request :: "ResponseWriter option" where
  "bad_request = http_Error ''Bad Request'' 400 new_writer"

definition requestHandler :: "('w, 'z) control_ops_scheme \<Rightarrow> ctrl_request \<Rightarrow> (string \<rightharpoonup> Forwarder) \<Rightarrow> 'w
    \<Rightarrow> (ResponseWriter \<times> (string \<rightharpoonup> Forwarder) \<times> worker list \<times> 'w) option" where
  "requestHandler E r serv2Fwd w =
     (if rRawQuery r \<noteq> '''' then do { rw \<leftarrow> bad_request; Some (rw, serv2Fwd, [], w) }
      else
        (let chainSpec = splitURIPath (rPath r)
         in if length chainSpec < 2 then
              do {
                rw \<leftarrow> bad_request;
                Some (http_Write (''Error: Incorrect API usage, expecting a protocol ('' @ quoted ''tcp'' @ '' or '' @ quoted ''udp'' @
                   '') and a service name.'' @ [CHR 0x0A] @ ''e.g. http://'' @ ctrlHost @ ''/tcp/name-of-service'' @ [CHR 0x0A]) rw,
                  serv2Fwd, [], w)
              }
            else
              (let tpProto = chainSpec ! 0
               in if tpProto \<noteq> ''udp'' \<and> tpProto \<noteq> ''tcp'' then
                    do {
                      rw \<leftarrow> bad_request;
                      Some (http_Write (''Error: Expecting protocol to be either '' @ quoted ''tcp'' @ '' or '' @ quoted ''udp'' @ [CHR 0x0A]) rw,
                        serv2Fwd, [], w)
                    }
                  else
                    (let ((listenAddr, err), serv2Fwd1, gs, w1) =
                           (if tpProto = ''tcp'' then openTCPProxy E chainSpec serv2Fwd w
                            else openUDPProxy E chainSpec serv2Fwd w)
                     in if err \<noteq> nil_error then
                          do { rw \<leftarrow> http_Error (the err) 500 new_writer; Some (rw, serv2Fwd1, gs, w1) }
                        else Some (http_Write (listenAddr @ [CHR 0x0A]) new_writer, serv2Fwd1, gs, w1)))))"

section \<open>Accepting TCP connections\<close>

text \<open>What \<open>Accept\<close> can give: a connection, the error \<open>EINVAL\<close>, or another error.\<close>

datatype accept_result = Accepted conn | AcceptEINVAL | AcceptFailed

text \<open>The accept loop on a sequence of accept results: the goroutines started, and whether the loop was left and the listener closed.\<close>

fun tcpServiceProxy :: "accept_result list \<Rightarrow> string list \<Rightarrow> worker list \<times> bool" where
  "tcpServiceProxy [] chainSpec = ([], False)"
| "tcpServiceProxy (Accepted c # es) chainSpec =
     (let (ws, closed) = tcpServiceProxy es chainSpec in (Go_tcpFwdConnToServ c chainSpec # ws, closed))"
| "tcpServiceProxy (AcceptEINVAL # es) chainSpec = ([], True)"
| "tcpServiceProxy (AcceptFailed # es) chainSpec = tcpServiceProxy es chainSpec"

text \<open>One accepted connection: set the chain up, then forward in both directions. When the set-up fails the connection is left open.\<close>

definition tcpFwdConnToServ :: "('w, 'z) chain_ops_scheme \<Rightarrow> conn \<Rightarrow> string list \<Rightarrow> RegistryCache \<Rightarrow> PeerCache \<Rightarrow> 'w
    \<Rightarrow> (RegistryCache \<times> PeerCache \<times> goroutine list \<times> 'w) option" where
  "tcpFwdConnToServ E lConn chainSpec registryCache peerCache w =
     do {
       ((rConn, err), registryCache1, peerCache1, gs, w1) \<leftarrow> setupChain E chainSpec registryCache peerCache w;
       (case (rConn, err) of
          (Some strm, None) \<Rightarrow>
            Some (registryCache1, peerCache1, gs @ [Go_tcpFwdConn2Stream lConn strm, Go_tcpFwdStream2Conn strm lConn], w1)
        | _ \<Rightarrow> Some (registryCache1, peerCache1, gs, w1))
     }"

section \<open>The map of forwarders\<close>

text \<open>
  The invariant of \<open>serv2Fwd\<close>: every key is a chain specification in the path syntax that begins with a protocol, and its forwarder has the worker of that protocol and no other.
\<close>

definition spec_ok :: "string list \<Rightarrow> bool" where
  "spec_ok cs \<longleftrightarrow> 2 \<le> length cs \<and> (\<forall>c \<in> set cs. CHR ''/'' \<notin> set c) \<and> (hd cs = ''tcp'' \<or> hd cs = ''udp'')"

definition forwarders_ok :: "(string \<rightharpoonup> Forwarder) \<Rightarrow> bool" where
  "forwarders_ok m \<longleftrightarrow>
     (\<forall>k fwd. m k = Some fwd \<longrightarrow>
        (\<exists>cs. spec_ok cs \<and> k = Join ''/'' cs \<and> tcpWorker fwd = (hd cs = ''tcp'') \<and> udpWorker fwd = (hd cs = ''udp'')))"

lemma spec_key_inject: "spec_ok cs \<Longrightarrow> spec_ok ds \<Longrightarrow> Join ''/'' cs = Join ''/'' ds \<Longrightarrow> cs = ds"
  by (rule Join_inject [of cs ds]) (auto simp: spec_ok_def)

lemma forwarders_ok_upd:
  assumes "forwarders_ok m" and "spec_ok cs" and "tcpWorker fwd = (hd cs = ''tcp'')" and "udpWorker fwd = (hd cs = ''udp'')"
  shows "forwarders_ok (m(Join ''/'' cs \<mapsto> fwd))"
  using assms unfolding forwarders_ok_def by (auto split: if_splits)

definition open_proxy :: "('w, 'z) control_ops_scheme \<Rightarrow> string list \<Rightarrow> (string \<rightharpoonup> Forwarder) \<Rightarrow> 'w
    \<Rightarrow> (string \<times> error option) \<times> (string \<rightharpoonup> Forwarder) \<times> worker list \<times> 'w" where
  "open_proxy E cs m w = (if hd cs = ''tcp'' then openTCPProxy E cs m w else openUDPProxy E cs m w)"

text \<open>
  Opening the socket of a new proxy: its listening address and the one worker started on it, with the chain it serves.
\<close>

definition socket_opened :: "('w, 'z) control_ops_scheme \<Rightarrow> string list \<Rightarrow> 'w \<Rightarrow> string \<Rightarrow> worker \<Rightarrow> 'w \<Rightarrow> bool" where
  "socket_opened E cs w a g w' \<longleftrightarrow>
     (if hd cs = ''tcp'' then (\<exists>l. Listen E (ctrlHost @ '':'') w = (((l, a), nil_error), w') \<and> g = Go_tcpServiceProxy l cs)
      else (\<exists>u w1 c. ResolveUDPAddr E (ctrlHost @ '':'') w = ((u, nil_error), w1) \<and>
              ListenUDP E u w1 = (((c, a), nil_error), w') \<and> g = Go_udpServiceProxy c cs))"

lemma open_proxy_cases:
  assumes "spec_ok cs" and "open_proxy E cs m w = ((a, err), m', gs, w')"
  obtains (old) fwd where "m (Join ''/'' cs) = Some fwd" "a = ListenAddr fwd" "err = nil_error" "m' = m" "gs = []" "w' = w"
  | (new) g where "m (Join ''/'' cs) = None" "err = nil_error"
      "m' = m(Join ''/'' cs \<mapsto> \<lparr>ListenAddr = a, tcpWorker = (hd cs = ''tcp''), udpWorker = (hd cs = ''udp'')\<rparr>)"
      "gs = [g]" "socket_opened E cs w a g w'"
  | (failed) e where "m (Join ''/'' cs) = None" "err = Some e" "m' = m" "gs = []" "a = []"
  using assms
  by (cases "m (Join ''/'' cs)"; cases "hd cs = ''tcp''")
    (auto simp: spec_ok_def open_proxy_def openTCPProxy_def openUDPProxy_def socket_opened_def Let_def split: prod.splits if_splits)

section \<open>Properties\<close>

text \<open>
  C28. A chain has one listening port and one worker: the first request for a chain opens one socket of the chain's protocol, starts exactly one worker of that protocol on it for this chain, and records its
  address; when the chain has a proxy already, the recorded address is returned and nothing is opened, started or changed. So asking for the same chain again, by whichever client, returns the same
  address (the README speaks of a port opened just for the client). Other chains keep their entries, because different specifications have different keys, and a forwarder always has the worker of its chain's protocol.
\<close>
theorem proxy_opened_once:
  assumes "forwarders_ok m" and "spec_ok cs" and "open_proxy E cs m w = ((a, nil_error), m', gs, w')"
  shows "(case m (Join ''/'' cs) of
       Some fwd \<Rightarrow> a = ListenAddr fwd \<and> gs = [] \<and> m' = m \<and> w' = w
     | None \<Rightarrow> m' (Join ''/'' cs) = Some \<lparr>ListenAddr = a, tcpWorker = (hd cs = ''tcp''), udpWorker = (hd cs = ''udp'')\<rparr> \<and>
         (\<exists>g. gs = [g] \<and> socket_opened E cs w a g w')) \<and>
    forwarders_ok m' \<and> open_proxy E cs m' w2 = ((a, nil_error), m', [], w2) \<and>
    (\<forall>ds. spec_ok ds \<longrightarrow> ds \<noteq> cs \<longrightarrow> m' (Join ''/'' ds) = m (Join ''/'' ds))"
  using assms(2,3)
proof (cases rule: open_proxy_cases)
  case (old fwd)
  with assms(1) show ?thesis by (simp add: open_proxy_def openTCPProxy_def openUDPProxy_def)
next
  case (new g)
  from new forwarders_ok_upd [OF assms(1,2)] have "forwarders_ok m'" by simp
  moreover have "m' (Join ''/'' ds) = m (Join ''/'' ds)" if "spec_ok ds" "ds \<noteq> cs" for ds
    using spec_key_inject [OF that(1) assms(2)] that(2) new(3) by auto
  moreover have "open_proxy E cs m' w2 = ((a, nil_error), m', [], w2)"
    using new by (simp add: open_proxy_def openTCPProxy_def openUDPProxy_def)
  ultimately show ?thesis using new by simp
next
  case (failed e)
  then show ?thesis by simp
qed

text \<open>A concrete world in which every port can be opened.\<close>

definition demo_control :: "(stream \<times> ChainMsg) list control_ops" where
  "demo_control = chain_ops.extend demo_chain (control_ops.fields
     (\<lambda>h w. (((1, ''127.0.0.1:40001''), None), w)) (\<lambda>a w. (((2, ''127.0.0.1:40002''), None), w)))"

text \<open>Witness of C28: the chain \<open>/tcp/web\<close>, opened twice.\<close>
theorem proxy_opened_once_witness:
  "\<exists>m' w'. open_proxy demo_control [''tcp'', ''web''] Map.empty [] =
       ((''127.0.0.1:40001'', None), m', [Go_tcpServiceProxy 1 [''tcp'', ''web'']], w') \<and>
     open_proxy demo_control [''tcp'', ''web''] m' [] = ((''127.0.0.1:40001'', None), m', [], [])"
proof -
  have f: "forwarders_ok Map.empty" and s: "spec_ok [''tcp'', ''web'']"
    by (simp_all add: forwarders_ok_def spec_ok_def)
  obtain m' gs w' where o: "open_proxy demo_control [''tcp'', ''web''] Map.empty [] = ((''127.0.0.1:40001'', None), m', gs, w')"
    by (simp add: open_proxy_def openTCPProxy_def demo_control_def control_ops.defs chain_ops.defs)
  from proxy_opened_once [OF f s o, of "[]"] o show ?thesis
    by (auto simp: socket_opened_def demo_control_def control_ops.defs chain_ops.defs)
qed

lemma splitURIPath_no_slash: "c \<in> set (splitURIPath path) \<Longrightarrow> CHR ''/'' \<notin> set c"
  by (auto simp: splitURIPath_def Let_def dest: Split_no_sep split: if_splits)

text \<open>
  C29. The control endpoint answers every request: a request with a query, or whose path is not a protocol followed by at least one service name, gets status 400 and changes nothing; any other request opens (or finds)
  the proxy for its chain and gets status 200 with the listening address on a line, or status 500 with the error when the port cannot be opened.
\<close>
theorem requestHandler_outcome:
  "\<exists>rw m' gs w'. requestHandler E r m w = Some (rw, m', gs, w') \<and>
     (if rRawQuery r \<noteq> [] \<or> \<not> spec_ok (splitURIPath (rPath r))
      then wStatus rw = Some 400 \<and> m' = m \<and> gs = [] \<and> w' = w
      else (case open_proxy E (splitURIPath (rPath r)) m w of
          ((a, None), s) \<Rightarrow> (m', gs, w') = s \<and> wStatus rw = Some 200 \<and> wBody rw = a @ [CHR 0x0A]
        | ((a, Some e), s) \<Rightarrow> (m', gs, w') = s \<and> wStatus rw = Some 500 \<and> wBody rw = e @ [CHR 0x0A]))"
proof -
  let ?cs = "splitURIPath (rPath r)"
  have bad: "bad_request = Some (error_page 400 (''Bad Request'' @ [CHR 0x0A]))" by (simp add: bad_request_def http_Error_page)
  have ok: "spec_ok ?cs \<longleftrightarrow> \<not> length ?cs < 2 \<and> (?cs ! 0 = ''tcp'' \<or> ?cs ! 0 = ''udp'')"
    using splitURIPath_no_slash [of _ "rPath r"] by (cases ?cs) (auto simp: spec_ok_def Suc_le_eq)
  have hd0: "hd ?cs = ?cs ! 0" if "\<not> length ?cs < 2" using that by (cases ?cs) auto
  obtain a err s where o: "open_proxy E ?cs m w = ((a, err), s)" by (metis prod.exhaust)
  show ?thesis
  proof (cases "rRawQuery r \<noteq> [] \<or> \<not> spec_ok ?cs")
    case True
    then show ?thesis by (auto simp: requestHandler_def bad page_simps ok Let_def)
  next
    case False
    then have "(if ?cs ! 0 = ''tcp'' then openTCPProxy E ?cs m w else openUDPProxy E ?cs m w) = ((a, err), s)"
      using o hd0 by (simp add: ok open_proxy_def)
    with False o show ?thesis
      by (cases err; cases s) (auto simp: requestHandler_def ok page_simps http_Error_page)
  qed
qed

text \<open>Witness of C29: a request for \<open>/tcp/web\<close>, and one with an unknown protocol.\<close>
theorem requestHandler_outcome_witness:
  "(\<exists>rw m' gs w'. requestHandler demo_control \<lparr>rPath = ''/tcp/web'', rRawQuery = []\<rparr> Map.empty [] = Some (rw, m', gs, w') \<and>
      wStatus rw = Some 200 \<and> wBody rw = ''127.0.0.1:40001'' @ [CHR 0x0A]) \<and>
   (\<exists>rw. requestHandler demo_control \<lparr>rPath = ''/sctp/web'', rRawQuery = []\<rparr> Map.empty [] = Some (rw, Map.empty, [], []) \<and>
      wStatus rw = Some 400)"
proof
  have s: "splitURIPath ''/tcp/web'' = [''tcp'', ''web'']" "splitURIPath ''/sctp/web'' = [''sctp'', ''web'']" by code_simp+
  have good: "spec_ok [''tcp'', ''web'']" and bad: "\<not> spec_ok [''sctp'', ''web'']" by (simp_all add: spec_ok_def)
  have o: "open_proxy demo_control [''tcp'', ''web''] Map.empty [] =
      ((''127.0.0.1:40001'', None), [''tcp/web'' \<mapsto> \<lparr>ListenAddr = ''127.0.0.1:40001'', tcpWorker = True, udpWorker = False\<rparr>],
       [Go_tcpServiceProxy 1 [''tcp'', ''web'']], [])"
    by (simp add: open_proxy_def openTCPProxy_def demo_control_def control_ops.defs chain_ops.defs)
  show "\<exists>rw m' gs w'. requestHandler demo_control \<lparr>rPath = ''/tcp/web'', rRawQuery = []\<rparr> Map.empty [] = Some (rw, m', gs, w') \<and>
      wStatus rw = Some 200 \<and> wBody rw = ''127.0.0.1:40001'' @ [CHR 0x0A]"
    using requestHandler_outcome [of demo_control "\<lparr>rPath = ''/tcp/web'', rRawQuery = []\<rparr>" Map.empty "[]"] good
    by (simp add: s o) blast
  show "\<exists>rw. requestHandler demo_control \<lparr>rPath = ''/sctp/web'', rRawQuery = []\<rparr> Map.empty [] = Some (rw, Map.empty, [], []) \<and>
      wStatus rw = Some 400"
    using requestHandler_outcome [of demo_control "\<lparr>rPath = ''/sctp/web'', rRawQuery = []\<rparr>" Map.empty "[]"] bad
    by (simp add: s)
qed

end
