(* ===== verification/LCA_Allocator.thy ===== *)
theory LCA_Allocator
  imports LCA_Manager
begin

text \<open>
  The LCA allocator (\<open>src/lca/lca-allocator.go\<close>): it starts containers on request, remembers them by
  metrics port, and culls those that are idle or do not answer. The state is the \<open>services\<close> map; the mutex
  protects every access, so the two writers (\<open>cmdStartProgram\<close> and \<open>CullUnusedServices\<close>) are atomic on it.
\<close>

section \<open>Operations of the world\<close>

record DockerConfig =
  Image :: string
  Network :: string
  Env :: "string list"

text \<open>
  The Docker driver, \<open>util.GetIPAddress\<close> and \<open>util.GetFreePort\<close>, the node's own addresses
  (\<open>util.Whoami\<close>, as strings), \<open>Host.SetStreamHandler\<close>, \<open>http.Get\<close> (a body handle or an error) and \<open>ioutil.ReadAll\<close> on the body.
\<close>

record 'w alloc_ops = "'w lca_ops" +
  PullImage :: "string \<Rightarrow> 'w \<Rightarrow> error option \<times> 'w"
  GetIPAddress :: "'w \<Rightarrow> (string \<times> error option) \<times> 'w"
  GetFreePort :: "'w \<Rightarrow> (int \<times> error option) \<times> 'w"
  RunContainer :: "DockerConfig \<Rightarrow> 'w \<Rightarrow> (string \<times> error option) \<times> 'w"
  StopContainer :: "string \<Rightarrow> 'w \<Rightarrow> 'w"
  DeleteContainer :: "string \<Rightarrow> 'w \<Rightarrow> 'w"
  Whoami :: "'w \<Rightarrow> (string list \<times> error option) \<times> 'w"
  SetStreamHandler :: "protocol_id \<Rightarrow> 'w \<Rightarrow> 'w"
  HttpGet :: "string \<Rightarrow> 'w \<Rightarrow> (nat \<times> error option) \<times> 'w"
  ReadBody :: "nat \<Rightarrow> 'w \<Rightarrow> (string \<times> error option) \<times> 'w"

section \<open>Starting a program\<close>

record LCAAllocator =
  services :: "string \<rightharpoonup> string"

definition docker_config :: "string \<Rightarrow> string \<Rightarrow> string \<Rightarrow> string \<Rightarrow> string \<Rightarrow> string list \<Rightarrow> string \<Rightarrow> DockerConfig" where
  "docker_config imageName ipAddress proxyPort servicePort metricsPort strBootstraps sPsk =
     \<lparr>Image = imageName, Network = ''host'',
      Env = [''PROXY_IP='' @ ipAddress,
             ''PROXY_PORT='' @ proxyPort,
             ''SERVICE_PORT='' @ servicePort,
             ''METRICS_PORT='' @ metricsPort,
             ''P2P_BOOTSTRAPS='' @ Join '' '' strBootstraps,
             ''P2P_PSK='' @ sPsk]\<rparr>"

definition cmdStartProgram :: "('w, 'z) alloc_ops_scheme \<Rightarrow> string list \<Rightarrow> string \<Rightarrow> string \<Rightarrow> (string \<rightharpoonup> string)
    \<Rightarrow> stream \<Rightarrow> 'w \<Rightarrow> string \<times> (string \<rightharpoonup> string) \<times> 'w" where
  "cmdStartProgram E bootstraps sPsk imageName svcs rw w =
     (let (err, w1) = PullImage E imageName w
      in if err \<noteq> nil_error then (LCAPErrAllocFail, svcs, w1)
         else (let ((ipAddress, err), w2) = GetIPAddress E w1
      in if err \<noteq> nil_error then (LCAPErrAllocFail, svcs, w2)
         else (let ((pp, err), w3) = GetFreePort E w2
      in if err \<noteq> nil_error then (LCAPErrAllocFail, svcs, w3)
         else (let ((sp, err), w4) = GetFreePort E w3
      in if err \<noteq> nil_error then (LCAPErrAllocFail, svcs, w4)
         else (let ((mp, err), w5) = GetFreePort E w4
      in if err \<noteq> nil_error then (LCAPErrAllocFail, svcs, w5)
         else (let proxyPort = Itoa pp; servicePort = Itoa sp; metricsPort = Itoa mp;
                   cfg = docker_config imageName ipAddress proxyPort servicePort metricsPort bootstraps sPsk;
                   ((cid, err), w6) = RunContainer E cfg w5
      in if err \<noteq> nil_error then (LCAPErrAllocFail, svcs, w6)
         else (let (err, w7) = lca_write E rw (ipAddress @ '':'' @ servicePort @ [CHR 0x0A]) w6
      in if err \<noteq> nil_error then (LCAPErrAllocFail, svcs, w7)
         else ('''', svcs(metricsPort \<mapsto> cid), w7))))))))"

section \<open>The request handler\<close>

text \<open>
  The handler \<open>NewLCAHandler\<close> returns. \<open>None\<close> is the run-time panic of \<open>match[1]\<close> when the request has no
  white space, so that \<open>FindStringSubmatch\<close> returned nil; this panic is not recovered.
\<close>

definition NewLCAHandler :: "('w, 'z) alloc_ops_scheme \<Rightarrow> string list \<Rightarrow> string \<Rightarrow> LCAAllocator \<Rightarrow> stream \<Rightarrow> 'w
    \<Rightarrow> (LCAAllocator \<times> 'w) option" where
  "NewLCAHandler E bootstraps sPsk a strm w =
     (let ((str, err), w1) = lca_read E strm w
      in if err \<noteq> nil_error then Some (a, StreamClose E strm w1)
         else
           (case cmd_submatch str of
              None \<Rightarrow> None
            | Some (cmd, imageName) \<Rightarrow>
                if cmd = LCAAPCmdStartProgram then
                  (let (result, svcs, w2) = cmdStartProgram E bootstraps sPsk imageName (services a) strm w1;
                       w3 = (if result \<noteq> '''' then snd (lca_write E strm result w2) else w2)
                   in Some (a\<lparr>services := svcs\<rparr>, StreamClose E strm w3))
                else
                  (let w2 = snd (lca_write E strm LCAPErrUnrecognized w1)
                   in Some (a, StreamClose E strm w2))))"

section \<open>The constructor\<close>

text \<open>
  The handler is built from the configured bootstraps and the first listening address that contains
  the public IP. The result is the allocator with the bootstrap list and the passphrase its handler will hand to the
  containers. When no address contains the public IP the code returns a nil allocator with a nil
  error: the last \<open>err\<close> is that of the successful \<open>GetIPAddress\<close>.
\<close>

definition NewLCAAllocator :: "('w, 'z) alloc_ops_scheme \<Rightarrow> NodeConfig \<Rightarrow> string \<Rightarrow> 'w
    \<Rightarrow> ((LCAAllocator \<times> string list \<times> string) option \<times> error option) \<times> 'w" where
  "NewLCAAllocator E cfg sPsk w =
     (let (err, w1) = NewNode E (cfg\<lparr>Rendezvous := Rendezvous cfg @ [LCAAllocatorRendezvous]\<rparr>) w
      in if err \<noteq> nil_error then ((None, err), w1)
         else (let ((multiaddrs, err), w2) = Whoami E w1
      in if err \<noteq> nil_error then ((None, err), w2)
         else (let ((pubAddr, err), w3) = GetIPAddress E w2
      in if err \<noteq> nil_error then ((None, err), w3)
         else
           (case List.find (\<lambda>addr. Contains addr pubAddr) multiaddrs of
              None \<Rightarrow> ((None, err), w3)
            | Some addr \<Rightarrow> ((Some (\<lparr>services = Map.empty\<rparr>, BootstrapPeers cfg @ [addr], sPsk), nil_error),
                 SetStreamHandler E LCAAllocatorProtocolID w3)))))"

section \<open>Culling\<close>

record Service =
  MetricsPort :: string
  Cid :: string

text \<open>
  One service of the first loop of \<open>CullUnusedServices\<close>: whether it goes on the cull list, because its
  metrics endpoint cannot be reached or read, does not return a number, or returns more than 60 seconds.
\<close>

definition must_cull :: "('w, 'z) alloc_ops_scheme \<Rightarrow> string \<Rightarrow> 'w \<Rightarrow> bool \<times> 'w" where
  "must_cull E metricsPort w =
     (let ((resp, err), w1) = HttpGet E (''http://127.0.0.1:'' @ metricsPort) w
      in if err \<noteq> nil_error then (True, w1)
         else
           (let ((body, err2), w2) = ReadBody E resp w1
            in if err2 \<noteq> nil_error then (True, w2)
               else
                 (case ParseInt64 (TrimSpace body) of
                    None \<Rightarrow> (True, w2)
                  | Some tslsr \<Rightarrow> (60 < tslsr, w2))))"

text \<open>
  The range over the map visits its entries in an order Go leaves unspecified; the order is the
  argument \<open>entries\<close>.
\<close>

fun cull_scan :: "('w, 'z) alloc_ops_scheme \<Rightarrow> (string \<times> string) list \<Rightarrow> 'w \<Rightarrow> Service list \<times> 'w" where
  "cull_scan E [] w = ([], w)"
| "cull_scan E ((metricsPort, cid) # es) w =
     (let (cull, w1) = must_cull E metricsPort w;
          (rest, w2) = cull_scan E es w1
      in (if cull then \<lparr>MetricsPort = metricsPort, Cid = cid\<rparr> # rest else rest, w2))"

fun cull_all :: "('w, 'z) alloc_ops_scheme \<Rightarrow> Service list \<Rightarrow> (string \<rightharpoonup> string) \<Rightarrow> 'w \<Rightarrow> (string \<rightharpoonup> string) \<times> 'w" where
  "cull_all E [] svcs w = (svcs, w)"
| "cull_all E (s # ss) svcs w =
     cull_all E ss (svcs(MetricsPort s := None)) (DeleteContainer E (Cid s) (StopContainer E (Cid s) w))"

definition CullUnusedServices :: "('w, 'z) alloc_ops_scheme \<Rightarrow> (string \<times> string) list \<Rightarrow> LCAAllocator \<Rightarrow> 'w
    \<Rightarrow> LCAAllocator \<times> 'w" where
  "CullUnusedServices E entries a w =
     (let (servicesToCull, w1) = cull_scan E entries w;
          (svcs, w2) = cull_all E servicesToCull (services a) w1
      in (a\<lparr>services := svcs\<rparr>, w2))"

text \<open>An order in which a range over the map may visit it.\<close>

definition range_order :: "('k \<rightharpoonup> 'v) \<Rightarrow> ('k \<times> 'v) list \<Rightarrow> bool" where
  "range_order m es \<longleftrightarrow> distinct (map fst es) \<and> map_of es = m"

section \<open>A concrete world\<close>

text \<open>
  Docker works, the host's address is 10.0.0.1, ports are handed out from the clock, and the metrics endpoints at ports 9001 and 9002
  report 5 and 75 seconds of idleness; other ports do not answer. A request line asks for \<open>d-web\<close>. The argument
  tells whether writing to a stream succeeds.
\<close>

definition demo_allocator :: "bool \<Rightarrow> int alloc_ops" where
  "demo_allocator writable = \<lparr>
     Now = Now demo_lca, GetServiceWithHostRouting = GetServiceWithHostRouting demo_lca,
     Ping = Ping demo_lca, LessThan = LessThan demo_lca,
     FindPeers = FindPeers demo_lca, SortPeers = SortPeers demo_lca, NewStream = NewStream demo_lca,
     StreamReset = StreamReset demo_lca, StreamClose = StreamClose demo_lca,
     WriteString = (\<lambda>s str w. (if writable then None else Some ''broken pipe'', w)), Flush = Flush demo_lca,
     ReadString = (\<lambda>s w. ((''start-program d-web'' @ [CHR 0x0A], None), w)),
     ReadAll = ReadAll demo_lca, RequestWrite = RequestWrite demo_lca, ReadRequest = ReadRequest demo_lca,
     ReadResponse = ReadResponse demo_lca, URLParse = URLParse demo_lca, RoundTrip = RoundTrip demo_lca,
     ResponseWrite = ResponseWrite demo_lca, NewNode = NewNode demo_lca, Advertise = Advertise demo_lca,
     PullImage = (\<lambda>img w. (None, w)), GetIPAddress = (\<lambda>w. ((''10.0.0.1'', None), w)),
     GetFreePort = (\<lambda>w. ((8000 + w, None), w + 1)),
     RunContainer = (\<lambda>cfg w. ((''cid-'' @ Image cfg, None), w)),
     StopContainer = (\<lambda>c w. w), DeleteContainer = (\<lambda>c w. w),
     Whoami = (\<lambda>w. (([''/ip4/127.0.0.1/tcp/4001''], None), w)), SetStreamHandler = (\<lambda>p w. w),
     HttpGet = (\<lambda>url w. if url = ''http://127.0.0.1:9001'' then ((1, None), w)
        else if url = ''http://127.0.0.1:9002'' then ((2, None), w) else ((0, Some ''connection refused''), w)),
     ReadBody = (\<lambda>b w. (((if b = 1 then ''5'' else ''75'') @ [CHR 0x0A], None), w))\<rparr>"

section \<open>Properties\<close>

lemma cmdStartProgram_cases:
  assumes "cmdStartProgram E bootstraps sPsk imageName svcs rw w = (result, svcs', w')"
  obtains (started) ip pp sp mp cid w5 w6 where "result = []"
      "RunContainer E (docker_config imageName ip (Itoa pp) (Itoa sp) (Itoa mp) bootstraps sPsk) w5 = ((cid, nil_error), w6)"
      "lca_write E rw (ip @ '':'' @ Itoa sp @ [CHR 0x0A]) w6 = (nil_error, w')" "svcs' = svcs(Itoa mp \<mapsto> cid)"
  | (failed) "result = LCAPErrAllocFail" "svcs' = svcs"
proof (cases "\<exists>w1 ip w2 pp w3 sp w4 mp w5 cid w6 w7. PullImage E imageName w = (nil_error, w1) \<and>
    GetIPAddress E w1 = ((ip, nil_error), w2) \<and> GetFreePort E w2 = ((pp, nil_error), w3) \<and>
    GetFreePort E w3 = ((sp, nil_error), w4) \<and> GetFreePort E w4 = ((mp, nil_error), w5) \<and>
    RunContainer E (docker_config imageName ip (Itoa pp) (Itoa sp) (Itoa mp) bootstraps sPsk) w5 =
      ((cid, nil_error), w6) \<and>
    lca_write E rw (ip @ '':'' @ Itoa sp @ [CHR 0x0A]) w6 = (nil_error, w7)")
  case True
  with assms show thesis by (elim exE conjE) (rule started, auto simp: cmdStartProgram_def)
next
  case False
  with assms show thesis by (intro failed) (auto simp: cmdStartProgram_def Let_def split: prod.splits if_splits)
qed

text \<open>
  Starting a program either succeeds completely or reports the allocation failure and leaves the book-keeping alone: on
  success a container was started with the image, the proxy, service and metrics ports, the bootstraps and the passphrase in its
  environment, the line \<open>ip:servicePort\<close> was sent to the requester, and exactly the entry from the metrics port to the container is
  added; otherwise the answer is the allocation error and no entry changes.
\<close>
theorem cmdStartProgram_outcome:
  "case cmdStartProgram E bootstraps sPsk imageName svcs rw w of (result, svcs', w') \<Rightarrow>
     (result = [] \<and>
        (\<exists>ip pp sp mp cid w5 w6.
           RunContainer E (docker_config imageName ip (Itoa pp) (Itoa sp) (Itoa mp) bootstraps sPsk) w5 =
             ((cid, nil_error), w6) \<and>
           lca_write E rw (ip @ '':'' @ Itoa sp @ [CHR 0x0A]) w6 = (nil_error, w') \<and>
           svcs' = svcs(Itoa mp \<mapsto> cid))) \<or>
     (result = LCAPErrAllocFail \<and> svcs' = svcs)"
proof (cases "cmdStartProgram E bootstraps sPsk imageName svcs rw w")
  case (fields result svcs' w')
  then show ?thesis by (cases rule: cmdStartProgram_cases) (unfold fields prod.case, blast+)
qed

text \<open>
  A container can escape the culling: when the container is running but the answer cannot be written to the requester, the
  allocation is reported as failed and the container is recorded nowhere, while the world is the one \<open>RunContainer\<close> and the failed write
  left (nothing stops the container).
\<close>
theorem cmdStartProgram_untracked_container:
  assumes "PullImage E imageName w = (nil_error, w1)" and "GetIPAddress E w1 = ((ip, nil_error), w2)"
    and "GetFreePort E w2 = ((pp, nil_error), w3)" and "GetFreePort E w3 = ((sp, nil_error), w4)"
    and "GetFreePort E w4 = ((mp, nil_error), w5)"
    and "RunContainer E (docker_config imageName ip (Itoa pp) (Itoa sp) (Itoa mp) bootstraps sPsk) w5 =
      ((cid, nil_error), w6)"
    and "lca_write E rw (ip @ '':'' @ Itoa sp @ [CHR 0x0A]) w6 = (Some e, w7)"
  shows "cmdStartProgram E bootstraps sPsk imageName svcs rw w = (LCAPErrAllocFail, svcs, w7)"
  using assms by (simp add: cmdStartProgram_def)

text \<open>An instance: a requester that hung up.\<close>
theorem cmdStartProgram_untracked_container_witness:
  "cmdStartProgram (demo_allocator False) [] ''psk'' ''d-web'' Map.empty 3 0 = (LCAPErrAllocFail, Map.empty, 3)"
  by (rule cmdStartProgram_untracked_container
      [where ip = "''10.0.0.1''" and pp = 8000 and sp = 8001 and mp = 8002 and cid = "''cid-d-web''"
        and e = "''broken pipe''" and ?w1.0 = 0 and ?w2.0 = 0 and ?w3.0 = 1 and ?w4.0 = 2 and ?w5.0 = 3 and ?w6.0 = 3])
    (simp_all add: demo_allocator_def docker_config_def lca_write_def)

lemma cmd_no_space: "\<forall>c \<in> set LCAAPCmdStartProgram. \<not> is_re_space c"
  by code_simp

lemma handler_runs_request:
  assumes "ReadString E s w = (((LCAAPCmdStartProgram @ '' '' @ h) @ [CHR 0x0A], nil_error), w1)" and "CHR 0x0A \<notin> set h"
  shows "NewLCAHandler E bootstraps sPsk a s w =
    (case cmdStartProgram E bootstraps sPsk h (services a) s w1 of (result, svcs, w2) \<Rightarrow>
       Some (a\<lparr>services := svcs\<rparr>,
         StreamClose E s (if result \<noteq> [] then snd (lca_write E s result w2) else w2)))"
proof -
  have read: "lca_read E s w = ((LCAAPCmdStartProgram @ '' '' @ h, nil_error), w1)"
    using assms(1) by (rule lca_read_eq)
  have match: "cmd_submatch (LCAAPCmdStartProgram @ '' '' @ h) = Some (LCAAPCmdStartProgram, h)"
    using cmd_submatch_words [OF cmd_no_space _ assms(2), of "CHR '' ''"] by (simp add: is_re_space_def)
  show ?thesis unfolding NewLCAHandler_def read Let_def prod.case match by simp
qed

text \<open>
  The handler understands exactly what \<open>requestAlloc\<close> sends: a line \<open>start-program h\<close> (the image reference contains no newline, any
  other bytes are allowed) runs \<open>cmdStartProgram\<close> with the image \<open>h\<close>; and it does not survive a line without white space: the missing
  submatch is indexed and the process panics.
\<close>
theorem handler_understands_request:
  assumes "ReadString E s w = ((line @ [CHR 0x0A], nil_error), w1)"
  shows "(\<forall>h. line = LCAAPCmdStartProgram @ '' '' @ h \<longrightarrow> CHR 0x0A \<notin> set h \<longrightarrow>
      NewLCAHandler E bootstraps sPsk a s w =
        (case cmdStartProgram E bootstraps sPsk h (services a) s w1 of (result, svcs, w2) \<Rightarrow>
           Some (a\<lparr>services := svcs\<rparr>,
             StreamClose E s (if result \<noteq> [] then snd (lca_write E s result w2) else w2)))) \<and>
    ((\<forall>c \<in> set line. \<not> is_re_space c) \<longrightarrow> NewLCAHandler E bootstraps sPsk a s w = None)"
proof -
  have read: "lca_read E s w = ((line, nil_error), w1)"
    using assms by (rule lca_read_eq)
  have "NewLCAHandler E bootstraps sPsk a s w = None" if "\<forall>c \<in> set line. \<not> is_re_space c"
    unfolding NewLCAHandler_def read Let_def prod.case cmd_submatch_None [OF that] by simp
  moreover have "NewLCAHandler E bootstraps sPsk a s w =
      (case cmdStartProgram E bootstraps sPsk h (services a) s w1 of (result, svcs, w2) \<Rightarrow>
         Some (a\<lparr>services := svcs\<rparr>,
           StreamClose E s (if result \<noteq> [] then snd (lca_write E s result w2) else w2)))"
    if "line = LCAAPCmdStartProgram @ '' '' @ h" "CHR 0x0A \<notin> set h" for h
    by (rule handler_runs_request [OF assms [unfolded that(1)] that(2)])
  ultimately show ?thesis by blast
qed

text \<open>An instance: the request for \<open>d-web\<close>.\<close>
theorem handler_understands_request_witness:
  "\<exists>a' w'. NewLCAHandler (demo_allocator True) [] ''psk'' \<lparr>services = Map.empty\<rparr> 3 0 = Some (a', w') \<and>
     services a' (Itoa 8002) = Some ''cid-d-web''"
proof -
  have r: "ReadString (demo_allocator True) 3 0 = ((''start-program d-web'' @ [CHR 0x0A], None), 0)"
    by (simp add: demo_allocator_def)
  have run: "cmdStartProgram (demo_allocator True) [] ''psk'' ''d-web'' Map.empty 3 0 =
      ([], [Itoa 8002 \<mapsto> ''cid-d-web''], 3)"
    by (simp add: demo_allocator_def cmdStartProgram_def docker_config_def lca_write_def demo_lca_def)
  have line: "''start-program d-web'' = LCAAPCmdStartProgram @ '' '' @ ''d-web''" "CHR 0x0A \<notin> set ''d-web''"
    by (simp_all add: LCAAPCmdStartProgram_def)
  show ?thesis
    using handler_understands_request [OF r, of "[]" "''psk''" "\<lparr>services = Map.empty\<rparr>",
        THEN conjunct1, rule_format, OF line] run
    by simp
qed

text \<open>
  The world after the endpoints of \<open>es\<close> have been asked, and the verdict on the \<open>i\<close>-th entry of the scan: what its endpoint says when its turn
  comes, after the entries before it.
\<close>

definition asked :: "('w, 'z) alloc_ops_scheme \<Rightarrow> (string \<times> string) list \<Rightarrow> 'w \<Rightarrow> 'w" where
  "asked E es w = fold (\<lambda>(p, c) w. snd (must_cull E p w)) es w"

definition condemned :: "('w, 'z) alloc_ops_scheme \<Rightarrow> (string \<times> string) list \<Rightarrow> 'w \<Rightarrow> nat \<Rightarrow> bool" where
  "condemned E es w i \<longleftrightarrow> fst (must_cull E (fst (es ! i)) (asked E (take i es) w))"

lemma cull_scan_nths:
  "cull_scan E es w = (map (\<lambda>(p, c). \<lparr>MetricsPort = p, Cid = c\<rparr>) (nths es {i. condemned E es w i}), asked E es w)"
proof (induction es arbitrary: w)
  case (Cons e es)
  obtain p c where e: "e = (p, c)" by (cases e)
  obtain b w1 where m: "must_cull E p w = (b, w1)" by (cases "must_cull E p w")
  have "condemned E (e # es) w 0 = b" "condemned E (e # es) w (Suc i) = condemned E es w1 i" for i
    by (simp_all add: condemned_def asked_def e m)
  with Cons.IH [of w1] show ?case by (simp add: e m nths_Cons asked_def)
qed (simp add: asked_def)

lemma nths_key: "distinct (map fst es) \<Longrightarrow> i < length es \<Longrightarrow> fst (es ! i) \<in> fst ` set (nths es A) \<longleftrightarrow> i \<in> A"
proof -
  assume d: "distinct (map fst es)" and i: "i < length es"
  have "fst ` set (nths es A) = {fst (es ! j) | j. j < length es \<and> j \<in> A}" by (auto simp: set_nths)
  moreover have "fst (es ! i) = fst (es ! j) \<longleftrightarrow> i = j" if "j < length es" for j
    using nth_eq_iff_index_eq [OF d, of i j] i that by simp
  ultimately show ?thesis using i by auto
qed

lemma cull_scan_entries: "s \<in> set (fst (cull_scan E entries w)) \<Longrightarrow> (MetricsPort s, Cid s) \<in> set entries"
  by (induction E entries w rule: cull_scan.induct) (fastforce simp: Let_def split: prod.splits if_splits)+

lemma cull_all_fold:
  "cull_all E ss svcs w =
     (svcs |` (- set (map MetricsPort ss)),
      fold (\<lambda>s w. DeleteContainer E (Cid s) (StopContainer E (Cid s) w)) ss w)"
  by (induction ss arbitrary: svcs w) (auto simp: restrict_map_def fun_eq_iff)

text \<open>
  C16. A culling round removes exactly the services whose metrics condemn them, in whatever order the map is visited: each service is judged by
  what its endpoint says when its turn comes; the condemned ones lose their entry, the entries of the others stay as they are and none is added; each
  condemned container is stopped and then deleted, once, after all endpoints have been asked, and no other container is touched.
\<close>
theorem CullUnusedServices_removes_condemned:
  assumes "range_order (services a) entries" and "CullUnusedServices E entries a w = (a', w')"
  shows "(\<forall>i < length entries. services a' (fst (entries ! i)) =
        (if condemned E entries w i then None else Some (snd (entries ! i)))) \<and>
    dom (services a') \<subseteq> dom (services a) \<and>
    w' = fold (\<lambda>(p, c) w. DeleteContainer E c (StopContainer E c w)) (nths entries {i. condemned E entries w i}) (asked E entries w)"
proof -
  let ?cull = "nths entries {i. condemned E entries w i}"
  have f: "fold (\<lambda>s w. DeleteContainer E (Cid s) (StopContainer E (Cid s) w))
      (map (\<lambda>(p, c). \<lparr>MetricsPort = p, Cid = c\<rparr>) es) v =
      fold (\<lambda>(p, c) w. DeleteContainer E c (StopContainer E c w)) es v" for es :: "(string \<times> string) list" and v
    by (induction es arbitrary: v) auto
  have p: "set (map MetricsPort (map (\<lambda>(p, c). \<lparr>MetricsPort = p, Cid = c\<rparr>) es)) = fst ` set es" for es :: "(string \<times> string) list"
    by force
  from assms(2) have svcs: "services a' = services a |` (- fst ` set ?cull)" and
    w': "w' = fold (\<lambda>(p, c) w. DeleteContainer E c (StopContainer E c w)) ?cull (asked E entries w)"
    by (auto simp: CullUnusedServices_def cull_scan_nths cull_all_fold f p simp del: set_map map_map)
  have "services a (fst (entries ! i)) = Some (snd (entries ! i))" if "i < length entries" for i
    using assms(1) that map_of_eq_Some_iff [of entries "fst (entries ! i)" "snd (entries ! i)"] by (simp add: range_order_def)
  moreover have "distinct (map fst entries)" using assms(1) by (simp add: range_order_def)
  ultimately have "services a' (fst (entries ! i)) = (if condemned E entries w i then None else Some (snd (entries ! i)))"
    if "i < length entries" for i
    using that by (simp add: svcs restrict_map_def nths_key)
  moreover have "dom (services a') \<subseteq> dom (services a)" by (auto simp: svcs)
  ultimately show ?thesis using w' by blast
qed

text \<open>Witness of C16: of three containers, one is busy, one has been idle for 75 seconds, one does not answer.\<close>
theorem CullUnusedServices_removes_condemned_witness:
  "services (fst (CullUnusedServices (demo_allocator True) [(''9003'', ''c3''), (''9001'', ''c1''), (''9002'', ''c2'')]
     \<lparr>services = [''9003'' \<mapsto> ''c3'', ''9001'' \<mapsto> ''c1'', ''9002'' \<mapsto> ''c2'']\<rparr> 0)) = [''9001'' \<mapsto> ''c1'']"
proof -
  let ?a = "\<lparr>services = [''9003'' \<mapsto> ''c3'', ''9001'' \<mapsto> ''c1'', ''9002'' \<mapsto> ''c2'']\<rparr>"
  let ?es = "[(''9003'', ''c3''), (''9001'', ''c1''), (''9002'', ''c2'')]"
  have r: "range_order (services ?a) ?es"
    by (auto simp: range_order_def fun_eq_iff)
  have "ParseInt64 (TrimSpace [CHR ''5'', CHR 0x0A]) = Some 5"
    "ParseInt64 (TrimSpace [CHR ''7'', CHR ''5'', CHR 0x0A]) = Some 75"
    by code_simp+
  then have bad: "condemned (demo_allocator True) es w i \<longleftrightarrow> fst (es ! i) \<noteq> ''9001''" for es w i
    by (auto simp: condemned_def must_cull_def demo_allocator_def)
  obtain a' w' where run: "CullUnusedServices (demo_allocator True) ?es ?a 0 = (a', w')" by (metis prod.exhaust)
  note res = CullUnusedServices_removes_condemned [OF r run, unfolded bad]
  have "services a' = [''9001'' \<mapsto> ''c1'']"
  proof
    fix p
    have "services a' ''9003'' = None" "services a' ''9001'' = Some ''c1''" "services a' ''9002'' = None"
      using res [THEN conjunct1, rule_format, of 0] res [THEN conjunct1, rule_format, of 1] res [THEN conjunct1, rule_format, of 2]
      by simp_all
    moreover have "services a' p = None" if "p \<notin> {''9003'', ''9001'', ''9002''}" using res that by (auto simp: domIff)
    ultimately show "services a' p = [''9001'' \<mapsto> ''c1''] p" by (cases "p \<in> {''9003'', ''9001'', ''9002''}") auto
  qed
  with run show ?thesis by simp
qed

text \<open>
  The constructor can return a nil allocator with a nil error: when the node starts and its public IP is known but none of its
  listening addresses contains it. Otherwise it returns an allocator without services that will hand the configured bootstraps, the first such address and
  the passphrase to the containers.
\<close>
lemma NewLCAAllocator_eq:
  assumes "NewNode E (cfg\<lparr>Rendezvous := Rendezvous cfg @ [LCAAllocatorRendezvous]\<rparr>) w = (nil_error, w1)"
    and "Whoami E w1 = ((addrs, nil_error), w2)" and "GetIPAddress E w2 = ((ip, nil_error), w3)"
  shows "NewLCAAllocator E cfg sPsk w =
    (if \<forall>addr \<in> set addrs. \<not> Contains addr ip then ((None, nil_error), w3)
     else ((Some (\<lparr>services = Map.empty\<rparr>, BootstrapPeers cfg @ [hd (filter (\<lambda>addr. Contains addr ip) addrs)], sPsk), nil_error),
           SetStreamHandler E LCAAllocatorProtocolID w3))"
proof -
  have "List.find P xs = (if \<forall>x \<in> set xs. \<not> P x then None else Some (hd (filter P xs)))" for P and xs :: "string list"
    by (induction xs) auto
  with assms show ?thesis by (simp add: NewLCAAllocator_def)
qed

end
