(* ===== verification/Startup.thy ===== *)
theory Startup
  imports Control LCA_Allocator
begin

text \<open>
  How the three programs start: the \<open>main\<close> functions of the HTTP proxy (\<open>src/proxy/proxy.go\<close>), of the layer-4 proxy (\<open>src/l4-proxy/l4-proxy.go\<close>) and of the allocator
  (\<open>src/allocator/allocator.go\<close>), with the configuration struct (\<open>src/conf/conf.go\<close>). A \<open>main\<close> function either ends the process, for one of the reasons of \<open>process_exit\<close>, or
  leaves it running with the state and the servers it has set up.
\<close>

section \<open>Steps that may end the process\<close>

datatype process_exit = UsageExit | FlagExit | Fatal string | NilDereference

type_synonym ('a, 'w) action = "'w \<Rightarrow> (process_exit + 'a) \<times> 'w"

definition andThen :: "('a, 'w) action \<Rightarrow> ('a \<Rightarrow> ('b, 'w) action) \<Rightarrow> ('b, 'w) action" where
  "andThen act k w = (case act w of (Inl e, w1) \<Rightarrow> (Inl e, w1) | (Inr x, w1) \<Rightarrow> k x w1)"

text \<open>A call whose error goes to \<open>log.Fatalln\<close> or \<open>log.Fatalf\<close>; \<open>fmt\<close> is the message made of the error.\<close>

definition orFatal :: "(error \<Rightarrow> string) \<Rightarrow> ('w \<Rightarrow> ('a \<times> error option) \<times> 'w) \<Rightarrow> ('a, 'w) action" where
  "orFatal fmt call w =
     (case call w of
        ((x, None), w1) \<Rightarrow> (Inr x, w1)
      | ((x, Some e), w1) \<Rightarrow> (Inl (Fatal (fmt e)), w1))"

lemma andThen_Inr [action_elims]:
  assumes "andThen act k w = (Inr y, w')"
  obtains x w1 where "act w = (Inr x, w1)" "k x w1 = (Inr y, w')"
  using assms by (auto simp: andThen_def split: prod.splits sum.splits)

lemma orFatal_Inr [action_elims]:
  assumes "orFatal fmt call w = (Inr x, w')"
  obtains "call w = ((x, nil_error), w')"
  using assms by (auto simp: orFatal_def split: prod.splits option.splits)

lemma andThen_step [simp]: "act w = (Inr x, w1) \<Longrightarrow> andThen act k w = k x w1"
  "act w = (Inl e, w1) \<Longrightarrow> andThen act k w = (Inl e, w1)"
  by (simp_all add: andThen_def)

lemma orFatal_ok [simp]: "call w = ((x, nil_error), w1) \<Longrightarrow> orFatal fmt call w = (Inr x, w1)"
  and orFatal_error [simp]: "call w = ((x, Some e), w1) \<Longrightarrow> orFatal fmt call w = (Inl (Fatal (fmt e)), w1)"
  by (simp_all add: orFatal_def)

section \<open>Configuration, command line and environment\<close>

record Config =
  SoftReq :: PerfInd
  HardReq :: PerfInd
  Bootstraps :: "string list"

text \<open>
  What \<open>flag.Parse\<close> leaves: the options given on the command line (those of the module \<open>util\<close> with their values) and the positional arguments.
\<close>

record command_line =
  opt_configfile :: "string option"
  opt_rcache_ttl :: "int option"
  keyFlags :: string
  flag_bootstraps :: "string list"
  flag_psk :: "string option"
  flag_args :: "string list"

text \<open>
  The operations of the mains: \<open>util.AddKeyFlags\<close>, \<open>AddBootstrapFlags\<close>, \<open>AddPSKFlag\<close>; \<open>flag.Parse\<close> (no result when it ends the process); \<open>util.CreateOrLoadKey\<close>; files; \<open>json.Unmarshal\<close>
  into a \<open>Config\<close>; \<open>util.GetEnvBootstraps\<close>, \<open>StringsToMultiaddrs\<close>, \<open>GetEnvPSK\<close>, \<open>GetEnvPSKString\<close>, \<open>GetFlagPSKString\<close>; \<open>p2pnode.NewConfig\<close>; \<open>http.ListenAndServe\<close> (an error when it returns, none while it serves).
\<close>

record 'w host_ops =
  AddKeyFlags :: "string \<Rightarrow> 'w \<Rightarrow> (unit \<times> error option) \<times> 'w"
  AddBootstrapFlags :: "'w \<Rightarrow> (unit \<times> error option) \<times> 'w"
  AddPSKFlag :: "'w \<Rightarrow> (unit \<times> error option) \<times> 'w"
  FlagParse :: "'w \<Rightarrow> command_line option \<times> 'w"
  CreateOrLoadKey :: "string \<Rightarrow> 'w \<Rightarrow> (string \<times> error option) \<times> 'w"
  OpenFile :: "string \<Rightarrow> 'w \<Rightarrow> (nat \<times> error option) \<times> 'w"
  ReadFile :: "nat \<Rightarrow> 'w \<Rightarrow> (string \<times> error option) \<times> 'w"
  CloseFile :: "nat \<Rightarrow> 'w \<Rightarrow> 'w"
  UnmarshalConfig :: "string \<Rightarrow> Config \<times> error option"
  ENV_KEY_BOOTSTRAPS :: string
  GetEnvBootstraps :: "'w \<Rightarrow> (string list \<times> error option) \<times> 'w"
  StringsToMultiaddrs :: "string list \<Rightarrow> string list \<times> error option"
  GetEnvPSK :: "'w \<Rightarrow> (string option \<times> error option) \<times> 'w"
  GetEnvPSKString :: "'w \<Rightarrow> string \<times> 'w"
  GetFlagPSKString :: "'w \<Rightarrow> string \<times> 'w"
  NewConfig :: NodeConfig
  ListenAndServe :: "string \<Rightarrow> 'w \<Rightarrow> error option \<times> 'w"

definition commandLine :: "'w host_ops \<Rightarrow> string \<Rightarrow> (command_line, 'w) action" where
  "commandLine H defaultKeyFile =
     andThen (orFatal id (AddKeyFlags H defaultKeyFile)) (\<lambda>_.
     andThen (orFatal id (AddBootstrapFlags H)) (\<lambda>_.
     andThen (orFatal id (AddPSKFlag H)) (\<lambda>_ w.
       (case FlagParse H w of
          (None, w1) \<Rightarrow> (Inl FlagExit, w1)
        | (Some c, w1) \<Rightarrow> (Inr c, w1)))))"

definition configPath :: "command_line \<Rightarrow> string" where
  "configPath c = (case opt_configfile c of None \<Rightarrow> ''../conf/conf.json'' | Some p \<Rightarrow> p)"

definition rcacheTTL :: "command_line \<Rightarrow> int" where
  "rcacheTTL c = (case opt_rcache_ttl c of None \<Rightarrow> 3600 | Some n \<Rightarrow> n)"

text \<open>The positional arguments of the two proxies; variables that are not assigned are empty.\<close>

record positional =
  mode :: string
  port :: string
  service :: string
  address :: string
  metricsPort :: string

definition proxy_positional :: "string list \<Rightarrow> (positional, 'w) action" where
  "proxy_positional args w =
     (case args of
        [p] \<Rightarrow> (Inr \<lparr>mode = ''anonymous'', port = p, service = [], address = [], metricsPort = []\<rparr>, w)
      | [p, s, a, m] \<Rightarrow> (Inr \<lparr>mode = ''service'', port = p, service = s, address = a, metricsPort = m\<rparr>, w)
      | _ \<Rightarrow> (Inl UsageExit, w))"

definition l4_positional :: "string list \<Rightarrow> (positional, 'w) action" where
  "l4_positional args w =
     (case args of
        [p] \<Rightarrow> (Inr \<lparr>mode = ''anonymous'', port = p, service = [], address = [], metricsPort = []\<rparr>, w)
      | [p, s, a] \<Rightarrow> (Inr \<lparr>mode = ''service'', port = p, service = s, address = a, metricsPort = []\<rparr>, w)
      | _ \<Rightarrow> (Inl UsageExit, w))"

text \<open>The configuration file, as the proxies read it: it is closed on every path.\<close>

definition readConfig :: "'w host_ops \<Rightarrow> string \<Rightarrow> (Config, 'w) action" where
  "readConfig H path w =
     (let ((configFile, err), w1) = OpenFile H path w
      in if err \<noteq> nil_error then
           (Inl (Fatal (''ERROR: Unable to open configuration file'' @ [CHR 0x0A] @ the err @ [CHR 0x0A])), w1)
         else
           (let ((configByte, err2), w2) = ReadFile H configFile w1
            in if err2 \<noteq> nil_error then
                 (Inl (Fatal (''ERROR: Unable to read configuration file'' @ [CHR 0x0A] @ the err2 @ [CHR 0x0A])), CloseFile H configFile w2)
               else
                 (let (config, err3) = UnmarshalConfig H configByte
                  in if err3 \<noteq> nil_error then
                       (Inl (Fatal (''ERROR: Unable to parse configuration file'' @ [CHR 0x0A] @ the err3 @ [CHR 0x0A])), CloseFile H configFile w2)
                     else (Inr config, CloseFile H configFile w2))))"

text \<open>As the allocator reads it: the close is deferred to the end of \<open>main\<close>, which never comes.\<close>

definition allocator_readConfig :: "'w host_ops \<Rightarrow> string \<Rightarrow> (Config, 'w) action" where
  "allocator_readConfig H path =
     andThen (orFatal id (OpenFile H path)) (\<lambda>configFile.
     andThen (orFatal id (ReadFile H configFile)) (\<lambda>configByte.
       orFatal id (\<lambda>w. (UnmarshalConfig H configByte, w))))"

text \<open>The bootstraps: the same code in the three mains.\<close>

definition noBootstraps :: "'w host_ops \<Rightarrow> string" where
  "noBootstraps H = ''ERROR: Must specify at least one bootstrap node through a command line flag, the configuration file, or setting the '' @
     ENV_KEY_BOOTSTRAPS H @ '' environment variable.''"

definition chooseBootstraps :: "'w host_ops \<Rightarrow> string list \<Rightarrow> Config \<Rightarrow> (string list, 'w) action" where
  "chooseBootstraps H bootstraps config =
     (if bootstraps = [] then
        (if Bootstraps config = [] then
           andThen (orFatal id (GetEnvBootstraps H)) (\<lambda>envBootstraps w.
             (if envBootstraps = [] then (Inl (Fatal (noBootstraps H)), w) else (Inr envBootstraps, w)))
         else orFatal id (\<lambda>w. (StringsToMultiaddrs H (Bootstraps config), w)))
      else (\<lambda>w. (Inr bootstraps, w)))"

text \<open>The passphrase; the allocator keeps its text beside it, for the containers.\<close>

definition choosePSK :: "'w host_ops \<Rightarrow> string option \<Rightarrow> (string option, 'w) action" where
  "choosePSK H psk = (if psk = None then orFatal id (GetEnvPSK H) else (\<lambda>w. (Inr psk, w)))"

definition allocator_choosePSK :: "'w host_ops \<Rightarrow> string option \<Rightarrow> (string option \<times> string, 'w) action" where
  "allocator_choosePSK H psk =
     (if psk = None then
        andThen (orFatal id (GetEnvPSK H)) (\<lambda>hPsk w. (let (sPsk, w1) = GetEnvPSKString H w in (Inr (hPsk, sPsk), w1)))
      else (\<lambda>w. (let (sPsk, w1) = GetFlagPSKString H w in (Inr (psk, sPsk), w1))))"

section \<open>The main functions\<close>

text \<open>
  A running proxy: its manager, its caches (the goroutine \<open>UpdateCache\<close> works on the peer cache), and its HTTP servers with their handlers.
\<close>

datatype http_handler = H_httpRequestHandler | H_httpMetricsHandler | H_requestHandler

record proxy_process =
  manager :: LCAManager
  registryCache :: RegistryCache
  peerCache :: PeerCache
  servers :: "(string \<times> http_handler) list"

text \<open>
  What the mains of the two proxies do alike: everything up to the configuration of the node, and the creation of the manager, whose result they dereference.
\<close>

definition proxy_prepare :: "'w host_ops \<Rightarrow> (string list \<Rightarrow> (positional, 'w) action)
    \<Rightarrow> (command_line \<times> positional \<times> NodeConfig, 'w) action" where
  "proxy_prepare H parse_positional =
     andThen (commandLine H ''~/.privKeyProxy'') (\<lambda>c.
     andThen (parse_positional (flag_args c)) (\<lambda>pos.
     andThen (orFatal id (CreateOrLoadKey H (keyFlags c))) (\<lambda>priv.
     andThen (readConfig H (configPath c)) (\<lambda>config.
     andThen (chooseBootstraps H (flag_bootstraps c) config) (\<lambda>bootstraps.
     andThen (choosePSK H (flag_psk c)) (\<lambda>psk w.
       (Inr (c, pos, (NewConfig H)\<lparr>PrivKey := priv, BootstrapPeers := bootstraps, PSK := psk\<rparr>), w)))))))"

definition startManager :: "('w, 'z) lca_ops_scheme \<Rightarrow> NodeConfig \<Rightarrow> positional \<Rightarrow> (LCAManager, 'w) action" where
  "startManager E nodeConfig pos =
     andThen
       (orFatal (\<lambda>e. ''ERROR: Unable to create LCA Manager'' @ [CHR 0x0A] @ e)
         (if mode pos = ''anonymous'' then NewLCAManager E nodeConfig [] []
          else NewLCAManager E nodeConfig (service pos) (address pos)))
       (\<lambda>m w. (case m of None \<Rightarrow> (Inl NilDereference, w) | Some lca \<Rightarrow> (Inr lca, w)))"

definition proxy_main :: "('w, 'z) lca_ops_scheme \<Rightarrow> 'w host_ops \<Rightarrow> (proxy_process, 'w) action" where
  "proxy_main E H =
     andThen (proxy_prepare H proxy_positional) (\<lambda>(c, pos, nodeConfig).
     andThen (startManager E nodeConfig pos) (\<lambda>lca w.
       (let rc = NewRegistryCache (rcacheTTL c);
            (pc, rc1) = NewPeerCache (Some rc);
            http = (''127.0.0.1:'' @ port pos, H_httpRequestHandler)
        in if mode pos = ''service'' then
             (let (t, w1) = Now E w
              in (Inr \<lparr>manager = lca\<lparr>Tolsr := t\<rparr>, registryCache = rc1, peerCache = pc,
                    servers = [http, (''127.0.0.1:'' @ metricsPort pos, H_httpMetricsHandler)]\<rparr>, w1))
           else (Inr \<lparr>manager = lca, registryCache = rc1, peerCache = pc, servers = [http]\<rparr>, w))))"

text \<open>The layer-4 proxy handles chain set-ups beside the manager's requests, and dies when its control endpoint cannot be served.\<close>

definition l4_main :: "('w, 'z) lca_ops_scheme \<Rightarrow> 'w host_ops \<Rightarrow> (proxy_process, 'w) action" where
  "l4_main E H =
     andThen (proxy_prepare H l4_positional) (\<lambda>(c, pos, nodeConfig).
     andThen (startManager E (nodeConfig\<lparr>HandlerProtocolIDs := HandlerProtocolIDs nodeConfig @ [chainSetupProtoID],
                                StreamHandlers := StreamHandlers nodeConfig @ [H_chainSetupHandler]\<rparr>) pos) (\<lambda>lca w.
       (let rc = NewRegistryCache (rcacheTTL c);
            (pc, rc1) = NewPeerCache (Some rc);
            (err, w1) = ListenAndServe H (ctrlHost @ '':'' @ port pos) w
        in (case err of
              Some e \<Rightarrow> (Inl (Fatal e), w1)
            | None \<Rightarrow> (Inr \<lparr>manager = lca, registryCache = rc1, peerCache = pc,
                         servers = [(ctrlHost @ '':'' @ port pos, H_requestHandler)]\<rparr>, w1)))))"

text \<open>
  The allocator. Its pointer may be nil; beside it stand the bootstraps and the passphrase of the handler that was registered. The Prometheus endpoint (not modelled) is started before the configuration is read.
\<close>

definition allocator_main :: "('w, 'z) alloc_ops_scheme \<Rightarrow> 'w host_ops \<Rightarrow> ((LCAAllocator \<times> string list \<times> string) option, 'w) action" where
  "allocator_main E H =
     andThen (commandLine H ''~/.privKeyAlloc'') (\<lambda>c.
     andThen (orFatal id (CreateOrLoadKey H (keyFlags c))) (\<lambda>priv.
     andThen (allocator_readConfig H (configPath c)) (\<lambda>config.
     andThen (chooseBootstraps H (flag_bootstraps c) config) (\<lambda>bootstraps.
     andThen (allocator_choosePSK H (flag_psk c)) (\<lambda>(hPsk, sPsk).
       orFatal id (NewLCAAllocator E ((NewConfig H)\<lparr>PrivKey := priv, BootstrapPeers := bootstraps, PSK := hPsk\<rparr>) sPsk))))))"

text \<open>
  The goroutine of the ticker: a culling round at each tick, with the order in which the map is visited. The method dereferences its receiver, so that a nil allocator panics (\<open>None\<close>).
\<close>

fun cull_ticks :: "('w, 'z) alloc_ops_scheme \<Rightarrow> (string \<times> string) list list \<Rightarrow> LCAAllocator option \<Rightarrow> 'w \<Rightarrow> (LCAAllocator option \<times> 'w) option" where
  "cull_ticks E [] a w = Some (a, w)"
| "cull_ticks E (entries # ticks) None w = None"
| "cull_ticks E (entries # ticks) (Some a) w =
     (let (a1, w1) = CullUnusedServices E entries a w in cull_ticks E ticks (Some a1) w1)"

section \<open>What a successful start has done\<close>

text \<open>The specification of the choice of bootstraps: the command line before the configuration file before the environment.\<close>

definition bootstraps_by_precedence :: "'w host_ops \<Rightarrow> command_line \<Rightarrow> Config \<Rightarrow> string list \<Rightarrow> bool" where
  "bootstraps_by_precedence H c config bs \<longleftrightarrow>
     (if flag_bootstraps c \<noteq> [] then bs = flag_bootstraps c
      else if Bootstraps config \<noteq> [] then StringsToMultiaddrs H (Bootstraps config) = (bs, nil_error)
      else bs \<noteq> [] \<and> (\<exists>v v'. GetEnvBootstraps H v = ((bs, nil_error), v')))"

text \<open>The documented behaviour of \<open>util.StringsToMultiaddrs\<close>: without an error it yields one address for each string.\<close>

definition keeps_length :: "'w host_ops \<Rightarrow> bool" where
  "keeps_length H \<longleftrightarrow> (\<forall>ss ms. StringsToMultiaddrs H ss = (ms, nil_error) \<longrightarrow> length ms = length ss)"

lemma chooseBootstraps_precedence:
  assumes "chooseBootstraps H (flag_bootstraps c) config w = (Inr bs, w')"
  shows "bootstraps_by_precedence H c config bs"
  using assms unfolding chooseBootstraps_def bootstraps_by_precedence_def
  by (auto elim!: action_elims split: if_splits) blast

lemma precedence_nonempty: "keeps_length H \<Longrightarrow> bootstraps_by_precedence H c config bs \<Longrightarrow> bs \<noteq> []"
  by (fastforce simp: bootstraps_by_precedence_def keeps_length_def split: if_splits)

text \<open>A node configuration that agrees with what the user specified.\<close>

definition specified_config :: "'w host_ops \<Rightarrow> command_line \<Rightarrow> NodeConfig \<Rightarrow> bool" where
  "specified_config H c cfg \<longleftrightarrow>
     (\<exists>v v'. FlagParse H v = (Some c, v')) \<and>
     (\<exists>v v'. CreateOrLoadKey H (keyFlags c) v = ((PrivKey cfg, nil_error), v')) \<and>
     (\<exists>bytes config. UnmarshalConfig H bytes = (config, nil_error) \<and> bootstraps_by_precedence H c config (BootstrapPeers cfg)) \<and>
     (if flag_psk c \<noteq> None then PSK cfg = flag_psk c else \<exists>v v'. GetEnvPSK H v = ((PSK cfg, nil_error), v'))"

lemma specified_config_update [simp]:
  "specified_config H c (cfg\<lparr>HandlerProtocolIDs := ps\<rparr>) = specified_config H c cfg"
  "specified_config H c (cfg\<lparr>StreamHandlers := hs\<rparr>) = specified_config H c cfg"
  "specified_config H c (cfg\<lparr>Rendezvous := rs\<rparr>) = specified_config H c cfg"
  by (simp_all add: specified_config_def)

lemma commandLine_Inr: "commandLine H kf w = (Inr c, w') \<Longrightarrow> \<exists>v. FlagParse H v = (Some c, w')"
  unfolding commandLine_def by (auto elim!: action_elims split: prod.splits option.splits)

lemma readConfig_Inr: "readConfig H path w = (Inr config, w') \<Longrightarrow> \<exists>bytes. UnmarshalConfig H bytes = (config, nil_error)"
  by (auto simp: readConfig_def split: prod.splits if_splits)

lemma allocator_readConfig_Inr: "allocator_readConfig H path w = (Inr config, w') \<Longrightarrow> \<exists>bytes. UnmarshalConfig H bytes = (config, nil_error)"
  unfolding allocator_readConfig_def by (auto elim!: action_elims)

lemma choosePSK_Inr: "choosePSK H psk w = (Inr r, w') \<Longrightarrow> (if psk \<noteq> None then r = psk else \<exists>v v'. GetEnvPSK H v = ((r, nil_error), v'))"
  unfolding choosePSK_def by (auto elim!: action_elims split: if_splits)

lemma specified_configI:
  assumes "commandLine H kf u = (Inr c, u1)" and "CreateOrLoadKey H (keyFlags c) u2 = ((PrivKey cfg, nil_error), u3)"
    and "UnmarshalConfig H bytes = (config, nil_error)" and "chooseBootstraps H (flag_bootstraps c) config u4 = (Inr (BootstrapPeers cfg), u5)"
    and "if flag_psk c \<noteq> None then PSK cfg = flag_psk c else \<exists>v v'. GetEnvPSK H v = ((PSK cfg, nil_error), v')"
  shows "specified_config H c cfg"
  unfolding specified_config_def
  using commandLine_Inr [OF assms(1)] assms(2,3,5) chooseBootstraps_precedence [OF assms(4)] by blast

lemma proxy_prepare_Inr:
  assumes "proxy_prepare H parse w = (Inr (c, pos, cfg), w')"
  obtains v v' where "parse (flag_args c) v = (Inr pos, v')" "specified_config H c cfg"
    "HandlerProtocolIDs cfg = HandlerProtocolIDs (NewConfig H)" "StreamHandlers cfg = StreamHandlers (NewConfig H)"
proof -
  from assms obtain priv config bs psk v0 v1 v2 v3 v4 v5 where
    run: "commandLine H ''~/.privKeyProxy'' w = (Inr c, v0)" "parse (flag_args c) v0 = (Inr pos, v1)"
    "CreateOrLoadKey H (keyFlags c) v1 = ((priv, nil_error), v2)" "readConfig H (configPath c) v2 = (Inr config, v3)"
    "chooseBootstraps H (flag_bootstraps c) config v3 = (Inr bs, v4)" "choosePSK H (flag_psk c) v4 = (Inr psk, v5)"
    and cfg: "cfg = (NewConfig H)\<lparr>PrivKey := priv, BootstrapPeers := bs, PSK := psk\<rparr>"
    unfolding proxy_prepare_def by (auto elim!: action_elims)
  from run(4) obtain bytes where "UnmarshalConfig H bytes = (config, nil_error)" by (blast dest: readConfig_Inr)
  with run have "specified_config H c cfg"
    by (intro specified_configI [where cfg = cfg]) (auto simp: cfg dest: choosePSK_Inr)
  with that run(2) cfg show thesis by simp
qed

text \<open>The manager that is started: the node is created from the configuration with the manager's handler; a service name is looked up and its hash advertised.\<close>

definition with_manager :: "NodeConfig \<Rightarrow> string \<Rightarrow> NodeConfig" where
  "with_manager cfg serviceAddress =
     cfg\<lparr>StreamHandlers := StreamHandlers cfg @ [H_RequestHandler serviceAddress],
         HandlerProtocolIDs := HandlerProtocolIDs cfg @ [LCAManagerRequestProtID]\<rparr>"

lemma NewLCAManager_cases:
  assumes "NewLCAManager E cfg s a w = ((m, err), w')"
  obtains (failed) e where "m = None" "err = Some e"
  | (anonymous) "s = []" "m = Some \<lparr>P2PHash = [], Tolsr = 0\<rparr>" "err = nil_error" "NewNode E (with_manager cfg a) w = (nil_error, w')"
  | (named) info w1 w2 where "s \<noteq> []" "m = Some \<lparr>P2PHash = ContentHash info, Tolsr = 0\<rparr>" "err = nil_error"
      "NewNode E (with_manager cfg a) w = (nil_error, w1)" "GetServiceWithHostRouting E s w1 = ((info, nil_error), w2)"
      "w' = Advertise E (ContentHash info) w2"
  using assms unfolding NewLCAManager_def with_manager_def by (auto simp: Let_def split: prod.splits if_splits)

definition manager_for :: "('w, 'z) lca_ops_scheme \<Rightarrow> string \<Rightarrow> LCAManager \<Rightarrow> bool" where
  "manager_for E s lca \<longleftrightarrow> Tolsr lca = 0 \<and>
     (if s = [] then P2PHash lca = [] else \<exists>info. registry_said E s info \<and> P2PHash lca = ContentHash info)"

lemma startManager_Inr:
  assumes "startManager E cfg pos w = (Inr lca, w')"
  obtains s a v where "(s, a) = (if mode pos = ''anonymous'' then ([], []) else (service pos, address pos))"
    "NewNode E (with_manager cfg a) w = (nil_error, v)" "manager_for E s lca"
proof -
  obtain s a where sa: "(s, a) = (if mode pos = ''anonymous'' then ([], []) else (service pos, address pos))" by (cases "mode pos = ''anonymous''") auto
  then have "startManager E cfg pos = andThen (orFatal (\<lambda>e. ''ERROR: Unable to create LCA Manager'' @ [CHR 0x0A] @ e) (NewLCAManager E cfg s a))
      (\<lambda>m w. (case m of None \<Rightarrow> (Inl NilDereference, w) | Some lca \<Rightarrow> (Inr lca, w)))"
    by (simp add: startManager_def split: if_splits)
  with assms have "NewLCAManager E cfg s a w = ((Some lca, nil_error), w')"
    by (auto elim!: action_elims split: option.splits)
  then show thesis
    by (cases rule: NewLCAManager_cases) (use that [OF sa] in \<open>auto simp: manager_for_def intro: registry_saidI\<close>)
qed

lemma startManager_no_panic: "fst (startManager E cfg pos w) \<noteq> Inl NilDereference"
proof -
  have "fst (andThen (orFatal fmt (NewLCAManager E cfg s a))
      (\<lambda>m w. (case m of None \<Rightarrow> (Inl NilDereference, w) | Some lca \<Rightarrow> (Inr lca, w))) w) \<noteq> Inl NilDereference" for fmt s a
  proof -
    obtain m err w' where n: "NewLCAManager E cfg s a w = ((m, err), w')" by (metis prod.exhaust)
    then show ?thesis by (cases rule: NewLCAManager_cases) (use n in simp_all)
  qed
  then show ?thesis by (simp add: startManager_def)
qed

lemma proxy_main_Inr:
  assumes "proxy_main E H w = (Inr p, w')"
  obtains c pos cfg lca v v' where "proxy_prepare H proxy_positional w = (Inr (c, pos, cfg), v)"
    "startManager E cfg pos v = (Inr lca, v')"
    "registryCache p = NewRegistryCache (rcacheTTL c)" "peerCache p = fst (NewPeerCache (Some (NewRegistryCache (rcacheTTL c))))"
    "if mode pos = ''service'' then manager p = lca\<lparr>Tolsr := fst (Now E v')\<rparr> \<and>
         servers p = [(''127.0.0.1:'' @ port pos, H_httpRequestHandler), (''127.0.0.1:'' @ metricsPort pos, H_httpMetricsHandler)]
       else manager p = lca \<and> servers p = [(''127.0.0.1:'' @ port pos, H_httpRequestHandler)]"
proof -
  from assms obtain c pos cfg v lca v' where "proxy_prepare H proxy_positional w = (Inr (c, pos, cfg), v)" "startManager E cfg pos v = (Inr lca, v')"
    unfolding proxy_main_def by (auto elim!: action_elims)
  with assms show thesis
    by (intro that [of c pos cfg v lca v']) (auto simp: proxy_main_def NewPeerCache_def Let_def split: prod.splits if_splits)
qed

lemma l4_main_Inr:
  assumes "l4_main E H w = (Inr p, w')"
  obtains c pos cfg lca v v' where "proxy_prepare H l4_positional w = (Inr (c, pos, cfg), v)"
    "startManager E (cfg\<lparr>HandlerProtocolIDs := HandlerProtocolIDs cfg @ [chainSetupProtoID], StreamHandlers := StreamHandlers cfg @ [H_chainSetupHandler]\<rparr>) pos v = (Inr lca, v')"
    "ListenAndServe H (ctrlHost @ '':'' @ port pos) v' = (nil_error, w')"
    "p = \<lparr>manager = lca, registryCache = NewRegistryCache (rcacheTTL c), peerCache = fst (NewPeerCache (Some (NewRegistryCache (rcacheTTL c)))),
          servers = [(ctrlHost @ '':'' @ port pos, H_requestHandler)]\<rparr>"
proof -
  from assms obtain c pos cfg v lca v' where "proxy_prepare H l4_positional w = (Inr (c, pos, cfg), v)"
    "startManager E (cfg\<lparr>HandlerProtocolIDs := HandlerProtocolIDs cfg @ [chainSetupProtoID], StreamHandlers := StreamHandlers cfg @ [H_chainSetupHandler]\<rparr>) pos v = (Inr lca, v')"
    unfolding l4_main_def by (auto elim!: action_elims)
  with assms show thesis
    by (intro that [of c pos cfg v lca v']) (auto simp: l4_main_def NewPeerCache_def Let_def split: prod.splits option.splits)
qed

lemma allocator_choosePSK_Inr:
  assumes "allocator_choosePSK H psk w = (Inr (hPsk, sPsk), w')"
  shows "if psk \<noteq> None then hPsk = psk else \<exists>v v'. GetEnvPSK H v = ((hPsk, nil_error), v')"
    and "\<exists>u u'. (if psk = None then GetEnvPSKString H u = (sPsk, u') else GetFlagPSKString H u = (sPsk, u'))"
  using assms unfolding allocator_choosePSK_def by (auto elim!: action_elims split: if_splits prod.splits) blast+

lemma allocator_main_Inr:
  assumes "allocator_main E H w = (Inr r, w')"
  obtains c cfg sPsk v where "specified_config H c cfg" "NewLCAAllocator E cfg sPsk v = ((r, nil_error), w')"
    "\<exists>u u'. (if flag_psk c = None then GetEnvPSKString H u = (sPsk, u') else GetFlagPSKString H u = (sPsk, u'))"
proof -
  from assms obtain c priv config bs hPsk sPsk v0 v1 v2 v3 v4 v5 where
    run: "commandLine H ''~/.privKeyAlloc'' w = (Inr c, v0)" "CreateOrLoadKey H (keyFlags c) v0 = ((priv, nil_error), v1)"
    "allocator_readConfig H (configPath c) v1 = (Inr config, v2)"
    "chooseBootstraps H (flag_bootstraps c) config v2 = (Inr bs, v3)" "allocator_choosePSK H (flag_psk c) v3 = (Inr (hPsk, sPsk), v4)"
    and new: "NewLCAAllocator E ((NewConfig H)\<lparr>PrivKey := priv, BootstrapPeers := bs, PSK := hPsk\<rparr>) sPsk v4 = ((r, nil_error), w')"
    unfolding allocator_main_def by (auto elim!: action_elims)
  from run(3) obtain bytes where "UnmarshalConfig H bytes = (config, nil_error)" by (blast dest: allocator_readConfig_Inr)
  moreover note psk = allocator_choosePSK_Inr [OF run(5)]
  ultimately have "specified_config H c ((NewConfig H)\<lparr>PrivKey := priv, BootstrapPeers := bs, PSK := hPsk\<rparr>)"
    using run by (intro specified_configI) auto
  then show thesis using that new psk(2) by blast
qed

lemma specified_nonempty: "keeps_length H \<Longrightarrow> specified_config H c cfg \<Longrightarrow> BootstrapPeers cfg \<noteq> []"
  unfolding specified_config_def by (blast dest: precedence_nonempty)

lemma NewLCAAllocator_node:
  assumes "NewLCAAllocator E cfg sPsk w = ((r, nil_error), w')"
  obtains v where "NewNode E (cfg\<lparr>Rendezvous := Rendezvous cfg @ [LCAAllocatorRendezvous]\<rparr>) w = (nil_error, v)"
  using assms unfolding NewLCAAllocator_def by (auto split: prod.splits if_splits)

text \<open>The handlers of a node stand beside their protocols.\<close>

definition handles :: "protocol_id \<Rightarrow> stream_handler \<Rightarrow> bool" where
  "handles proto h =
     (case h of H_RequestHandler a \<Rightarrow> proto = LCAManagerRequestProtID | H_chainSetupHandler \<Rightarrow> proto = chainSetupProtoID)"

definition config_typed :: "NodeConfig \<Rightarrow> bool" where
  "config_typed cfg = list_all2 handles (HandlerProtocolIDs cfg) (StreamHandlers cfg)"

lemma specified_with_manager [simp]: "specified_config H c (with_manager cfg a) = specified_config H c cfg"
  by (simp add: with_manager_def)

lemma with_manager_typed [simp]: "config_typed (with_manager cfg a) = config_typed cfg"
  by (auto simp: config_typed_def with_manager_def handles_def list_all2_append2 list_all2_Cons2 dest: list_all2_lengthD)

lemma andThen_Inl:
  assumes "andThen act k w = (Inl e, w')"
  obtains (first) "act w = (Inl e, w')" | (second) x w1 where "act w = (Inr x, w1)" "k x w1 = (Inl e, w')"
  using assms by (auto simp: andThen_def split: prod.splits sum.splits)

lemma orFatal_Inl: "orFatal fmt call w = (Inl e, w') \<Longrightarrow> \<exists>m. e = Fatal m"
  by (auto simp: orFatal_def split: prod.splits option.splits)

text \<open>The exits of the steps: all of them are fatal errors, except that of the positional arguments, that of \<open>flag.Parse\<close>, and a nil manager.\<close>

lemma action_exits:
  "commandLine H kf w = (Inl e, w') \<Longrightarrow> e = FlagExit \<or> (\<exists>m. e = Fatal m)"
  "readConfig H path w = (Inl e, w') \<Longrightarrow> \<exists>m. e = Fatal m"
  "chooseBootstraps H bs config w = (Inl e, w') \<Longrightarrow> \<exists>m. e = Fatal m"
  "choosePSK H psk w = (Inl e, w') \<Longrightarrow> \<exists>m. e = Fatal m"
  "startManager E cfg pos w = (Inl e, w') \<Longrightarrow> \<exists>m. e = Fatal m"
proof -
  show "commandLine H kf w = (Inl e, w') \<Longrightarrow> e = FlagExit \<or> (\<exists>m. e = Fatal m)"
    unfolding commandLine_def by (auto elim!: andThen_Inl dest: orFatal_Inl split: prod.splits option.splits)
  show "readConfig H path w = (Inl e, w') \<Longrightarrow> \<exists>m. e = Fatal m"
    by (auto simp: readConfig_def split: prod.splits if_splits)
  show "chooseBootstraps H bs config w = (Inl e, w') \<Longrightarrow> \<exists>m. e = Fatal m"
    unfolding chooseBootstraps_def by (auto elim!: andThen_Inl dest: orFatal_Inl split: if_splits)
  show "choosePSK H psk w = (Inl e, w') \<Longrightarrow> \<exists>m. e = Fatal m"
    unfolding choosePSK_def by (auto elim!: andThen_Inl dest: orFatal_Inl split: if_splits)
  show "startManager E cfg pos w = (Inl e, w') \<Longrightarrow> \<exists>m. e = Fatal m"
    using startManager_no_panic [of E cfg pos w] unfolding startManager_def by (auto elim!: andThen_Inl dest: orFatal_Inl split: option.splits)
qed

lemma proxy_prepare_exits:
  assumes "proxy_prepare H parse w = (Inl e, w')"
  obtains (other) "e = FlagExit \<or> (\<exists>m. e = Fatal m)"
  | (positional) c w1 where "commandLine H ''~/.privKeyProxy'' w = (Inr c, w1)" "parse (flag_args c) w1 = (Inl e, w')"
  using assms unfolding proxy_prepare_def by (auto elim!: andThen_Inl dest: orFatal_Inl action_exits)

lemma proxy_main_exits:
  assumes "proxy_main E H w = (Inl e, w')"
  shows "e = FlagExit \<or> (\<exists>m. e = Fatal m) \<or>
    (\<exists>c w1. commandLine H ''~/.privKeyProxy'' w = (Inr c, w1) \<and> proxy_positional (flag_args c) w1 = (Inl e, w'))"
  using assms unfolding proxy_main_def
  by (auto elim!: andThen_Inl elim: proxy_prepare_exits dest: action_exits(5) simp: Let_def split: prod.splits if_splits)

lemma l4_main_exits:
  assumes "l4_main E H w = (Inl e, w')"
  shows "e = FlagExit \<or> (\<exists>m. e = Fatal m) \<or>
    (\<exists>c w1. commandLine H ''~/.privKeyProxy'' w = (Inr c, w1) \<and> l4_positional (flag_args c) w1 = (Inl e, w'))"
  using assms unfolding l4_main_def
  by (auto elim!: andThen_Inl elim: proxy_prepare_exits dest: action_exits(5) simp: Let_def split: prod.splits option.splits)

lemma manager_for_anonymous [simp]: "manager_for E [] lca \<longleftrightarrow> lca = \<lparr>P2PHash = [], Tolsr = 0\<rparr>"
  by (cases lca) (auto simp: manager_for_def)

lemma proxy_positional_Inr:
  "proxy_positional args w = (Inr pos, w') \<Longrightarrow>
     (\<exists>pt. args = [pt] \<and> pos = \<lparr>mode = ''anonymous'', port = pt, service = [], address = [], metricsPort = []\<rparr>) \<or>
     (\<exists>pt s a mp. args = [pt, s, a, mp] \<and> pos = \<lparr>mode = ''service'', port = pt, service = s, address = a, metricsPort = mp\<rparr>)"
  by (auto simp: proxy_positional_def split: list.splits)

lemma l4_positional_Inr:
  "l4_positional args w = (Inr pos, w') \<Longrightarrow>
     (\<exists>pt. args = [pt] \<and> pos = \<lparr>mode = ''anonymous'', port = pt, service = [], address = [], metricsPort = []\<rparr>) \<or>
     (\<exists>pt s a. args = [pt, s, a] \<and> pos = \<lparr>mode = ''service'', port = pt, service = s, address = a, metricsPort = []\<rparr>)"
  by (auto simp: l4_positional_def split: list.splits)

lemma prepared_manager:
  assumes "proxy_prepare H parse w = (Inr (c, pos, cfg), v)" and "startManager E cfg' pos v = (Inr lca, v')"
  shows "\<exists>u u'. parse (flag_args c) u = (Inr pos, u')" and "\<exists>v v'. FlagParse H v = (Some c, v')"
    and "manager_for E (if mode pos = ''anonymous'' then [] else service pos) lca"
proof -
  from assms(1) have "specified_config H c cfg" "\<exists>u u'. parse (flag_args c) u = (Inr pos, u')" by (blast elim: proxy_prepare_Inr)+
  then show "\<exists>u u'. parse (flag_args c) u = (Inr pos, u')" "\<exists>v v'. FlagParse H v = (Some c, v')" by (simp_all add: specified_config_def)
  from assms(2) show "manager_for E (if mode pos = ''anonymous'' then [] else service pos) lca"
    by (auto elim!: startManager_Inr split: if_splits)
qed

lemma proxy_positional_exit:
  "if length args \<noteq> 1 \<and> length args \<noteq> 4 then proxy_positional args w = (Inl UsageExit, w) else \<exists>pos. proxy_positional args w = (Inr pos, w)"
  by (auto simp: proxy_positional_def split: list.splits)

lemma l4_positional_exit:
  "if length args \<noteq> 1 \<and> length args \<noteq> 3 then l4_positional args w = (Inl UsageExit, w) else \<exists>pos. l4_positional args w = (Inr pos, w)"
  by (auto simp: l4_positional_def split: list.splits)

text \<open>A process with a metrics endpoint has taken the time of its start.\<close>

lemma service_start_time:
  assumes "proxy_main E H w = (Inr p, w')" and "(addr, H_httpMetricsHandler) \<in> set (servers p)"
  obtains u where "Now E u = (Tolsr (manager p), w')"
  using assms unfolding proxy_main_def by (auto elim!: action_elims simp: Let_def NewPeerCache_def split: prod.splits if_splits)

section \<open>The contract of a proxy's start\<close>

text \<open>
  What the two mains promise, whatever their positional arguments and the handlers they add (\<open>extra\<close>): a start prepares the node, starts the manager on it and creates the caches; everything
  that ends the process is an error that is reported.
\<close>

definition add_handlers :: "NodeConfig \<Rightarrow> (protocol_id \<times> stream_handler) list \<Rightarrow> NodeConfig" where
  "add_handlers cfg extra = cfg\<lparr>HandlerProtocolIDs := HandlerProtocolIDs cfg @ map fst extra, StreamHandlers := StreamHandlers cfg @ map snd extra\<rparr>"

lemma add_handlers_Nil [simp]: "add_handlers cfg [] = cfg"
  by (simp add: add_handlers_def)

locale proxy_startup =
  fixes E :: "('w, 'z) lca_ops_scheme" and H :: "'w host_ops" and main :: "(proxy_process, 'w) action"
    and parse :: "string list \<Rightarrow> (positional, 'w) action" and extra :: "(protocol_id \<times> stream_handler) list"
  assumes started: "main w = (Inr p, w') \<Longrightarrow> \<exists>c pos cfg lca v v'. proxy_prepare H parse w = (Inr (c, pos, cfg), v) \<and>
      startManager E (add_handlers cfg extra) pos v = (Inr lca, v') \<and>
      registryCache p = NewRegistryCache (rcacheTTL c) \<and> peerCache p = fst (NewPeerCache (Some (NewRegistryCache (rcacheTTL c))))"
    and unprepared: "proxy_prepare H parse w = (Inl e, w') \<Longrightarrow> main w = (Inl e, w')"
    and ended: "main w = (Inl e, w') \<Longrightarrow> e = FlagExit \<or> (\<exists>m. e = Fatal m) \<or>
      (\<exists>c w1. commandLine H ''~/.privKeyProxy'' w = (Inr c, w1) \<and> parse (flag_args c) w1 = (Inl e, w'))"
    and usage: "parse args w = (Inl e, w') \<Longrightarrow> e = UsageExit \<and> w' = w"
    and extra_typed: "list_all2 handles (map fst extra) (map snd extra)"
begin

lemma node:
  assumes "main w = (Inr p, w')"
  obtains c cfg a v v' where "specified_config H c cfg" "NewNode E (with_manager (add_handlers cfg extra) a) v = (nil_error, v')"
    "HandlerProtocolIDs cfg = HandlerProtocolIDs (NewConfig H)" "StreamHandlers cfg = StreamHandlers (NewConfig H)"
proof -
  from started [OF assms] obtain c pos cfg lca v v' where prep: "proxy_prepare H parse w = (Inr (c, pos, cfg), v)"
    and mgr: "startManager E (add_handlers cfg extra) pos v = (Inr lca, v')" by blast
  from mgr obtain s a u where node: "NewNode E (with_manager (add_handlers cfg extra) a) v = (nil_error, u)" by (rule startManager_Inr)
  from prep show thesis by (rule proxy_prepare_Inr) (rule that [OF _ node])
qed

lemma joins:
  assumes "main w = (Inr p, w')" and "keeps_length H"
  shows "\<exists>c cfg v v'. specified_config H c cfg \<and> BootstrapPeers cfg \<noteq> [] \<and> NewNode E cfg v = (nil_error, v')"
proof -
  from assms(1) obtain c cfg a v v' where "specified_config H c cfg" "NewNode E (with_manager (add_handlers cfg extra) a) v = (nil_error, v')" by (rule node)
  then have "specified_config H c (with_manager (add_handlers cfg extra) a)" by (simp add: add_handlers_def)
  with specified_nonempty [OF assms(2) this] \<open>NewNode E _ v = _\<close> show ?thesis by blast
qed

lemma typed:
  assumes "main w = (Inr p, w')" and "config_typed (NewConfig H)"
  shows "\<exists>cfg a v v'. NewNode E cfg v = (nil_error, v') \<and> config_typed cfg \<and>
    HandlerProtocolIDs cfg = HandlerProtocolIDs (NewConfig H) @ map fst extra @ [LCAManagerRequestProtID] \<and>
    StreamHandlers cfg = StreamHandlers (NewConfig H) @ map snd extra @ [H_RequestHandler a]"
proof -
  from assms(1) obtain c cfg a v v' where run: "NewNode E (with_manager (add_handlers cfg extra) a) v = (nil_error, v')"
    "HandlerProtocolIDs cfg = HandlerProtocolIDs (NewConfig H)" "StreamHandlers cfg = StreamHandlers (NewConfig H)" by (rule node)
  moreover from run assms(2) extra_typed have "config_typed (with_manager (add_handlers cfg extra) a)"
    unfolding with_manager_typed by (simp add: config_typed_def add_handlers_def list_all2_appendI)
  ultimately show ?thesis
    by (intro exI [of _ "with_manager (add_handlers cfg extra) a"] exI [of _ a] exI [of _ v] exI [of _ v']) (simp add: with_manager_def add_handlers_def)
qed

lemma fresh_caches:
  assumes "main w = (Inr p, w')"
  shows "pcache_reach E srt (peerCache p)" and "rcache_reach E (registryCache p)"
  using started [OF assms] by (auto simp: pcache_reach.new rcache_reach.new)

lemma no_nil_dereference: "fst (main w) \<noteq> Inl NilDereference"
  by (cases "main w") (auto dest!: ended dest: usage)

lemma usage_exit:
  assumes "commandLine H ''~/.privKeyProxy'' w = (Inr c, w1)"
  shows "parse (flag_args c) w1 = (Inl e, w') \<Longrightarrow> main w = (Inl UsageExit, w1)"
    and "parse (flag_args c) w1 = (Inr pos, w') \<Longrightarrow> fst (main w) \<noteq> Inl UsageExit"
proof -
  show "main w = (Inl UsageExit, w1)" if "parse (flag_args c) w1 = (Inl e, w')"
    using assms that usage [OF that] by (intro unprepared) (simp add: proxy_prepare_def)
  show "fst (main w) \<noteq> Inl UsageExit" if "parse (flag_args c) w1 = (Inr pos, w')"
    using assms that by (cases "main w") (auto dest!: ended)
qed

end

interpretation hp: proxy_startup E H "proxy_main E H" proxy_positional "[]" for E :: "('w, 'z) lca_ops_scheme" and H :: "'w host_ops"
proof
  fix w p w' e args
  show "proxy_main E H w = (Inr p, w') \<Longrightarrow> \<exists>c pos cfg lca v v'. proxy_prepare H proxy_positional w = (Inr (c, pos, cfg), v) \<and>
      startManager E (add_handlers cfg []) pos v = (Inr lca, v') \<and>
      registryCache p = NewRegistryCache (rcacheTTL c) \<and> peerCache p = fst (NewPeerCache (Some (NewRegistryCache (rcacheTTL c))))"
    by (erule proxy_main_Inr) (unfold add_handlers_Nil, blast)
  show "proxy_prepare H proxy_positional w = (Inl e, w') \<Longrightarrow> proxy_main E H w = (Inl e, w')" by (simp add: proxy_main_def)
  show "proxy_positional args w = (Inl e, w') \<Longrightarrow> e = UsageExit \<and> w' = w" by (auto simp: proxy_positional_def split: list.splits)
qed (auto dest: proxy_main_exits)

interpretation l4p: proxy_startup E H "l4_main E H" l4_positional "[(chainSetupProtoID, H_chainSetupHandler)]"
  for E :: "('w, 'z) lca_ops_scheme" and H :: "'w host_ops"
proof
  fix w p w' e args
  show "l4_main E H w = (Inr p, w') \<Longrightarrow> \<exists>c pos cfg lca v v'. proxy_prepare H l4_positional w = (Inr (c, pos, cfg), v) \<and>
      startManager E (add_handlers cfg [(chainSetupProtoID, H_chainSetupHandler)]) pos v = (Inr lca, v') \<and>
      registryCache p = NewRegistryCache (rcacheTTL c) \<and> peerCache p = fst (NewPeerCache (Some (NewRegistryCache (rcacheTTL c))))"
    by (erule l4_main_Inr) (unfold add_handlers_def list.map fst_conv snd_conv, fastforce)
  show "proxy_prepare H l4_positional w = (Inl e, w') \<Longrightarrow> l4_main E H w = (Inl e, w')" by (simp add: l4_main_def)
  show "l4_positional args w = (Inl e, w') \<Longrightarrow> e = UsageExit \<and> w' = w" by (auto simp: l4_positional_def split: list.splits)
qed (auto dest: l4_main_exits simp: handles_def)

section \<open>A concrete host\<close>

text \<open>
  A host whose environment names one bootstrap and a passphrase, with a configuration file without bootstraps, for a given list of positional arguments.
\<close>

definition demo_line :: "string list \<Rightarrow> command_line" where
  "demo_line args = \<lparr>opt_configfile = None, opt_rcache_ttl = None, keyFlags = ''k'', flag_bootstraps = [], flag_psk = None, flag_args = args\<rparr>"

definition demo_host :: "string list \<Rightarrow> int host_ops" where
  "demo_host args = \<lparr>
     AddKeyFlags = (\<lambda>k w. (((), None), w)), AddBootstrapFlags = (\<lambda>w. (((), None), w)), AddPSKFlag = (\<lambda>w. (((), None), w)),
     FlagParse = (\<lambda>w. (Some (demo_line args), w)),
     CreateOrLoadKey = (\<lambda>k w. ((''key'', None), w)),
     OpenFile = (\<lambda>path w. if path = ''../conf/conf.json'' then ((3, None), w) else ((0, Some ''no such file''), w)),
     ReadFile = (\<lambda>f w. ((''{}'', None), w)), CloseFile = (\<lambda>f w. w),
     UnmarshalConfig = (\<lambda>b. (\<lparr>SoftReq = zero_PerfInd, HardReq = zero_PerfInd, Bootstraps = []\<rparr>, None)),
     ENV_KEY_BOOTSTRAPS = ''P2P_BOOTSTRAPS'', GetEnvBootstraps = (\<lambda>w. (([''/ip4/10.0.0.9/tcp/4001''], None), w)),
     StringsToMultiaddrs = (\<lambda>ss. (ss, None)), GetEnvPSK = (\<lambda>w. ((Some ''hash'', None), w)),
     GetEnvPSKString = (\<lambda>w. (''secret'', w)), GetFlagPSKString = (\<lambda>w. ([], w)),
     NewConfig = \<lparr>PrivKey = [], BootstrapPeers = [], PSK = None, HandlerProtocolIDs = [], StreamHandlers = [], Rendezvous = []\<rparr>,
     ListenAndServe = (\<lambda>addr w. (None, w))\<rparr>"

lemma demo_host_laws: "keeps_length (demo_host args)" "config_typed (NewConfig (demo_host args))"
  by (simp_all add: keeps_length_def config_typed_def demo_host_def)

lemma demo_host_serves [simp]: "ListenAndServe (demo_host args) addr w = (nil_error, w)"
  by (simp add: demo_host_def)

lemma demo_host_prepare:
  assumes "parse args w = (Inr pos, w)"
  shows "proxy_prepare (demo_host args) parse w =
     (Inr (demo_line args, pos, \<lparr>PrivKey = ''key'', BootstrapPeers = [''/ip4/10.0.0.9/tcp/4001''], PSK = Some ''hash'',
        HandlerProtocolIDs = [], StreamHandlers = [], Rendezvous = []\<rparr>), w)"
  using assms by (simp add: demo_host_def demo_line_def proxy_prepare_def commandLine_def andThen_def orFatal_def readConfig_def configPath_def
      chooseBootstraps_def choosePSK_def)

lemmas demo_start_simps = demo_host_prepare proxy_positional_def l4_positional_def startManager_def NewLCAManager_def NewPeerCache_def rcacheTTL_def ctrlHost_def
  demo_line_def demo_lca_def demo_ops_def demo_info_def

lemma demo_proxy_main:
  "proxy_main demo_lca (demo_host [''80'', ''web'', ''10.0.0.1:8000'', ''9001'']) 0 =
     (Inr \<lparr>manager = \<lparr>P2PHash = ''h-web'', Tolsr = 0\<rparr>, registryCache = NewRegistryCache 3600,
           peerCache = fst (NewPeerCache None),
           servers = [(''127.0.0.1:80'', H_httpRequestHandler), (''127.0.0.1:9001'', H_httpMetricsHandler)]\<rparr>, 1000000)"
  by (simp add: proxy_main_def demo_start_simps)

lemma demo_l4_main:
  "l4_main demo_lca (demo_host [''80'']) 0 =
     (Inr \<lparr>manager = \<lparr>P2PHash = [], Tolsr = 0\<rparr>, registryCache = NewRegistryCache 3600,
           peerCache = fst (NewPeerCache None), servers = [(''127.0.0.1:80'', H_requestHandler)]\<rparr>, 0)"
  by (simp add: l4_main_def demo_start_simps)

section \<open>Properties\<close>

text \<open>
  C18. No program starts without bootstraps, and all three choose them alike: when one of the three mains leaves its process running, its node was created with the key that the key flags
  name, with the passphrase of the command line or else of the environment, and with a non-empty list of bootstraps: those of the command line, or else those of the configuration
  file, or else those of the environment.
\<close>
theorem mains_join_network:
  assumes "keeps_length H" and "keeps_length G"
  shows "(\<forall>w p w'. proxy_main E H w = (Inr p, w') \<longrightarrow>
      (\<exists>c cfg v v'. specified_config H c cfg \<and> BootstrapPeers cfg \<noteq> [] \<and> NewNode E cfg v = (nil_error, v'))) \<and>
    (\<forall>w p w'. l4_main E H w = (Inr p, w') \<longrightarrow>
      (\<exists>c cfg v v'. specified_config H c cfg \<and> BootstrapPeers cfg \<noteq> [] \<and> NewNode E cfg v = (nil_error, v'))) \<and>
    (\<forall>w r w'. allocator_main A G w = (Inr r, w') \<longrightarrow>
      (\<exists>c cfg v v'. specified_config G c cfg \<and> BootstrapPeers cfg \<noteq> [] \<and> NewNode A cfg v = (nil_error, v')))"
proof (intro conjI allI impI)
  fix w p w'
  show "proxy_main E H w = (Inr p, w') \<Longrightarrow> \<exists>c cfg v v'. specified_config H c cfg \<and> BootstrapPeers cfg \<noteq> [] \<and> NewNode E cfg v = (nil_error, v')"
    by (rule hp.joins [OF _ assms(1)])
  show "l4_main E H w = (Inr p, w') \<Longrightarrow> \<exists>c cfg v v'. specified_config H c cfg \<and> BootstrapPeers cfg \<noteq> [] \<and> NewNode E cfg v = (nil_error, v')"
    by (rule l4p.joins [OF _ assms(1)])
next
  fix w r w'
  assume "allocator_main A G w = (Inr r, w')"
  then obtain c cfg sPsk v where spec: "specified_config G c cfg" and new: "NewLCAAllocator A cfg sPsk v = ((r, nil_error), w')" by (rule allocator_main_Inr)
  from new obtain u where "NewNode A (cfg\<lparr>Rendezvous := Rendezvous cfg @ [LCAAllocatorRendezvous]\<rparr>) v = (nil_error, u)" by (rule NewLCAAllocator_node)
  moreover from spec specified_nonempty [OF assms(2) spec] have "specified_config G c (cfg\<lparr>Rendezvous := Rendezvous cfg @ [LCAAllocatorRendezvous]\<rparr>)"
    "BootstrapPeers (cfg\<lparr>Rendezvous := Rendezvous cfg @ [LCAAllocatorRendezvous]\<rparr>) \<noteq> []" by simp_all
  ultimately show "\<exists>c cfg v v'. specified_config G c cfg \<and> BootstrapPeers cfg \<noteq> [] \<and> NewNode A cfg v = (nil_error, v')" by blast
qed

text \<open>Witness of C18: a proxy in service mode that finds its bootstrap in the environment.\<close>
theorem mains_join_network_witness:
  "\<exists>c cfg v v'. specified_config (demo_host [''80'', ''web'', ''10.0.0.1:8000'', ''9001'']) c cfg \<and> BootstrapPeers cfg \<noteq> [] \<and>
     NewNode demo_lca cfg v = (nil_error, v')"
  using mains_join_network [OF demo_host_laws(1) demo_host_laws(1), of demo_lca "[''80'', ''web'', ''10.0.0.1:8000'', ''9001'']"] demo_proxy_main by blast

text \<open>
  C31. Every protocol a node offers is served by its own handler: if the default configuration pairs protocols and handlers, so does the configuration the nodes of both proxies are created with; the
  HTTP proxy adds the manager's request protocol, and the layer-4 proxy adds the chain set-up protocol and the manager's request protocol, each with its handler.
\<close>
theorem node_handlers_typed:
  assumes "config_typed (NewConfig H)"
  shows "(proxy_main E H w = (Inr p, w') \<longrightarrow>
      (\<exists>cfg a v v'. NewNode E cfg v = (nil_error, v') \<and> config_typed cfg \<and>
         HandlerProtocolIDs cfg = HandlerProtocolIDs (NewConfig H) @ [LCAManagerRequestProtID] \<and>
         StreamHandlers cfg = StreamHandlers (NewConfig H) @ [H_RequestHandler a])) \<and>
    (l4_main E H w = (Inr p, w') \<longrightarrow>
      (\<exists>cfg a v v'. NewNode E cfg v = (nil_error, v') \<and> config_typed cfg \<and>
         HandlerProtocolIDs cfg = HandlerProtocolIDs (NewConfig H) @ [chainSetupProtoID, LCAManagerRequestProtID] \<and>
         StreamHandlers cfg = StreamHandlers (NewConfig H) @ [H_chainSetupHandler, H_RequestHandler a]))"
  using hp.typed [of E H w p w'] l4p.typed [of E H w p w'] assms by simp

text \<open>Witness of C31: a layer-4 proxy in anonymous mode.\<close>
theorem node_handlers_typed_witness:
  "\<exists>cfg a v v'. NewNode demo_lca cfg v = (nil_error, v') \<and> config_typed cfg \<and>
     HandlerProtocolIDs cfg = [chainSetupProtoID, LCAManagerRequestProtID] \<and> StreamHandlers cfg = [H_chainSetupHandler, H_RequestHandler a]"
  using node_handlers_typed [OF demo_host_laws(2) [of "[''80'']"], THEN conjunct2, THEN mp, OF demo_l4_main] by (simp add: demo_host_def)

text \<open>
  C30. The two modes of the proxies: a start with one argument (the port) gives an anonymous node without a service hash; a start with a service name and address gives
  a node under the content hash that the registry returned for the name. The HTTP proxy's service mode takes a fourth argument, the metrics port, which its usage text and README do not
  mention (with the three arguments documented there it refuses to start); it serves the metrics endpoint there, with the clock of the last request set to the
  time of the start. The caches start empty: three levels without peers, no service known, and the time-to-live of the command line.
\<close>
theorem proxy_modes:
  "(proxy_main E H w = (Inr p, w') \<longrightarrow>
      (\<exists>c v v'. FlagParse H v = (Some c, v') \<and> pcache_reach E srt (peerCache p) \<and> rcache_reach E (registryCache p) \<and>
         peerCache p = \<lparr>NLevels = 3, Levels = [[], [], []], rmax = 3\<rparr> \<and> data (registryCache p) = Map.empty \<and>
         ttl (registryCache p) = wrap64 (rcacheTTL c * Second) \<and>
         ((\<exists>pt. flag_args c = [pt] \<and> manager p = \<lparr>P2PHash = [], Tolsr = 0\<rparr> \<and> servers p = [(''127.0.0.1:'' @ pt, H_httpRequestHandler)]) \<or>
          (\<exists>pt s a mp lca u. flag_args c = [pt, s, a, mp] \<and> manager_for E s lca \<and> manager p = lca\<lparr>Tolsr := fst (Now E u)\<rparr> \<and>
             servers p = [(''127.0.0.1:'' @ pt, H_httpRequestHandler), (''127.0.0.1:'' @ mp, H_httpMetricsHandler)])))) \<and>
   (l4_main E H w = (Inr p, w') \<longrightarrow>
      (\<exists>c v v'. FlagParse H v = (Some c, v') \<and> pcache_reach E srt (peerCache p) \<and> rcache_reach E (registryCache p) \<and>
         peerCache p = \<lparr>NLevels = 3, Levels = [[], [], []], rmax = 3\<rparr> \<and> data (registryCache p) = Map.empty \<and>
         ttl (registryCache p) = wrap64 (rcacheTTL c * Second) \<and>
         ((\<exists>pt. flag_args c = [pt] \<and> manager p = \<lparr>P2PHash = [], Tolsr = 0\<rparr> \<and> servers p = [(''127.0.0.1:'' @ pt, H_requestHandler)]) \<or>
          (\<exists>pt s a. flag_args c = [pt, s, a] \<and> manager_for E s (manager p) \<and> servers p = [(''127.0.0.1:'' @ pt, H_requestHandler)]))))"
  (is "(?proxy \<longrightarrow> ?P) \<and> (?l4 \<longrightarrow> ?L)")
proof (intro conjI impI)
  assume ?proxy
  then obtain c pos cfg lca v v' where prep: "proxy_prepare H proxy_positional w = (Inr (c, pos, cfg), v)"
    and mgr: "startManager E cfg pos v = (Inr lca, v')"
    and rc: "registryCache p = NewRegistryCache (rcacheTTL c)" and pc: "peerCache p = fst (NewPeerCache (Some (NewRegistryCache (rcacheTTL c))))"
    and srv: "if mode pos = ''service'' then manager p = lca\<lparr>Tolsr := fst (Now E v')\<rparr> \<and>
         servers p = [(''127.0.0.1:'' @ port pos, H_httpRequestHandler), (''127.0.0.1:'' @ metricsPort pos, H_httpMetricsHandler)]
       else manager p = lca \<and> servers p = [(''127.0.0.1:'' @ port pos, H_httpRequestHandler)]" by (rule proxy_main_Inr)
  note start = prepared_manager [OF prep mgr]
  note hp.fresh_caches [OF \<open>?proxy\<close>]
  moreover have "ttl (registryCache p) = wrap64 (rcacheTTL c * Second)" "data (registryCache p) = Map.empty"
      "peerCache p = \<lparr>NLevels = 3, Levels = [[], [], []], rmax = 3\<rparr>"
    by (simp_all add: rc pc NewRegistryCache_def NewPeerCache_levels)
  moreover from start(1) have "(\<exists>pt. flag_args c = [pt] \<and> manager p = \<lparr>P2PHash = [], Tolsr = 0\<rparr> \<and> servers p = [(''127.0.0.1:'' @ pt, H_httpRequestHandler)]) \<or>
      (\<exists>pt s a mp lca u. flag_args c = [pt, s, a, mp] \<and> manager_for E s lca \<and> manager p = lca\<lparr>Tolsr := fst (Now E u)\<rparr> \<and>
         servers p = [(''127.0.0.1:'' @ pt, H_httpRequestHandler), (''127.0.0.1:'' @ mp, H_httpMetricsHandler)])"
    using start(3) srv by (auto dest!: proxy_positional_Inr) blast
  ultimately show ?P using start(2) by blast
next
  assume ?l4
  then obtain c pos cfg lca v v' where prep: "proxy_prepare H l4_positional w = (Inr (c, pos, cfg), v)"
    and mgr: "startManager E (cfg\<lparr>HandlerProtocolIDs := HandlerProtocolIDs cfg @ [chainSetupProtoID],
        StreamHandlers := StreamHandlers cfg @ [H_chainSetupHandler]\<rparr>) pos v = (Inr lca, v')"
    and p: "p = \<lparr>manager = lca, registryCache = NewRegistryCache (rcacheTTL c), peerCache = fst (NewPeerCache (Some (NewRegistryCache (rcacheTTL c)))),
          servers = [(ctrlHost @ '':'' @ port pos, H_requestHandler)]\<rparr>" by (rule l4_main_Inr)
  note start = prepared_manager [OF prep mgr]
  note l4p.fresh_caches [OF \<open>?l4\<close>]
  moreover have "ttl (registryCache p) = wrap64 (rcacheTTL c * Second)" "data (registryCache p) = Map.empty"
      "peerCache p = \<lparr>NLevels = 3, Levels = [[], [], []], rmax = 3\<rparr>"
    by (simp_all add: p NewRegistryCache_def NewPeerCache_levels)
  moreover from start(1) have "(\<exists>pt. flag_args c = [pt] \<and> manager p = \<lparr>P2PHash = [], Tolsr = 0\<rparr> \<and> servers p = [(''127.0.0.1:'' @ pt, H_requestHandler)]) \<or>
      (\<exists>pt s a. flag_args c = [pt, s, a] \<and> manager_for E s (manager p) \<and> servers p = [(''127.0.0.1:'' @ pt, H_requestHandler)])"
    using start(3) by (auto dest!: l4_positional_Inr simp: p ctrlHost_def)
  ultimately show ?L using start(2) by blast
qed

text \<open>Witness of C30: the HTTP proxy of the service \<open>web\<close>.\<close>
theorem proxy_modes_witness:
  "\<exists>lca u. manager_for demo_lca ''web'' lca \<and> \<lparr>P2PHash = ''h-web'', Tolsr = 0\<rparr> = lca\<lparr>Tolsr := fst (Now demo_lca u)\<rparr>"
proof -
  have "flag_args c = [''80'', ''web'', ''10.0.0.1:8000'', ''9001'']"
    if "FlagParse (demo_host [''80'', ''web'', ''10.0.0.1:8000'', ''9001'']) v = (Some c, v')" for c v v'
    using that by (auto simp: demo_host_def demo_line_def)
  with proxy_modes [THEN conjunct1, THEN mp, OF demo_proxy_main, of insertionSort] show ?thesis by fastforce
qed

text \<open>
  A wrong number of arguments is reported before anything is done: once the flags are parsed, the HTTP proxy ends with its usage text if and only if it was not given one or four
  positional arguments, the layer-4 proxy if and only if it was not given one or three; then neither a key has been created nor a file opened nor a node started.
\<close>
theorem usage_exit_iff:
  assumes "commandLine H ''~/.privKeyProxy'' w = (Inr c, w1)"
  shows "(if length (flag_args c) \<noteq> 1 \<and> length (flag_args c) \<noteq> 4 then proxy_main E H w = (Inl UsageExit, w1) else fst (proxy_main E H w) \<noteq> Inl UsageExit) \<and>
    (if length (flag_args c) \<noteq> 1 \<and> length (flag_args c) \<noteq> 3 then l4_main E H w = (Inl UsageExit, w1) else fst (l4_main E H w) \<noteq> Inl UsageExit)"
  using hp.usage_exit [OF assms, where E = E] l4p.usage_exit [OF assms, where E = E]
    proxy_positional_exit [of "flag_args c" w1] l4_positional_exit [of "flag_args c" w1] by (auto split: if_splits)

text \<open>An instance: a service without a metrics port.\<close>
theorem usage_exit_iff_witness:
  "proxy_main demo_lca (demo_host [''80'', ''web'', ''10.0.0.1:8000'']) 0 = (Inl UsageExit, 0)"
proof -
  have "commandLine (demo_host [''80'', ''web'', ''10.0.0.1:8000'']) ''~/.privKeyProxy'' 0 = (Inr (demo_line [''80'', ''web'', ''10.0.0.1:8000'']), 0)"
    by (simp add: commandLine_def demo_host_def)
  from usage_exit_iff [OF this, of demo_lca] show ?thesis by (simp add: demo_line_def)
qed

end
