(* ===== verification/Allocator_Process.thy ===== *)
theory Allocator_Process
  imports Startup
begin

text \<open>
  The allocator as a running process (\<open>src/allocator/allocator.go\<close> around \<open>src/lca/lca-allocator.go\<close>): what its main leaves behind, the ticks of its culling timer, the states it
  reaches by serving requests and culling, and the network its containers are pointed to.
\<close>

section \<open>The culling timer\<close>

lemma cull_ticks_runs: "\<exists>a' w'. cull_ticks E ticks (Some a) w = Some (Some a', w')"
  by (induction ticks arbitrary: a w) (auto split: prod.splits)

lemma cull_ticks_panics: "cull_ticks E ticks a w = None \<longleftrightarrow> ticks \<noteq> [] \<and> a = None"
proof (cases a)
  case None
  then show ?thesis by (cases ticks) auto
next
  case (Some x)
  then show ?thesis using cull_ticks_runs [of E ticks x w] by auto
qed

lemma allocator_main_addresses:
  assumes "allocator_main E H w = (Inr r, w')"
  obtains addrs ip v1 v2 v3 where "Whoami E v1 = ((addrs, nil_error), v2)" "GetIPAddress E v2 = ((ip, nil_error), v3)"
    "r = None \<longleftrightarrow> (\<forall>addr \<in> set addrs. \<not> Contains addr ip)"
proof -
  from assms obtain c cfg sPsk v where "NewLCAAllocator E cfg sPsk v = ((r, nil_error), w')" by (rule allocator_main_Inr)
  then show thesis unfolding NewLCAAllocator_def
    by (auto split: prod.splits if_splits option.splits simp: find_None_iff find_Some_iff intro!: that)
qed

text \<open>
  C32. No start-up dereferences a nil manager, but the allocator's may leave a nil allocator behind: the mains of the proxies end only with the usage text, in \<open>flag.Parse\<close> or with a reported error; when the allocator's main leaves
  its process running, the first tick of its culling timer panics if and only if none of the node's listening addresses contains its public IP address.
\<close>
theorem startup_nil_pointers:
  "fst (proxy_main E H w) \<noteq> Inl NilDereference \<and> fst (l4_main E H w) \<noteq> Inl NilDereference \<and>
   (allocator_main A G v = (Inr r, v') \<longrightarrow>
      (\<exists>addrs ip u1 u2 u3. Whoami A u1 = ((addrs, nil_error), u2) \<and> GetIPAddress A u2 = ((ip, nil_error), u3) \<and>
         (\<forall>entries ticks u. cull_ticks A (entries # ticks) (map_option fst r) u = None \<longleftrightarrow> (\<forall>addr \<in> set addrs. \<not> Contains addr ip))))"
proof (intro conjI impI)
  show "fst (proxy_main E H w) \<noteq> Inl NilDereference" by (rule hp.no_nil_dereference)
  show "fst (l4_main E H w) \<noteq> Inl NilDereference" by (rule l4p.no_nil_dereference)
  assume "allocator_main A G v = (Inr r, v')"
  then obtain addrs ip v1 v2 v3 where "Whoami A v1 = ((addrs, nil_error), v2)" "GetIPAddress A v2 = ((ip, nil_error), v3)"
    "r = None \<longleftrightarrow> (\<forall>addr \<in> set addrs. \<not> Contains addr ip)" by (rule allocator_main_addresses)
  then show "\<exists>addrs ip u1 u2 u3. Whoami A u1 = ((addrs, nil_error), u2) \<and> GetIPAddress A u2 = ((ip, nil_error), u3) \<and>
      (\<forall>entries ticks u. cull_ticks A (entries # ticks) (map_option fst r) u = None \<longleftrightarrow> (\<forall>addr \<in> set addrs. \<not> Contains addr ip))"
    by (intro exI [of _ addrs] exI [of _ ip] exI [of _ v1] exI [of _ v2] exI [of _ v3]) (simp add: cull_ticks_panics)
qed

lemma demo_allocator_main: "allocator_main (demo_allocator True) (demo_host []) 0 = (Inr None, 0)"
proof -
  have "\<not> Contains ''/ip4/127.0.0.1/tcp/4001'' ''10.0.0.1''" by code_simp
  then show ?thesis
    by (simp add: allocator_main_def commandLine_def allocator_readConfig_def configPath_def chooseBootstraps_def allocator_choosePSK_def
        andThen_def orFatal_def NewLCAAllocator_def demo_host_def demo_line_def demo_allocator_def demo_lca_def)
qed

text \<open>Witness of C32: an allocator that listens on the loopback address only.\<close>
theorem startup_nil_pointers_witness:
  "\<exists>addrs ip u1 u2 u3. Whoami (demo_allocator True) u1 = ((addrs, nil_error), u2) \<and> GetIPAddress (demo_allocator True) u2 = ((ip, nil_error), u3) \<and>
     (\<forall>addr \<in> set addrs. \<not> Contains addr ip)"
proof -
  have "cull_ticks (demo_allocator True) ([] # []) (map_option fst None) 0 = None" by simp
  with startup_nil_pointers [of demo_lca "demo_host []" 0, THEN conjunct2, THEN conjunct2, THEN mp, OF demo_allocator_main] show ?thesis by blast
qed

section \<open>The running allocator\<close>

text \<open>
  The states of an allocator process: the one its main leaves, then requests served by the registered handler and rounds of the culling timer, in any order and in any world.
\<close>

inductive allocator_reach :: "('w, 'z) alloc_ops_scheme \<Rightarrow> 'w host_ops \<Rightarrow> string list \<Rightarrow> string \<Rightarrow> LCAAllocator \<Rightarrow> bool"
  for E :: "('w, 'z) alloc_ops_scheme" and H bs sPsk where
  start: "allocator_main E H w = (Inr (Some (a, bs, sPsk)), w') \<Longrightarrow> allocator_reach E H bs sPsk a"
| request: "allocator_reach E H bs sPsk a \<Longrightarrow> NewLCAHandler E bs sPsk a s w = Some (a', w') \<Longrightarrow> allocator_reach E H bs sPsk a'"
| tick: "allocator_reach E H bs sPsk a \<Longrightarrow> range_order (services a) entries \<Longrightarrow>
    cull_ticks E [entries] (Some a) w = Some (Some a', w') \<Longrightarrow> allocator_reach E H bs sPsk a'"

text \<open>A container that was started for a metrics port, with the bootstraps and the passphrase in its environment.\<close>

definition started_container :: "('w, 'z) alloc_ops_scheme \<Rightarrow> string list \<Rightarrow> string \<Rightarrow> string \<Rightarrow> string \<Rightarrow> bool" where
  "started_container E bs sPsk mp cid \<longleftrightarrow>
     (\<exists>h ip pp sp v v'. RunContainer E (docker_config h ip pp sp mp bs sPsk) v = ((cid, nil_error), v'))"

lemma started_containerI: "RunContainer E (docker_config h ip pp sp mp bs sPsk) v = ((cid, nil_error), v') \<Longrightarrow> started_container E bs sPsk mp cid"
  unfolding started_container_def by blast

definition own_containers :: "('w, 'z) alloc_ops_scheme \<Rightarrow> string list \<Rightarrow> string \<Rightarrow> LCAAllocator \<Rightarrow> bool" where
  "own_containers E bs sPsk a \<longleftrightarrow> (\<forall>mp cid. services a mp = Some cid \<longrightarrow> started_container E bs sPsk mp cid)"

lemma own_containers_start:
  assumes "allocator_main E H w = (Inr (Some (a, bs, sPsk)), w')"
  shows "own_containers E bs sPsk a"
proof -
  from assms obtain c cfg p v where "NewLCAAllocator E cfg p v = ((Some (a, bs, sPsk), nil_error), w')" by (rule allocator_main_Inr)
  then show ?thesis
    unfolding NewLCAAllocator_def by (auto simp: own_containers_def split: prod.splits if_splits option.splits)
qed

lemma own_containers_request:
  assumes "own_containers E bs sPsk a" and "NewLCAHandler E bs sPsk a s w = Some (a', w')"
  shows "own_containers E bs sPsk a'"
proof -
  have "own_containers E bs sPsk (a\<lparr>services := svcs\<rparr>)" if "cmdStartProgram E bs sPsk img (services a) s v = (result, svcs, v')" for img result svcs v v'
    using that by (cases rule: cmdStartProgram_cases) (use assms(1) in \<open>auto simp: own_containers_def intro: started_containerI\<close>)
  with assms show ?thesis
    by (auto simp: NewLCAHandler_def Let_def split: prod.splits if_splits option.splits)
qed

lemma own_containers_tick:
  assumes "own_containers E bs sPsk a" and "cull_ticks E [entries] (Some a) w = Some (Some a', w')"
  shows "own_containers E bs sPsk a'"
proof -
  from assms(2) have "services a' = services a |` (- MetricsPort ` set (fst (cull_scan E entries w)))"
    by (auto simp: CullUnusedServices_def cull_all_fold Let_def split: prod.splits)
  with assms(1) show ?thesis by (auto simp: own_containers_def restrict_map_def split: if_splits)
qed

lemma allocator_reach_own: "allocator_reach E H bs sPsk a \<Longrightarrow> own_containers E bs sPsk a"
  by (induction rule: allocator_reach.induct) (blast intro: own_containers_start own_containers_request own_containers_tick)+

lemma cull_effect:
  "snd (CullUnusedServices E entries a w) =
     fold (\<lambda>cid w. DeleteContainer E cid (StopContainer E cid w)) (map Cid (fst (cull_scan E entries w))) (snd (cull_scan E entries w))"
  by (simp add: CullUnusedServices_def cull_all_fold fold_map comp_def split: prod.splits)

text \<open>
  C14. An allocator touches only its own containers: in every state that an allocator process reaches, by requests and culling rounds in any order, each entry of its
  book-keeping is a container it started itself for that metrics port, with its own bootstraps and passphrase in the environment; and a culling round stops and deletes
  such containers only.
\<close>
theorem allocator_owns_containers:
  assumes "allocator_reach E H bs sPsk a"
  shows "(\<forall>mp cid. services a mp = Some cid \<longrightarrow> started_container E bs sPsk mp cid) \<and>
    (\<forall>entries w. range_order (services a) entries \<longrightarrow>
       (\<exists>cids. snd (CullUnusedServices E entries a w) =
            fold (\<lambda>cid w. DeleteContainer E cid (StopContainer E cid w)) cids (snd (cull_scan E entries w)) \<and>
          (\<forall>cid \<in> set cids. \<exists>mp. services a mp = Some cid \<and> started_container E bs sPsk mp cid)))"
proof (intro conjI allI impI)
  note own = allocator_reach_own [OF assms]
  show "started_container E bs sPsk mp cid" if "services a mp = Some cid" for mp cid
    using own that by (simp add: own_containers_def)
  fix entries w
  assume order: "range_order (services a) entries"
  have "\<exists>mp. services a mp = Some cid \<and> started_container E bs sPsk mp cid" if "cid \<in> set (map Cid (fst (cull_scan E entries w)))" for cid
  proof -
    from that obtain s where s: "s \<in> set (fst (cull_scan E entries w))" "cid = Cid s" by auto
    from cull_scan_entries [OF s(1)] s(2) order have "services a (MetricsPort s) = Some cid" by (auto simp: range_order_def dest: map_of_is_SomeI)
    with own show ?thesis by (auto simp: own_containers_def)
  qed
  then show "\<exists>cids. snd (CullUnusedServices E entries a w) =
      fold (\<lambda>cid w. DeleteContainer E cid (StopContainer E cid w)) cids (snd (cull_scan E entries w)) \<and>
    (\<forall>cid \<in> set cids. \<exists>mp. services a mp = Some cid \<and> started_container E bs sPsk mp cid)"
    by (intro exI [of _ "map Cid (fst (cull_scan E entries w))"] conjI cull_effect) blast
qed

definition demo_public :: "int alloc_ops" where
  "demo_public = (demo_allocator True)\<lparr>Whoami := \<lambda>w. (([''/ip4/10.0.0.1/tcp/4001''], None), w)\<rparr>"

lemma demo_public_main:
  "allocator_main demo_public (demo_host []) 0 =
     (Inr (Some (\<lparr>services = Map.empty\<rparr>, [''/ip4/10.0.0.9/tcp/4001'', ''/ip4/10.0.0.1/tcp/4001''], ''secret'')), 0)"
proof -
  have "Contains ''/ip4/10.0.0.1/tcp/4001'' ''10.0.0.1''" by code_simp
  then show ?thesis
    by (simp add: allocator_main_def commandLine_def allocator_readConfig_def configPath_def chooseBootstraps_def allocator_choosePSK_def
        andThen_def orFatal_def NewLCAAllocator_def demo_host_def demo_line_def demo_public_def demo_allocator_def demo_lca_def)
qed

lemma demo_public_request:
  "NewLCAHandler demo_public bs ''secret'' \<lparr>services = Map.empty\<rparr> 3 0 = Some (\<lparr>services = [Itoa 8002 \<mapsto> ''cid-d-web'']\<rparr>, 3)"
proof -
  have "ReadString demo_public 3 0 = (((LCAAPCmdStartProgram @ '' '' @ ''d-web'') @ [CHR 0x0A], None), 0)" "CHR 0x0A \<notin> set ''d-web''"
    by (simp_all add: demo_public_def demo_allocator_def LCAAPCmdStartProgram_def)
  from handler_runs_request [OF this] show ?thesis
    by (simp add: demo_public_def demo_allocator_def cmdStartProgram_def docker_config_def lca_write_def demo_lca_def)
qed

text \<open>Witness of C14: after one request.\<close>
theorem allocator_owns_containers_witness:
  "started_container demo_public [''/ip4/10.0.0.9/tcp/4001'', ''/ip4/10.0.0.1/tcp/4001''] ''secret'' (Itoa 8002) ''cid-d-web''"
  using allocator_owns_containers [OF allocator_reach.request [OF allocator_reach.start [OF demo_public_main] demo_public_request]] by simp

section \<open>The network of an allocator\<close>

lemma allocator_reach_started:
  assumes "allocator_reach E H bs sPsk a"
  obtains w0 a0 w1 where "allocator_main E H w0 = (Inr (Some (a0, bs, sPsk)), w1)"
  using assms by (induction rule: allocator_reach.induct) auto

text \<open>
  The documented behaviour of \<open>util\<close> on passphrases. \<open>psk_of\<close> is the key made of a passphrase: a key obtained from the command line or the environment
  is that of the passphrase given there.
\<close>

definition passphrase_laws :: "'w host_ops \<Rightarrow> (string \<Rightarrow> string option) \<Rightarrow> bool" where
  "passphrase_laws G psk_of \<longleftrightarrow>
     (\<forall>v r v' u. GetEnvPSK G v = ((r, nil_error), v') \<longrightarrow> r = psk_of (fst (GetEnvPSKString G u))) \<and>
     (\<forall>v c v' u. FlagParse G v = (Some c, v') \<longrightarrow> flag_psk c \<noteq> None \<longrightarrow> flag_psk c = psk_of (fst (GetFlagPSKString G u)))"

lemma allocator_main_network:
  assumes "allocator_main E G w = (Inr (Some (a, bs, sPsk)), w')" and "passphrase_laws G psk_of"
  obtains cfg addr addrs ua ua' ub ub' where "NewNode E cfg ua = (nil_error, ua')" "Whoami E ub = ((addrs, nil_error), ub')" "addr \<in> set addrs"
    "bs = BootstrapPeers cfg @ [addr]" "PSK cfg = psk_of sPsk"
proof -
  from assms(1) obtain c cfg sp v where spec: "specified_config G c cfg" and new: "NewLCAAllocator E cfg sp v = ((Some (a, bs, sPsk), nil_error), w')"
    and str: "\<exists>u u'. (if flag_psk c = None then GetEnvPSKString G u = (sp, u') else GetFlagPSKString G u = (sp, u'))" by (rule allocator_main_Inr)
  let ?cfg = "cfg\<lparr>Rendezvous := Rendezvous cfg @ [LCAAllocatorRendezvous]\<rparr>"
  from new obtain v1 addrs v2 addr where "NewNode E ?cfg v = (nil_error, v1)" "Whoami E v1 = ((addrs, nil_error), v2)" "addr \<in> set addrs"
    "bs = BootstrapPeers cfg @ [addr]" "sPsk = sp"
    unfolding NewLCAAllocator_def by (auto split: prod.splits if_splits option.splits simp: find_Some_iff intro: nth_mem)
  moreover have "PSK cfg = psk_of sp"
    using spec str assms(2) unfolding specified_config_def passphrase_laws_def by (cases "flag_psk c = None") (simp, metis fst_conv)+
  ultimately show thesis by (intro that [of ?cfg]) simp_all
qed

end
