(* ===== verification/Udp_Proxy.thy ===== *)
theory Udp_Proxy
  imports Chain_Setup
begin

text \<open>
  The UDP demultiplexer (\<open>udpServiceProxy\<close> in \<open>src/l4-proxy/udp-proxy.go\<close>): one listening socket, and one chain per client address. Its state is the map \<open>client2ChainComm\<close> (a
  communicator is its stream), the mutex \<open>mapMtx\<close> (whether it is held), and whether the function is still running. Its events are datagrams, errors of the socket, and the notifications of
  closed streams, which a callback handles. An event is one step: whoever asks for the mutex finds it held only if an earlier step has kept it, and then waits for ever (\<open>None\<close>).
\<close>

section \<open>State and operations\<close>

record udp_state =
  client2ChainComm :: "addr \<rightharpoonup> stream"
  mapMtx :: bool
  running :: bool

definition udp_initial :: udp_state where
  "udp_initial = \<lparr>client2ChainComm = Map.empty, mapMtx = False, running = True\<rparr>"

text \<open>\<open>mapMtx.Lock\<close> and \<open>mapMtx.Unlock\<close>. Locking a mutex that is held by a step that will not release it blocks for ever (\<open>None\<close>).\<close>

definition mapMtx_Lock :: "udp_state \<Rightarrow> udp_state option" where
  "mapMtx_Lock st = (if mapMtx st then None else Some (st\<lparr>mapMtx := True\<rparr>))"

definition mapMtx_Unlock :: "udp_state \<Rightarrow> udp_state" where
  "mapMtx_Unlock st = st\<lparr>mapMtx := False\<rparr>"

text \<open>Set up a chain for a client and start the reverse path; both places that open a chain do this. A nil stream without an error
  would give a nil communicator, whose use panics (\<open>None\<close>). The stream is recorded under the mutex.\<close>

definition udp_new_chain :: "('w, 'z) chain_ops_scheme \<Rightarrow> string list \<Rightarrow> conn \<Rightarrow> addr \<Rightarrow> RegistryCache \<Rightarrow> PeerCache \<Rightarrow> 'w
    \<Rightarrow> (stream option \<times> RegistryCache \<times> PeerCache \<times> goroutine list \<times> 'w) option" where
  "udp_new_chain E chainSpec lConn from registryCache peerCache w =
     do {
       ((rConn, err), registryCache1, peerCache1, gs, w1) \<leftarrow> setupChain E chainSpec registryCache peerCache w;
       (if err \<noteq> nil_error then Some (None, registryCache1, peerCache1, gs, w1)
        else
          (case rConn of
             None \<Rightarrow> None
           | Some s \<Rightarrow> Some (Some s, registryCache1, peerCache1, gs @ [Go_udpFwdStream2Conn s lConn (Some from)], w1)))
     }"

definition udp_record :: "addr \<Rightarrow> stream \<Rightarrow> udp_state \<Rightarrow> udp_state" where
  "udp_record from s st = st\<lparr>client2ChainComm := (client2ChainComm st)(from \<mapsto> s)\<rparr>"

text \<open>
  The inner loop: write the data to the client's stream. A failed write resets the stream and is tried once
  more on a new chain, which is recorded under the mutex; a second failure makes the client unknown again.
\<close>

definition udp_send :: "('w, 'z) chain_ops_scheme \<Rightarrow> string list \<Rightarrow> conn \<Rightarrow> addr \<Rightarrow> string \<Rightarrow> stream \<Rightarrow> udp_state \<Rightarrow> RegistryCache \<Rightarrow> PeerCache \<Rightarrow> 'w
    \<Rightarrow> (udp_state \<times> RegistryCache \<times> PeerCache \<times> goroutine list \<times> 'w) option" where
  "udp_send E chainSpec lConn from dat dstComm st registryCache peerCache w =
     (case sendData E dstComm dat w of
        (None, w1) \<Rightarrow> Some (st, registryCache, peerCache, [], w1)
      | (Some e, w1) \<Rightarrow>
          do {
            (dstComm2, registryCache2, peerCache2, gs, w2) \<leftarrow>
              udp_new_chain E chainSpec lConn from registryCache peerCache (StreamReset E dstComm w1);
            (case dstComm2 of
               None \<Rightarrow> Some (st\<lparr>running := False\<rparr>, registryCache2, peerCache2, gs, ConnClose E lConn w2)
             | Some s2 \<Rightarrow>
                 do {
                   st1 \<leftarrow> mapMtx_Lock st;
                   (let st2 = mapMtx_Unlock (udp_record from s2 st1)
                    in case sendData E s2 dat w2 of
                         (None, w3) \<Rightarrow> Some (st2, registryCache2, peerCache2, gs, w3)
                       | (Some e2, w3) \<Rightarrow>
                           Some (st2\<lparr>client2ChainComm := (client2ChainComm st2)(from := None)\<rparr>,
                                 registryCache2, peerCache2, gs, StreamReset E s2 w3))
                 })
          })"

text \<open>
  One datagram. A client without a chain gets one, under the mutex; if that fails the function returns, and the mutex it holds is never released.
\<close>

definition udp_datagram :: "('w, 'z) chain_ops_scheme \<Rightarrow> string list \<Rightarrow> conn \<Rightarrow> addr \<Rightarrow> string \<Rightarrow> udp_state \<Rightarrow> RegistryCache \<Rightarrow> PeerCache \<Rightarrow> 'w
    \<Rightarrow> (udp_state \<times> RegistryCache \<times> PeerCache \<times> goroutine list \<times> 'w) option" where
  "udp_datagram E chainSpec lConn from dat st registryCache peerCache w =
     do {
       st1 \<leftarrow> mapMtx_Lock st;
       (case client2ChainComm st1 from of
          Some dstComm \<Rightarrow> udp_send E chainSpec lConn from dat dstComm (mapMtx_Unlock st1) registryCache peerCache w
        | None \<Rightarrow>
            do {
              (rConn, registryCache1, peerCache1, gs1, w1) \<leftarrow> udp_new_chain E chainSpec lConn from registryCache peerCache w;
              (case rConn of
                 None \<Rightarrow> Some (st1\<lparr>running := False\<rparr>, registryCache1, peerCache1, gs1, ConnClose E lConn w1)
               | Some dstComm \<Rightarrow>
                   do {
                     (st2, registryCache2, peerCache2, gs2, w2) \<leftarrow>
                       udp_send E chainSpec lConn from dat dstComm (mapMtx_Unlock (udp_record from dstComm st1)) registryCache1 peerCache1 w1;
                     Some (st2, registryCache2, peerCache2, gs1 @ gs2, w2)
                   })
            })
     }"


text \<open>
  The callback \<open>ClosedStreamF\<close>: only streams with the UDP tunnel protocol are looked up, under the mutex. \<open>entries\<close> is the order in which the range visits the map.
\<close>

definition ClosedStreamF :: "(addr \<times> stream) list \<Rightarrow> protocol_id \<Rightarrow> stream \<Rightarrow> udp_state \<Rightarrow> udp_state option" where
  "ClosedStreamF entries proto strm st =
     (if proto \<noteq> udpTunnelProtoID then Some st
      else
        do {
          st1 \<leftarrow> mapMtx_Lock st;
          Some (mapMtx_Unlock
            (case List.find (\<lambda>e. snd e = strm) entries of
               None \<Rightarrow> st1
             | Some (k, v) \<Rightarrow> st1\<lparr>client2ChainComm := (client2ChainComm st1)(k := None)\<rparr>))
        })"

section \<open>Runs\<close>

text \<open>The events of a run: datagrams and socket errors while the function runs, notifications at any time, in any world and with any caches.\<close>

inductive udp_step :: "('w, 'z) chain_ops_scheme \<Rightarrow> string list \<Rightarrow> conn \<Rightarrow> udp_state \<Rightarrow> udp_state \<Rightarrow> bool"
  for E :: "('w, 'z) chain_ops_scheme" and spec lConn where
  datagram: "running st \<Longrightarrow> udp_datagram E spec lConn from dat st rc pc w = Some (st', rc', pc', gs, w') \<Longrightarrow> udp_step E spec lConn st st'"
| read_error: "running st \<Longrightarrow> udp_step E spec lConn st (st\<lparr>running := False\<rparr>)"
| closed: "distinct (map fst entries) \<Longrightarrow> map_of entries = client2ChainComm st \<Longrightarrow> ClosedStreamF entries proto strm st = Some st' \<Longrightarrow> udp_step E spec lConn st st'"

inductive_cases udp_stepE: "udp_step E spec lConn st st'"

inductive udp_reach :: "('w, 'z) chain_ops_scheme \<Rightarrow> string list \<Rightarrow> conn \<Rightarrow> udp_state \<Rightarrow> bool"
  for E :: "('w, 'z) chain_ops_scheme" and spec lConn where
  initial: "udp_reach E spec lConn udp_initial"
| step: "udp_reach E spec lConn st \<Longrightarrow> udp_step E spec lConn st st' \<Longrightarrow> udp_reach E spec lConn st'"

lemmas mapMtx_defs = mapMtx_Lock_def mapMtx_Unlock_def udp_record_def

text \<open>That setting up a chain fails, in some world and with some caches.\<close>

definition chain_fails :: "('w, 'z) chain_ops_scheme \<Rightarrow> string list \<Rightarrow> bool" where
  "chain_fails E spec \<longleftrightarrow> (\<exists>rc pc v strm e rc' pc' gs v'. setupChain E spec rc pc v = Some ((strm, Some e), rc', pc', gs, v'))"

lemma udp_new_chain_failed: "udp_new_chain E spec lConn client rc pc w = Some (None, rc', pc', gs, w') \<Longrightarrow> chain_fails E spec"
  unfolding chain_fails_def
  by (auto simp: udp_new_chain_def bind_eq_Some_conv split: prod.splits option.splits if_splits) blast+

text \<open>What sending does to the state, by outcome, when the mutex is free.\<close>

lemma udp_send_cases:
  assumes "udp_send E spec lConn client dat s st rc pc w = Some (st', rc', pc', gs, w')" and "client2ChainComm st client = Some s" and "\<not> mapMtx st"
  obtains (sent) t v where "client2ChainComm st' = (client2ChainComm st)(client \<mapsto> t)" "\<not> mapMtx st'" "running st' = running st"
      "sendData E t dat v = (nil_error, w')"
  | (gave_up) "client2ChainComm st' = (client2ChainComm st)(client := None)" "\<not> mapMtx st'" "running st' = running st"
  | (no_retry) "client2ChainComm st' = client2ChainComm st" "\<not> mapMtx st'" "\<not> running st'" "chain_fails E spec"
proof -
  obtain e w1 where snd1: "sendData E s dat w = (e, w1)" by (metis prod.exhaust)
  show thesis
  proof (cases e)
    case None
    with assms snd1 have "st' = st" "w' = w1" by (simp_all add: udp_send_def)
    with None snd1 assms(2,3) show thesis by (intro sent [of s w]) (auto simp: map_upd_triv)
  next
    case (Some x)
    with assms(1) snd1 obtain d rc2 pc2 gs2 w2 where
      chain: "udp_new_chain E spec lConn client rc pc (StreamReset E s w1) = Some (d, rc2, pc2, gs2, w2)"
      by (auto simp: udp_send_def bind_eq_Some_conv)
    show thesis
    proof (cases d)
      case None
      with assms(1) snd1 Some chain have "st' = st\<lparr>running := False\<rparr>" by (simp add: udp_send_def)
      with assms(3) udp_new_chain_failed [OF chain [unfolded None]] show thesis by (intro no_retry) auto
    next
      case d: (Some s2)
      obtain e2 w3 where snd2: "sendData E s2 dat w2 = (e2, w3)" by (metis prod.exhaust)
      show thesis
      proof (cases e2)
        case None
        with assms snd1 Some chain d snd2 have "st' = mapMtx_Unlock (udp_record client s2 (st\<lparr>mapMtx := True\<rparr>))" "w' = w3"
          by (simp_all add: udp_send_def mapMtx_Lock_def)
        with None snd2 show thesis by (intro sent [of s2 w2]) (auto simp: mapMtx_defs)
      next
        case (Some y)
        with assms snd1 \<open>e = Some x\<close> chain d snd2 have "client2ChainComm st' = (client2ChainComm st)(client := None)" "\<not> mapMtx st'" "running st' = running st"
          by (auto simp: udp_send_def mapMtx_defs)
        then show thesis by (rule gave_up)
      qed
    qed
  qed
qed

text \<open>What one datagram does to the state, by outcome.\<close>

lemma udp_datagram_cases:
  assumes "udp_datagram E spec lConn client dat st rc pc w = Some (st', rc', pc', gs, w')"
  obtains (sent) s v where "client2ChainComm st' = (client2ChainComm st)(client \<mapsto> s)" "\<not> mapMtx st'" "running st' = running st"
      "sendData E s dat v = (nil_error, w')"
  | (gave_up) "client2ChainComm st' = (client2ChainComm st)(client := None)" "\<not> mapMtx st'" "running st' = running st"
  | (no_chain) "client2ChainComm st client = None" "client2ChainComm st' = client2ChainComm st" "mapMtx st'" "\<not> running st'" "chain_fails E spec"
  | (no_retry) s where "client2ChainComm st' = (client2ChainComm st)(client \<mapsto> s)" "\<not> mapMtx st'" "\<not> running st'" "chain_fails E spec"
proof -
  from assms have free: "\<not> mapMtx st" by (auto simp: udp_datagram_def mapMtx_Lock_def split: if_splits)
  show thesis
  proof (cases "client2ChainComm st client")
    case (Some s)
    let ?st1 = "mapMtx_Unlock (st\<lparr>mapMtx := True\<rparr>)"
    have eq: "client2ChainComm ?st1 = client2ChainComm st" "\<not> mapMtx ?st1" "running ?st1 = running st" by (simp_all add: mapMtx_Unlock_def)
    from assms free Some have "udp_send E spec lConn client dat s ?st1 rc pc w = Some (st', rc', pc', gs, w')"
      by (simp add: udp_datagram_def mapMtx_Lock_def)
    moreover have "client2ChainComm ?st1 client = Some s" using Some eq by simp
    moreover note eq(2)
    ultimately show thesis
    proof (cases rule: udp_send_cases)
      case (sent s2 v)
      with eq show thesis by (intro that(1) [of s2 v]) auto
    next
      case gave_up
      with eq show thesis by (intro that(2)) auto
    next
      case no_retry
      with Some eq show thesis by (intro that(4) [of s]) (auto simp: map_upd_triv)
    qed
  next
    case None
    with assms free obtain d rc1 pc1 gs1 w1 where
      chain: "udp_new_chain E spec lConn client rc pc w = Some (d, rc1, pc1, gs1, w1)"
      by (auto simp: udp_datagram_def mapMtx_Lock_def bind_eq_Some_conv)
    show thesis
    proof (cases d)
      case d: None
      with assms free None chain have "st' = st\<lparr>mapMtx := True\<rparr>\<lparr>running := False\<rparr>" by (simp add: udp_datagram_def mapMtx_Lock_def)
      with None udp_new_chain_failed [OF chain [unfolded d]] show thesis by (intro no_chain) auto
    next
      case (Some s)
      let ?st1 = "mapMtx_Unlock (udp_record client s (st\<lparr>mapMtx := True\<rparr>))"
      have eq: "client2ChainComm ?st1 = (client2ChainComm st)(client \<mapsto> s)" "\<not> mapMtx ?st1" "running ?st1 = running st" by (simp_all add: mapMtx_defs)
      from assms free None chain Some obtain gs2 where "udp_send E spec lConn client dat s ?st1 rc1 pc1 w1 = Some (st', rc', pc', gs2, w')"
        by (auto simp: udp_datagram_def mapMtx_Lock_def bind_eq_Some_conv)
      moreover have "client2ChainComm ?st1 client = Some s" using eq by simp
      moreover note eq(2)
      ultimately show thesis
      proof (cases rule: udp_send_cases)
        case (sent s2 v)
        with eq show thesis by (intro that(1) [of s2 v]) auto
      next
        case gave_up
        with eq show thesis by (intro that(2)) auto
      next
        case no_retry
        with eq show thesis by (intro that(4) [of s]) auto
      qed
    qed
  qed
qed

section \<open>Properties\<close>

text \<open>
  C25. Clients of a UDP proxy do not disturb each other, and no client is kept with a dead stream: handling a datagram changes the entry of its sender only; if the proxy is still running
  afterwards, either the datagram was sent on the stream now recorded for the sender, or the sender is unknown again and gets a new chain with its next datagram.
\<close>
theorem udp_datagram_isolated:
  assumes "udp_datagram E spec lConn client dat st rc pc w = Some (st', rc', pc', gs, w')"
  shows "(\<forall>c. c \<noteq> client \<longrightarrow> client2ChainComm st' c = client2ChainComm st c) \<and>
    (running st' \<longrightarrow> client2ChainComm st' client = None \<or>
       (\<exists>s v. client2ChainComm st' client = Some s \<and> sendData E s dat v = (nil_error, w')))"
  using assms by (cases rule: udp_datagram_cases) auto

text \<open>Witness of C25: a client whose stream works.\<close>
theorem udp_datagram_isolated_witness:
  "\<exists>st' rc' pc' gs w'. udp_datagram demo_chain [''udp'', ''a''] 1 ''c1'' ''x''
       \<lparr>client2ChainComm = [''c1'' \<mapsto> 7, ''c2'' \<mapsto> 9], mapMtx = False, running = True\<rparr> (NewRegistryCache 60) demo_cache [] = Some (st', rc', pc', gs, w') \<and>
     client2ChainComm st' ''c2'' = Some 9"
proof -
  let ?st = "\<lparr>client2ChainComm = [''c1'' \<mapsto> 7, ''c2'' \<mapsto> 9], mapMtx = False, running = True\<rparr>"
  have "udp_datagram demo_chain [''udp'', ''a''] 1 ''c1'' ''x'' ?st (NewRegistryCache 60) demo_cache [] =
      Some (?st, NewRegistryCache 60, demo_cache, [], [(7, \<lparr>mType = MsgData, mData = ''x''\<rparr>)])"
    by (simp add: udp_datagram_def udp_send_def mapMtx_defs sendData_def)
  from udp_datagram_isolated [OF this] this show ?thesis by simp
qed

lemma udp_step_mutex: "udp_step E spec lConn st st' \<Longrightarrow> (mapMtx st \<longrightarrow> \<not> running st) \<Longrightarrow> (mapMtx st' \<longrightarrow> \<not> running st')"
proof (erule udp_stepE)
  fix client dat rc pc w rc' pc' gs w'
  assume "mapMtx st \<longrightarrow> \<not> running st" "running st" "udp_datagram E spec lConn client dat st rc pc w = Some (st', rc', pc', gs, w')"
  from this(3) this(1,2) show "mapMtx st' \<longrightarrow> \<not> running st'" by (cases rule: udp_datagram_cases) auto
qed (auto simp: ClosedStreamF_def mapMtx_defs split: if_splits option.splits)

lemma udp_reach_mutex: "udp_reach E spec lConn st \<Longrightarrow> mapMtx st \<longrightarrow> \<not> running st"
  by (induction rule: udp_reach.induct) (auto simp: udp_initial_def dest: udp_step_mutex)

text \<open>
  C27. The mutex of a UDP proxy is never held while it waits for datagrams, but it can be lost: in every reachable state the mutex is held only if the function has returned; and when the chain for a new client cannot be
  set up, the function returns with the mutex held, so that every later notification of a closed tunnel stream blocks for ever.
\<close>
theorem udp_mutex_lost:
  assumes "udp_reach E spec lConn st"
  shows "(mapMtx st \<longrightarrow> \<not> running st) \<and>
    (\<forall>client dat rc pc w rConn rc1 pc1 gs w1 e. running st \<longrightarrow> client2ChainComm st client = None \<longrightarrow>
       setupChain E spec rc pc w = Some ((rConn, Some e), rc1, pc1, gs, w1) \<longrightarrow>
       (\<exists>st'. udp_datagram E spec lConn client dat st rc pc w = Some (st', rc1, pc1, gs, ConnClose E lConn w1) \<and>
          mapMtx st' \<and> \<not> running st' \<and> (\<forall>entries s. ClosedStreamF entries udpTunnelProtoID s st' = None)))"
proof -
  have "\<exists>st'. udp_datagram E spec lConn client dat st rc pc w = Some (st', rc1, pc1, gs, ConnClose E lConn w1) \<and>
      mapMtx st' \<and> \<not> running st' \<and> (\<forall>entries s. ClosedStreamF entries udpTunnelProtoID s st' = None)"
    if "running st" "client2ChainComm st client = None" "setupChain E spec rc pc w = Some ((rConn, Some e), rc1, pc1, gs, w1)"
    for client dat rc pc w rConn rc1 pc1 gs w1 e
    using that udp_reach_mutex [OF assms] by (simp add: udp_datagram_def udp_new_chain_def ClosedStreamF_def mapMtx_defs)
  with udp_reach_mutex [OF assms] show ?thesis by blast
qed

text \<open>Witness of C27: a specification without a service.\<close>
theorem udp_mutex_lost_witness:
  "\<exists>st'. udp_datagram demo_chain [''udp''] 1 ''c1'' ''x'' udp_initial (NewRegistryCache 60) demo_cache [] =
     Some (st', NewRegistryCache 60, demo_cache, [], ConnClose demo_chain 1 []) \<and> mapMtx st' \<and> \<not> running st'"
proof -
  obtain e where s: "setupChain demo_chain [''udp''] (NewRegistryCache 60) demo_cache [] =
      Some ((None, Some e), NewRegistryCache 60, demo_cache, [], [])" by (simp add: setupChain_def)
  have i: "running udp_initial" "client2ChainComm udp_initial ''c1'' = None" by (simp_all add: udp_initial_def)
  from udp_mutex_lost [OF udp_reach.initial [of demo_chain "[''udp'']" 1], THEN conjunct2, rule_format, OF i s, of "''x''"]
  show ?thesis by blast
qed







end
