(* ===== verification/Chain_Ack.thy ===== *)
theory Chain_Ack
  imports Chain_Setup
begin

text \<open>
  What the client learns when a chain is complete: the texts of the acknowledgements on their way from the last proxy of the chain to the client, through the runs of \<open>chainSetupHandler\<close> on
  all nodes and of \<open>setupChain\<close> at the client (\<open>src/l4-proxy/chain-setup.go\<close>).
\<close>

section \<open>What the handlers send\<close>

text \<open>
  A predicate on the world that nothing but sending chain messages can change: each of the other operations that resolving a service, setting a chain up and starting a tunnel call keeps it.
\<close>

definition quiet :: "('w, 'z) chain_ops_scheme \<Rightarrow> ('w \<Rightarrow> bool) \<Rightarrow> bool" where
  "quiet E I \<longleftrightarrow>
     (\<forall>w. I w \<longrightarrow> I (snd (Now E w))) \<and> (\<forall>n w. I w \<longrightarrow> I (snd (GetServiceWithHostRouting E n w))) \<and>
     (\<forall>n w. I w \<longrightarrow> I (snd (FindPeers E n w))) \<and> (\<forall>c w. I w \<longrightarrow> I (snd (SortPeers E c w))) \<and>
     (\<forall>p q w. I w \<longrightarrow> I (snd (NewStream E p q w))) \<and> (\<forall>s w. I w \<longrightarrow> I (StreamReset E s w)) \<and>
     (\<forall>s t w. I w \<longrightarrow> I (snd (WriteString E s t w))) \<and> (\<forall>s w. I w \<longrightarrow> I (Flush E s w)) \<and> (\<forall>s w. I w \<longrightarrow> I (snd (ReadString E s w))) \<and>
     (\<forall>d w. I w \<longrightarrow> I (Sleep E d w)) \<and> (\<forall>a b n w. I w \<longrightarrow> I (snd (NewExpoBackoffAttempts E a b n w))) \<and>
     (\<forall>b w m w'. I w \<longrightarrow> Attempt E b w = Some (m, w') \<longrightarrow> I w') \<and> (\<forall>s w. I w \<longrightarrow> I (snd (MsgRecv E s w))) \<and>
     (\<forall>e w. I w \<longrightarrow> I (snd (ResolveTCPAddr E e w))) \<and> (\<forall>a w. I w \<longrightarrow> I (snd (DialTCP E a w))) \<and>
     (\<forall>e w. I w \<longrightarrow> I (snd (ResolveUDPAddr E e w))) \<and> (\<forall>a w. I w \<longrightarrow> I (snd (DialUDP E a w))) \<and>
     (\<forall>s q w. I w \<longrightarrow> I (SetProtocol E s q w))"

lemma quietD:
  assumes "quiet E I"
  shows "Now E w = (t, w') \<Longrightarrow> I w \<Longrightarrow> I w'"
    and "GetServiceWithHostRouting E n w = (r, w') \<Longrightarrow> I w \<Longrightarrow> I w'"
    and "FindPeers E n w = (r1, w') \<Longrightarrow> I w \<Longrightarrow> I w'"
    and "SortPeers E c w = (r2, w') \<Longrightarrow> I w \<Longrightarrow> I w'"
    and "NewStream E p q w = (r3, w') \<Longrightarrow> I w \<Longrightarrow> I w'"
    and "I w \<Longrightarrow> I (StreamReset E s w)"
    and "WriteString E s txt w = (r4, w') \<Longrightarrow> I w \<Longrightarrow> I w'"
    and "I w \<Longrightarrow> I (Flush E s w)"
    and "ReadString E s w = (r5, w') \<Longrightarrow> I w \<Longrightarrow> I w'"
    and "I w \<Longrightarrow> I (Sleep E d w)"
    and "NewExpoBackoffAttempts E a b k w = (r6, w') \<Longrightarrow> I w \<Longrightarrow> I w'"
    and "Attempt E bo w = Some (m, w') \<Longrightarrow> I w \<Longrightarrow> I w'"
    and "MsgRecv E s w = (r7, w') \<Longrightarrow> I w \<Longrightarrow> I w'"
    and "ResolveTCPAddr E ep w = (r8, w') \<Longrightarrow> I w \<Longrightarrow> I w'"
    and "DialTCP E ad w = (r9, w') \<Longrightarrow> I w \<Longrightarrow> I w'"
    and "ResolveUDPAddr E ep w = (r10, w') \<Longrightarrow> I w \<Longrightarrow> I w'"
    and "DialUDP E ad w = (r11, w') \<Longrightarrow> I w \<Longrightarrow> I w'"
    and "I w \<Longrightarrow> I (SetProtocol E s pr w)"
  using assms unfolding quiet_def by (metis snd_conv)+

lemma lca_write_quiet: "quiet E I \<Longrightarrow> lca_write E s m w = (e, w') \<Longrightarrow> I w \<Longrightarrow> I w'"
  by (auto simp: lca_write_def intro: quietD(8) dest: quietD(7) split: prod.splits if_splits)

lemma lca_read_quiet: "quiet E I \<Longrightarrow> lca_read E s w = (r, w') \<Longrightarrow> I w \<Longrightarrow> I w'"
  by (auto simp: lca_read_def dest: quietD(9) split: prod.splits if_splits)

lemma requestAlloc_quiet: "quiet E I \<Longrightarrow> requestAlloc E s h w = (r, w') \<Longrightarrow> I w \<Longrightarrow> I w'"
  by (auto simp: requestAlloc_def dest: lca_write_quiet lca_read_quiet split: prod.splits if_splits)

lemma reset_all_quiet: "quiet E I \<Longrightarrow> I w \<Longrightarrow> I (reset_all E ss w)"
  by (induction ss arbitrary: w) (auto intro: quietD(6))

lemma alloc_loop_quiet: "quiet E I \<Longrightarrow> alloc_loop E h ps op w = (r, w') \<Longrightarrow> I w \<Longrightarrow> I w'"
proof (induction ps arbitrary: op w)
  case (Cons p ps)
  obtain s err w1 where n: "NewStream E (ID p) LCAAllocatorProtocolID w = ((s, err), w1)" by (metis prod.exhaust)
  obtain a err2 w2 where q: "requestAlloc E s h w1 = ((a, err2), w2)" by (metis prod.exhaust)
  have "I w1" "I w2" using quietD(5) [OF Cons.prems(1) n Cons.prems(3)] requestAlloc_quiet [OF Cons.prems(1) q] by blast+
  with Cons.prems(1,2) n q Cons.IH [OF Cons.prems(1)] show ?case
    by (auto split: if_splits intro: reset_all_quiet quietD(6))
qed (auto intro: reset_all_quiet)

lemma allocBetter_loop_quiet: "quiet E I \<Longrightarrow> allocBetter_loop E h pf ps op w = (r, w') \<Longrightarrow> I w \<Longrightarrow> I w'"
  by (auto simp: allocBetter_is_alloc_prefix Let_def dest: alloc_loop_quiet split: prod.splits if_splits)

lemma FindService_quiet: "quiet E I \<Longrightarrow> FindService E h w = (r, w') \<Longrightarrow> I w \<Longrightarrow> I w'"
  by (auto simp: FindService_def dest: quietD(3,4) split: prod.splits if_splits list.splits)

lemma AllocService_quiet: "quiet E I \<Longrightarrow> AllocService E h w = (r, w') \<Longrightarrow> I w \<Longrightarrow> I w'"
  by (auto simp: AllocService_def dest: quietD(3,4) alloc_loop_quiet split: prod.splits if_splits)

lemma AllocBetterService_quiet: "quiet E I \<Longrightarrow> AllocBetterService E h pf w = (r, w') \<Longrightarrow> I w \<Longrightarrow> I w'"
  by (auto simp: AllocBetterService_def dest: quietD(3,4) allocBetter_loop_quiet split: prod.splits if_splits)

lemma backoff_loop_quiet:
  assumes "quiet E I" and "backoff_loop E bo h pid pf w = Some r" and "I w"
  shows "I (snd (snd r))"
  using _ assms(2,1,3)
proof (rule backoff_loop.raw_induct [where P = "\<lambda>E bo h pid pf w r. quiet E I \<longrightarrow> I w \<longrightarrow> I (snd (snd r))", rule_format])
  fix f E bo h pid pf w y
  assume IH: "\<And>E bo h pid pf w y. f E bo h pid pf w = Some y \<Longrightarrow> quiet E I \<Longrightarrow> I w \<Longrightarrow> I (snd (snd y))"
    and step: "Option.bind (Attempt E bo w) (\<lambda>(more, w1).
       if more then
         (case FindService E h w1 of
            ((pid', perf', err), w2) \<Rightarrow>
              if err = nil_error then Some (pid', perf', w2)
              else f E bo h pid' perf' w2)
       else Some (pid, pf, w1)) = Some y"
    and q: "quiet E I" "I w"
  obtain more w1 where a: "Attempt E bo w = Some (more, w1)" using step by (auto simp: bind_eq_Some_conv)
  obtain p' f' e' w2 where s: "FindService E h w1 = ((p', f', e'), w2)" by (metis prod.exhaust)
  have "I w1" "I w2" using quietD(12) [OF q(1) a q(2)] FindService_quiet [OF q(1) s] by blast+
  with step a s IH q(1) show "I (snd (snd y))" by (auto split: if_splits)
qed

lemma findOrAllocate_body_quiet:
  assumes "quiet E I" and "findOrAllocate_body E h dh sr w = Some (r, w')" and "I w"
  shows "I w'"
proof -
  obtain p pf err w1 where f: "FindService E h w = ((p, pf, err), w1)" by (metis prod.exhaust)
  note w1 = FindService_quiet [OF assms(1) f assms(3)]
  show ?thesis
  proof (cases "err = nil_error")
    case True
    with assms(2) f w1 show ?thesis
      by (auto simp: findOrAllocate_body_def dest: AllocBetterService_quiet [OF assms(1)] split: prod.splits if_splits)
  next
    case False
    obtain x y err2 w2 where a: "AllocService E dh w1 = ((x, y, err2), w2)" by (metis prod.exhaust)
    note w2 = AllocService_quiet [OF assms(1) a w1]
    obtain bo berr w4 where b: "NewExpoBackoffAttempts E (200 * Millisecond) Second 5 (Sleep E (200 * Millisecond) w2) = ((bo, berr), w4)"
      by (metis prod.exhaust)
    note w4 = quietD(11) [OF assms(1) b quietD(10) [OF assms(1) w2]]
    show ?thesis
      using assms(2) f False a b w2 backoff_loop_quiet [OF assms(1) _ w4]
      by (cases "err2 = nil_error") (auto simp: findOrAllocate_body_def Let_def bind_eq_Some_conv)
  qed
qed

lemma findOrAllocate_loop_quiet:
  "quiet E I \<Longrightarrow> findOrAllocate_loop E h dh sr n p e w = Some (r, w') \<Longrightarrow> I w \<Longrightarrow> I w'"
proof (induction n arbitrary: p e w)
  case (Suc n)
  show ?case
  proof (cases "p = []")
    case True
    with Suc.prems(2) obtain p1 e1 w1 where "findOrAllocate_body E h dh sr w = Some ((p1, e1), w1)"
      and l: "findOrAllocate_loop E h dh sr n p1 e1 w1 = Some (r, w')" by (auto simp: bind_eq_Some_conv)
    with findOrAllocate_body_quiet [OF Suc.prems(1) _ Suc.prems(3)] have "I w1" by blast
    with Suc.IH [OF Suc.prems(1) l] show ?thesis by blast
  next
    case False
    with Suc.prems show ?thesis by auto
  qed
qed auto

lemma findOrAllocate_quiet:
  assumes "quiet E I" and "findOrAllocate E name info c w = Some (r, c', w')" and "I w"
  shows "I w'"
proof -
  obtain t w1 where n: "Now E w = (t, w1)" by (metis prod.exhaust)
  have now: "I (snd (Now E v))" if "I v" for v using quietD(1) [OF assms(1) _ that] by (metis prod.collapse)
  have "I w1" using quietD(1) [OF assms(1) n assms(3)] .
  note l = findOrAllocate_loop_quiet [OF assms(1) _ this]
  show ?thesis
    using assms(2,3) n unfolding findOrAllocate_def
    by (auto simp: Let_def bind_eq_Some_conv split: if_splits dest!: l intro: now)
qed

lemma GetOrRequestService_quiet: "quiet E I \<Longrightarrow> GetOrRequestService E rc n w = (r, rc', w') \<Longrightarrow> I w \<Longrightarrow> I w'"
  by (auto simp: GetOrRequestService_def Get_def Add_def Let_def dest: quietD(1,2) split: prod.splits if_splits option.splits)

lemma resolveService_quiet:
  assumes "quiet E I" and "resolveService E n rc c w = Some (r, rc', c', w')" and "I w"
  shows "I w'"
proof -
  obtain info err rc1 w1 where g: "GetOrRequestService E rc n w = ((info, err), rc1, w1)" by (metis prod.exhaust)
  note w1 = GetOrRequestService_quiet [OF assms(1) g assms(3)]
  show ?thesis
    using assms(2) g w1 findOrAllocate_quiet [OF assms(1) _ w1]
    by (auto simp: resolveService_def bind_eq_Some_conv split: if_splits)
qed

lemma tcp_tunnels_quiet:
  "quiet E I \<Longrightarrow> tcpEndChainHandler E ep s w = (gs, w') \<Longrightarrow> I w \<Longrightarrow> I w'"
  "quiet E I \<Longrightarrow> tcpMidChainHandler E ep s t w = (gs, w') \<Longrightarrow> I w \<Longrightarrow> I w'"
  by (auto simp: tcpEndChainHandler_def tcpMidChainHandler_def dest: quietD(14,15) split: prod.splits if_splits)

lemma udpResolveAndDial_quiet: "quiet E I \<Longrightarrow> udpResolveAndDial E ep ep' w = (r, w') \<Longrightarrow> I w \<Longrightarrow> I w'"
  by (auto simp: udpResolveAndDial_def dest: quietD(16,17) split: prod.splits if_splits)

lemma udp_tunnels_quiet:
  "quiet E I \<Longrightarrow> udpEndChainHandler E ep s w = (gs, w') \<Longrightarrow> I w \<Longrightarrow> I w'"
  "quiet E I \<Longrightarrow> udpMidChainHandler E ep s t w = (gs, w') \<Longrightarrow> I w \<Longrightarrow> I w'"
  by (auto simp: udpEndChainHandler_def udpMidChainHandler_def dest: udpResolveAndDial_quiet split: prod.splits option.splits)

lemma end_tunnel_quiet: "quiet E I \<Longrightarrow> end_tunnel E proto ep s w = (gs, w') \<Longrightarrow> I w \<Longrightarrow> I w'"
  by (auto simp: end_tunnel_def intro: tcp_tunnels_quiet udp_tunnels_quiet quietD(18) split: if_splits)

lemma mid_tunnel_quiet: "quiet E I \<Longrightarrow> mid_tunnel E proto ep s t w = (gs, w') \<Longrightarrow> I w \<Longrightarrow> I w'"
  by (auto simp: mid_tunnel_def intro: tcp_tunnels_quiet udp_tunnels_quiet quietD(18) split: if_splits)

text \<open>
  A log of the chain messages a node has sent, as an observation of its world: a successful \<open>Send\<close> appends its message, a failed one and the other operations leave the log as it is.
\<close>

definition logging :: "('w, 'z) chain_ops_scheme \<Rightarrow> ('w \<Rightarrow> (stream \<times> ChainMsg) list) \<Rightarrow> bool" where
  "logging E log \<longleftrightarrow> (\<forall>L. quiet E (\<lambda>w. log w = L)) \<and>
     (\<forall>s m w e w'. MsgSend E s m w = (e, w') \<longrightarrow> log w' = (if e = nil_error then log w @ [(s, m)] else log w))"

text \<open>
  A node has heard an acknowledgement when it received one on a stream it had opened for a chain set-up. A node has acknowledged a text for a specification when its handler, started by a request for
  that specification, sent the text as an acknowledgement on the stream the request came from.
\<close>

definition heard :: "('w, 'z) chain_ops_scheme \<Rightarrow> string \<Rightarrow> bool" where
  "heard E txt \<longleftrightarrow> (\<exists>pid v0 out v1 v v'. NewStream E pid chainSetupProtoID v0 = ((out, nil_error), v1) \<and>
     MsgRecv E out v = ((\<lparr>mType = SetupACK, mData = txt\<rparr>, nil_error), v'))"

record ('w, 'z) node =
  nOps :: "('w, 'z) chain_ops_scheme"
  nLog :: "'w \<Rightarrow> (stream \<times> ChainMsg) list"
  nEndpoint :: string
  nStream :: stream
  nRegistry :: RegistryCache
  nPeers :: PeerCache
  nWorld :: 'w

definition acknowledged :: "('w, 'z) node \<Rightarrow> string \<Rightarrow> string list \<Rightarrow> string \<Rightarrow> bool" where
  "acknowledged n service chainSpec txt \<longleftrightarrow>
     (\<exists>w1 rc' pc' gs w' ms. receiveSetupRequest (nOps n) (nStream n) (nWorld n) = ((chainSpec, nil_error), w1) \<and>
        chainSetupHandler (nOps n) service (nEndpoint n) (nStream n) (nRegistry n) (nPeers n) (nWorld n) = Some (rc', pc', gs, w') \<and>
        nLog n w' = nLog n (nWorld n) @ ms \<and> (nStream n, \<lparr>mType = SetupACK, mData = txt\<rparr>) \<in> set ms)"

lemma loggingD:
  assumes "logging E log"
  shows "MsgSend E s m w = (e, w') \<Longrightarrow> log w' = (if e = nil_error then log w @ [(s, m)] else log w)"
    and "MsgRecv E s w = (r, w') \<Longrightarrow> log w' = log w"
    and "resolveService E n rc c w = Some (rr, rc', c', w') \<Longrightarrow> log w' = log w"
    and "NewStream E p q w = (rn, w') \<Longrightarrow> log w' = log w"
    and "end_tunnel E proto ep s w = (gs, w') \<Longrightarrow> log w' = log w"
    and "mid_tunnel E proto ep s t w = (gs, w') \<Longrightarrow> log w' = log w"
proof -
  have q: "quiet E (\<lambda>v. log v = L)" for L using assms by (simp add: logging_def)
  show "MsgSend E s m w = (e, w') \<Longrightarrow> log w' = (if e = nil_error then log w @ [(s, m)] else log w)" using assms by (simp add: logging_def)
  show "MsgRecv E s w = (r, w') \<Longrightarrow> log w' = log w" using quietD(13) [OF q [of "log w"]] by blast
  show "resolveService E n rc c w = Some (rr, rc', c', w') \<Longrightarrow> log w' = log w" using resolveService_quiet [OF q [of "log w"]] by blast
  show "NewStream E p q w = (rn, w') \<Longrightarrow> log w' = log w" using quietD(5) [OF q [of "log w"]] by blast
  show "end_tunnel E proto ep s w = (gs, w') \<Longrightarrow> log w' = log w" using end_tunnel_quiet [OF q [of "log w"]] by blast
  show "mid_tunnel E proto ep s t w = (gs, w') \<Longrightarrow> log w' = log w" using mid_tunnel_quiet [OF q [of "log w"]] by blast
qed

lemma handler_end_acknowledges:
  assumes "logging E log" and "receiveSetupRequest E s w = ((spec, nil_error), w1)" and "scan_chain me spec [] [] False = (p, proto, [], True)"
    and "chainSetupHandler E me ep s rc pc w = Some (rc', pc', gs, w')" and "log w' = log w @ ms"
    and "(s, \<lparr>mType = SetupACK, mData = txt\<rparr>) \<in> set ms"
  shows "txt = REV_CHAIN_MSG_PREFIX @ me"
proof -
  obtain d where r: "MsgRecv E s w = (d, w1)" using assms(2) req.received_iff [of E s w spec w1] by blast
  obtain e w2 where m: "MsgSend E s \<lparr>mType = SetupACK, mData = REV_CHAIN_MSG_PREFIX @ me\<rparr> w1 = (e, w2)" by (metis prod.exhaust)
  have l2: "log w2 = (if e = nil_error then log w @ [(s, \<lparr>mType = SetupACK, mData = REV_CHAIN_MSG_PREFIX @ me\<rparr>)] else log w)"
    using loggingD(1) [OF assms(1) m] loggingD(2) [OF assms(1) r] by simp
  show ?thesis
  proof (cases e)
    case None
    with m have "(gs, w') = end_tunnel E proto ep s w2"
      using chainSetupHandler_end [OF assms(2,3), of w2 ep rc pc] assms(4) by simp
    with loggingD(5) [OF assms(1)] l2 None assms(5,6) show ?thesis by (metis append_eq_append_conv empty_iff list.set(1) prod.inject set_ConsD ChainMsg.ext_inject)
  next
    case (Some x)
    with assms(2,3,4) m have "w' = w2" by (simp add: chainSetupHandler_def send_simps)
    with l2 Some assms(5,6) show ?thesis by simp
  qed
qed

lemma handler_mid_acknowledges:
  assumes "logging E log" and "receiveSetupRequest E s w = ((spec, nil_error), w1)" and "scan_chain me spec [] [] False = (p, proto, nxt, True)" and "nxt \<noteq> []"
    and "chainSetupHandler E me ep s rc pc w = Some (rc', pc', gs, w')" and "log w' = log w @ ms"
    and "(s, \<lparr>mType = SetupACK, mData = txt\<rparr>) \<in> set ms"
  shows "\<exists>t. heard E t \<and> txt = mid_ack me t"
proof -
  obtain d where r: "MsgRecv E s w = (d, w1)" using assms(2) req.received_iff [of E s w spec w1] by blast
  note l1 = loggingD(2) [OF assms(1) r]
  obtain pid info err rc1 pc1 w2 where rs: "resolveService E nxt rc pc w1 = Some ((pid, info, err), rc1, pc1, w2)"
    using assms(2-5) by (auto simp: chainSetupHandler_def bind_eq_Some_conv)
  note l2 = loggingD(3) [OF assms(1) rs, unfolded l1]
  obtain out serr w3 where n: "NewStream E pid chainSetupProtoID w2 = ((out, serr), w3)" by (metis prod.exhaust)
  note l3 = loggingD(4) [OF assms(1) n, unfolded l2]
  obtain e4 w4 where m: "MsgSend E out \<lparr>mType = SetupRequest, mData = GobEncode E spec\<rparr> w3 = (e4, w4)" by (metis prod.exhaust)
  note l4 = loggingD(1) [OF assms(1) m, unfolded l3]
  obtain t err5 w5 where a: "receiveSetupACK E out w4 = ((t, err5), w5)" by (metis prod.exhaust)
  obtain d5 where a': "MsgRecv E out w4 = (d5, w5)" using a ack.one_message [of E out w4] by (metis prod.collapse snd_conv)
  note l5 = loggingD(2) [OF assms(1) a', unfolded l4]
  obtain e6 w6 where k: "MsgSend E s \<lparr>mType = SetupACK, mData = mid_ack me t\<rparr> w5 = (e6, w6)" by (metis prod.exhaust)
  note l6 = loggingD(1) [OF assms(1) k, unfolded l5]
  obtain gs7 w7 where mt: "mid_tunnel E proto ep s out w6 = (gs7, w7)" by (metis prod.exhaust)
  note l7 = loggingD(6) [OF assms(1) mt, unfolded l6]
  note run = assms(5) [unfolded chainSetupHandler_def] assms(2-4) rs n m a
  show ?thesis
  proof (cases "err = nil_error \<and> serr = nil_error \<and> e4 = nil_error \<and> err5 = nil_error")
    case True
    with a have h: "MsgRecv E out w4 = ((\<lparr>mType = SetupACK, mData = t\<rparr>, nil_error), w5)" by (simp add: ack.received_iff)
    with True n have "heard E t" unfolding heard_def by blast
    moreover have "w' = w7"
      using chainSetupHandler_mid [OF assms(2-4) _ _ _ h k mt, of rc pc pid info rc1 pc1 w2 w3] rs n m True assms(5) by simp
    then have "txt = mid_ack me t" using l7 assms(6,7) True by (auto simp: msg_types split: if_splits)
    ultimately show ?thesis by blast
  next
    case False
    then have "w' = w2 \<or> w' = w3 \<or> w' = w4 \<or> w' = w5 \<and> err5 \<noteq> nil_error" using run
      by (cases e4) (auto simp: createStream_def send_simps Let_def split: if_splits option.splits)
    with l2 l3 l4 l5 assms(6,7) show ?thesis by (auto simp: msg_types split: if_splits)
  qed
qed

section \<open>The way of an acknowledgement\<close>

text \<open>
  The nodes of a chain, in the order of its services, and the client: each node's log records what it sends, and what a node, or the client, hears from the peer it turned to is what the next node acknowledged.
  (Streams are authenticated and reliable, so a message received on one was sent by the peer at its other end.)
\<close>

definition linked :: "('w, 'z) chain_ops_scheme \<Rightarrow> ('w, 'z) node list \<Rightarrow> string list \<Rightarrow> bool" where
  "linked C ns spec \<longleftrightarrow> length ns = length (services_of spec) \<and> (\<forall>n \<in> set ns. logging (nOps n) (nLog n)) \<and>
     (\<forall>msg. heard C msg \<longrightarrow> acknowledged (ns ! 0) (services_of spec ! 0) spec msg) \<and>
     (\<forall>i msg. Suc i < length ns \<longrightarrow> heard (nOps (ns ! i)) msg \<longrightarrow> acknowledged (ns ! Suc i) (services_of spec ! Suc i) spec msg)"

lemma setupChain_heard:
  assumes "setupChain C spec rc pc w = Some ((Some strm, nil_error), rc', pc', gs, w')"
  shows "\<exists>msg v. heard C msg \<and> MsgRecv C strm v = ((\<lparr>mType = SetupACK, mData = msg\<rparr>, nil_error), w')"
proof -
  from assms obtain pid info rc1 pc1 w1 where r: "resolveService C (spec ! 1) rc pc w = Some ((pid, info, nil_error), rc1, pc1, w1)"
    by (auto simp: setupChain_def Let_def bind_eq_Some_conv split: if_splits)
  obtain s serr w2 where n: "NewStream C pid chainSetupProtoID w1 = ((s, serr), w2)" by (metis prod.exhaust)
  obtain e3 w3 where m: "MsgSend C s \<lparr>mType = SetupRequest, mData = GobEncode C spec\<rparr> w2 = (e3, w3)" by (metis prod.exhaust)
  obtain t e4 w4 where a: "receiveSetupACK C s w3 = ((t, e4), w4)" by (metis prod.exhaust)
  have "serr = nil_error" "e4 = nil_error" "strm = s" "w' = w4"
    using assms r n m a by (auto simp: setupChain_def createStream_def Let_def split: if_splits option.splits)
  with n a have "MsgRecv C strm w3 = ((\<lparr>mType = SetupACK, mData = t\<rparr>, nil_error), w')" by (simp add: ack.received_iff)
  moreover from this n \<open>strm = s\<close> \<open>serr = nil_error\<close> have "heard C t" unfolding heard_def by blast
  ultimately show ?thesis by blast
qed

lemma Join_snoc: "ts \<noteq> [] \<Longrightarrow> Join sep (ts @ [t]) = Join sep ts @ sep @ t"
  by (induction sep ts rule: Join.induct) auto

lemma acknowledged_last:
  assumes "linked C ns spec" and "distinct (services_of spec)" and "Suc i = length (services_of spec)"
    and "acknowledged (ns ! i) (services_of spec ! i) spec msg"
  shows "msg = REV_CHAIN_MSG_PREFIX @ services_of spec ! i"
proof -
  have "logging (nOps (ns ! i)) (nLog (ns ! i))" using assms(1,3) by (auto simp: linked_def)
  moreover obtain p proto where "scan_chain (services_of spec ! i) spec [] [] False = (p, proto, [], True)"
    using scan_distinct [OF assms(2), of i] assms(3) by auto
  ultimately show ?thesis using assms(4) unfolding acknowledged_def by (blast dest: handler_end_acknowledges)
qed

lemma acknowledged_next:
  assumes "linked C ns spec" and "distinct (services_of spec)" and "[] \<notin> set (services_of spec)" and "Suc i < length (services_of spec)"
    and "acknowledged (ns ! i) (services_of spec ! i) spec msg"
  shows "\<exists>t. acknowledged (ns ! Suc i) (services_of spec ! Suc i) spec t \<and> msg = mid_ack (services_of spec ! i) t"
proof -
  have "logging (nOps (ns ! i)) (nLog (ns ! i))" using assms(1,4) by (auto simp: linked_def)
  moreover obtain p proto where "scan_chain (services_of spec ! i) spec [] [] False = (p, proto, services_of spec ! Suc i, True)"
    using scan_distinct [OF assms(2), of i] assms(4) by auto
  moreover have "services_of spec ! Suc i \<noteq> []" using assms(3,4) by (metis nth_mem)
  ultimately obtain t where "heard (nOps (ns ! i)) t" "msg = mid_ack (services_of spec ! i) t"
    using assms(5) unfolding acknowledged_def by (blast dest: handler_mid_acknowledges)
  moreover from this(1) assms(1,4) have "acknowledged (ns ! Suc i) (services_of spec ! Suc i) spec t" by (simp add: linked_def)
  ultimately show ?thesis by blast
qed

lemma acknowledged_suffix:
  assumes "linked C ns spec" and "distinct (services_of spec)" and "[] \<notin> set (services_of spec)"
    and "i < length (services_of spec)" and "acknowledged (ns ! i) (services_of spec ! i) spec msg"
  shows "msg = REV_CHAIN_MSG_PREFIX @ Join '' '' (rev (drop i (services_of spec)))"
  using assms(4,5)
proof (induction "length (services_of spec) - Suc i" arbitrary: i msg)
  case 0
  let ?ss = "services_of spec"
  from 0 have "Suc i = length ?ss" by simp
  then have "drop i ?ss = [?ss ! i]" using Cons_nth_drop_Suc [of i ?ss] by simp
  with acknowledged_last [OF assms(1,2) \<open>Suc i = length ?ss\<close> 0(3)] show ?case by simp
next
  case (Suc k)
  let ?ss = "services_of spec"
  from Suc(2) have more: "Suc i < length ?ss" by simp
  from acknowledged_next [OF assms(1-3) more Suc(4)] obtain t where
    t: "acknowledged (ns ! Suc i) (?ss ! Suc i) spec t" "msg = mid_ack (?ss ! i) t" by blast
  with Suc(1) [of "Suc i" t] Suc(2) more have "t = REV_CHAIN_MSG_PREFIX @ Join '' '' (rev (drop (Suc i) ?ss))" by simp
  moreover have "drop i ?ss = ?ss ! i # drop (Suc i) ?ss" using Suc(3) by (simp add: Cons_nth_drop_Suc)
  moreover have "drop (Suc i) ?ss \<noteq> []" using more by simp
  ultimately show ?case using t(2) by (simp add: mid_ack_def Join_snoc)
qed

lemma all_acknowledged:
  assumes "linked C ns spec" and "distinct (services_of spec)" and "[] \<notin> set (services_of spec)"
    and "acknowledged (ns ! 0) (services_of spec ! 0) spec msg"
  shows "i < length (services_of spec) \<Longrightarrow> \<exists>t. acknowledged (ns ! i) (services_of spec ! i) spec t"
proof (induction i)
  case 0
  show ?case using assms(4) by blast
next
  case (Suc i)
  then show ?case using acknowledged_next [OF assms(1-3) Suc.prems] by fastforce
qed

section \<open>Properties\<close>

text \<open>
  C21. The acknowledgement of a completed chain names every service in reverse: if the nodes of a repetition-free specification run their handlers, each hearing what its successor acknowledged and the client hearing
  the first, then a stream that \<open>setupChain\<close> hands out to the client was obtained by receiving, last, an acknowledgement whose text is the prefix followed by all services of the chain, last to first. So the chain is complete:
  the handler of every service has run and acknowledged.
\<close>
theorem acknowledgement_names_chain:
  assumes "linked C ns spec" and "distinct (services_of spec)" and "services_of spec \<noteq> []" and "[] \<notin> set (services_of spec)"
    and "setupChain C spec rc pc w = Some ((Some strm, nil_error), rc', pc', gs, w')"
  shows "(\<exists>v. MsgRecv C strm v = ((\<lparr>mType = SetupACK, mData = REV_CHAIN_MSG_PREFIX @ Join '' '' (rev (services_of spec))\<rparr>, nil_error), w')) \<and>
    (\<forall>i < length (services_of spec). acknowledged (ns ! i) (services_of spec ! i) spec
       (REV_CHAIN_MSG_PREFIX @ Join '' '' (rev (drop i (services_of spec)))))"
proof -
  obtain msg v where "heard C msg" and m: "MsgRecv C strm v = ((\<lparr>mType = SetupACK, mData = msg\<rparr>, nil_error), w')"
    using setupChain_heard [OF assms(5)] by blast
  then have first: "acknowledged (ns ! 0) (services_of spec ! 0) spec msg" using assms(1) by (simp add: linked_def)
  note suffix = acknowledged_suffix [OF assms(1,2,4)]
  from suffix [of 0 msg] first assms(3) have "msg = REV_CHAIN_MSG_PREFIX @ Join '' '' (rev (services_of spec))" by simp
  with m all_acknowledged [OF assms(1,2,4) first] suffix show ?thesis by blast
qed

text \<open>A client that hears the acknowledgement of the whole chain \<open>/tcp/a/b\<close>, and the nodes of \<open>a\<close> and \<open>b\<close>, whose world is the log of what they sent.\<close>

definition demo_client :: "(stream \<times> ChainMsg) list chain_ops" where
  "demo_client = demo_chain\<lparr>MsgRecv := \<lambda>s w. ((\<lparr>mType = SetupACK, mData = REV_CHAIN_MSG_PREFIX @ ''b a''\<rparr>, None), w)\<rparr>"

definition demo_node :: "((stream \<times> ChainMsg) list, unit) node" where
  "demo_node = \<lparr>nOps = demo_chain, nLog = id, nEndpoint = ''127.0.0.1:80'', nStream = 5, nRegistry = NewRegistryCache 60,
     nPeers = demo_cache, nWorld = []\<rparr>"

lemma demo_services: "services_of [''tcp'', ''a'', ''b''] = [''a'', ''b'']"
  by (simp add: services_of_def is_proto_def)

lemma demo_request: "receiveSetupRequest demo_chain 5 [] = (([''tcp'', ''a'', ''b''], None), [])"
  by (subst req.received_iff) (simp add: demo_gob_roundtrip)

lemma demo_logging: "logging demo_chain id"
  unfolding logging_def quiet_def
  by (simp add: demo_chain_def null_tunnel_def tunnel_ops.defs chain_ops.defs)

lemma demo_b_acknowledged: "acknowledged demo_node ''b'' [''tcp'', ''a'', ''b''] (REV_CHAIN_MSG_PREFIX @ ''b'')"
proof -
  have "chainSetupHandler demo_chain ''b'' ''127.0.0.1:80'' 5 (NewRegistryCache 60) demo_cache [] =
      Some (NewRegistryCache 60, demo_cache, end_tunnel demo_chain ''tcp'' ''127.0.0.1:80'' 5 [(5, \<lparr>mType = SetupACK, mData = REV_CHAIN_MSG_PREFIX @ ''b''\<rparr>)])"
    by (rule chainSetupHandler_end [OF demo_request]) simp_all
  then show ?thesis
    unfolding acknowledged_def by (simp add: demo_node_def demo_request end_tunnel_def tcpEndChainHandler_def)
qed

lemma demo_a_acknowledged: "acknowledged demo_node ''a'' [''tcp'', ''a'', ''b''] (REV_CHAIN_MSG_PREFIX @ ''b a'')"
proof -
  obtain rc1 pc1 where r: "resolveService demo_chain ''b'' (NewRegistryCache 60) demo_cache [] = Some ((''peer'', demo_info ''b'', None), rc1, pc1, [])"
    using demo_chain_resolves [of "''b''" "MsgRecv demo_chain"] by auto
  have sc: "scan_chain ''a'' [''tcp'', ''a'', ''b''] [] [] False = (''tcp'', ''tcp'', ''b'', True)" by simp
  have "\<exists>gs. chainSetupHandler demo_chain ''a'' ''127.0.0.1:80'' 5 (NewRegistryCache 60) demo_cache [] =
      Some (rc1, pc1, gs, [(8, \<lparr>mType = SetupRequest, mData = GobEncode demo_chain [''tcp'', ''a'', ''b'']\<rparr>),
        (5, \<lparr>mType = SetupACK, mData = mid_ack ''a'' (REV_CHAIN_MSG_PREFIX @ ''b'')\<rparr>)])"
    using chainSetupHandler_mid [OF demo_request sc _ r, of 8] by (simp add: mid_tunnel_def tcpMidChainHandler_def)
  then show ?thesis
    unfolding acknowledged_def by (auto simp: demo_node_def demo_request mid_ack_def)
qed

text \<open>Witness of C21: the chain \<open>/tcp/a/b\<close>.\<close>
theorem acknowledgement_names_chain_witness:
  "\<exists>strm rc' pc' gs w' v. setupChain demo_client [''tcp'', ''a'', ''b''] (NewRegistryCache 60) demo_cache [] = Some ((Some strm, nil_error), rc', pc', gs, w') \<and>
     MsgRecv demo_client strm v = ((\<lparr>mType = SetupACK, mData = REV_CHAIN_MSG_PREFIX @ ''b a''\<rparr>, nil_error), w')"
proof -
  let ?spec = "[''tcp'', ''a'', ''b'']"
  have "heard demo_client msg \<longleftrightarrow> msg = REV_CHAIN_MSG_PREFIX @ ''b a''" for msg
    by (auto simp: heard_def demo_client_def)
  moreover have "heard demo_chain msg \<longleftrightarrow> msg = REV_CHAIN_MSG_PREFIX @ ''b''" for msg
    by (auto simp: heard_def)
  moreover have "nOps demo_node = demo_chain" "nLog demo_node = id" by (simp_all add: demo_node_def)
  ultimately have l: "linked demo_client [demo_node, demo_node] ?spec"
    using demo_a_acknowledged demo_b_acknowledged demo_logging by (simp add: linked_def demo_services less_Suc_eq)
  obtain rc1 pc1 where "resolveService demo_client ''a'' (NewRegistryCache 60) demo_cache [] = Some ((''peer'', demo_info ''a'', None), rc1, pc1, [])"
    unfolding demo_client_def using demo_chain_resolves [of "''a''"] by blast
  moreover have "receiveSetupACK demo_client s w = ((REV_CHAIN_MSG_PREFIX @ ''b a'', None), w)" for s w
    by (simp add: ack.received_iff demo_client_def)
  ultimately obtain w' where s: "setupChain demo_client ?spec (NewRegistryCache 60) demo_cache [] =
      Some ((Some 8, None), rc1, pc1, [Go_connQualMonitor ''peer'' (demo_info ''a'') 8], w')"
    by (simp add: setupChain_def createStream_def demo_client_def Let_def)
  have d: "distinct (services_of ?spec)" "services_of ?spec \<noteq> []" "[] \<notin> set (services_of ?spec)" by (simp_all add: demo_services)
  from acknowledgement_names_chain [OF l d s, THEN conjunct1] s show ?thesis by (simp add: demo_services)
qed

end
