(* ===== verification/Spec2Isabelle.thy ===== *)
theory Spec2Isabelle
  imports Allocator_Process Udp_Proxy Chain_Ack
begin

text \<open>
  A verification development for the service manager of a peer-to-peer microservice platform (Go, under \<open>src/\<close>).

  \<^bold>\<open>The program.\<close> Proxies let clients reach services by name. A proxy asks the service registry for a service's content hash and performance requirements and
  keeps the answers in a registry cache (\<open>rcache/registry-cache.go\<close>). It looks for a peer that offers the service in its peer cache (\<open>pcache/pcache.go\<close>), whose background
  goroutine pings the peers and sorts them into levels of reliability. Failing that, it searches the network and, if need be, has an allocator start a container
  (\<open>lca/lca-manager.go\<close> talks to \<open>lca/lca-allocator.go\<close> by the line protocol of \<open>lca/lca-common.go\<close>). Allocators cull containers that are idle. There are two proxies: the HTTP
  proxy (\<open>proxy/proxy.go\<close>) forwards HTTP requests to the peer it chose; the layer-4 proxy (\<open>l4-proxy/\<close>) sets up chains of services and tunnels TCP and
  UDP through them.

  \<^bold>\<open>Conventions of the model.\<close> State is passed explicitly as records. Everything the code obtains from outside the repository (clock, registry, discovery, streams, Docker,
  HTTP transport, sockets, the gob codec) is a field of a record of operations on an abstract world \<open>'w\<close>, the first argument of the definitions that use it; nothing is assumed of it except
  as a named hypothesis of a property, and each such property has an evaluated instance on a concrete world. A Go pair of a value and an error is a pair with an \<open>error option\<close>; an \<open>option\<close>
  around a result stands for a panic or a computation that does not return. The operations of the world themselves always return: that a receive (\<open>receiveSetupACK\<close> in \<open>setupChain\<close>, for instance), a
  dial or a read may block for ever in the running program is outside the model. Loops are total functions with termination proofs where they always end; where that depends on the
  environment (\<open>backoff_loop\<close>, the forwarders, \<open>connQualMonitor\<close>) they are partial functions, and that they return is proved from hypotheses on the environment. No fuel is used: the only numeric bounds are those of the
  code (three attempts, levels, 64-bit counters and durations). A goroutine that a function starts is part of its result. Log output is not modelled. Operations under a mutex are atomic;
  one call of a resolver is modelled without interference by other goroutines between its cache accesses, while the caches' own runs (\<open>pcache_reach\<close>, \<open>rcache_reach\<close>) interleave operations in any order.

  \<^bold>\<open>The theories.\<close>
  \<^item> \<open>SM_Prelude\<close>: integers, slices and errors of Go; shared lemmas on lists, multisets and words.
  \<^item> \<open>World_Ops\<close>: types and operations shared with other modules (\<open>p2putil\<close>, \<open>registry\<close>); strict weak orders.
  \<^item> \<open>Go_Text\<close>: \<open>strings\<close>, \<open>strconv\<close> and the two regular expressions (by derivatives, with a language semantics), and their round trips.
  \<^item> \<open>Registry_Cache\<close>: the registry cache. Its contract is the locale \<open>ttl_cache\<close>. A hit until expiry, only answers of the registry, a query on every miss, the exact range of the time-to-live.
  \<^item> \<open>Peer_Cache\<close>: the peer cache with \<open>updateCache\<close> in its three passes, in place as in the code. Contracts: \<open>slice_sorter\<close> (\<open>sort.Slice\<close>) and \<open>peer_store\<close> (what the proxies rely on). No panic in
    any run, refinement of the index juggling to an operation on multisets (\<open>reclassify\<close>), the thresholds of the levels, the best peer first, promotion of performant peers, saturation of the counter.
  \<^item> \<open>LCA_Manager\<close>: line protocol, searches (contract \<open>peer_search\<close>), allocation requests, forwarding and serving of HTTP requests.
  \<^item> \<open>LCA_Allocator\<close>: starting containers, the request handler, the constructor, culling.
  \<^item> \<open>Resolve\<close>: \<open>findOrAllocate\<close>, \<open>resolveService\<close>, \<open>splitURIPath\<close>, and the copy of the search in \<open>runRequest\<close>. Both searches agree, return, and remember what they found.
  \<^item> \<open>Http_Proxy\<close>: the handlers of the HTTP proxy with Go's response writer.
  \<^item> \<open>Chain_Msg\<close>: the typed messages of chains, with the contract \<open>typed_receiver\<close>; round trips, and no confusion of types.
  \<^item> \<open>Tunnel\<close>: the five forwarders, instances of the locale \<open>forwarder\<close>, and the handlers that start them; transparency of tunnels, and of the way back through a chain of any length.
  \<^item> \<open>Chain_Setup\<close>: \<open>setupChain\<close>, \<open>chainSetupHandler\<close>, \<open>connQualMonitor\<close>; routing along a chain, one hop, the monitor.
  \<^item> \<open>Chain_Ack\<close>: the acknowledgements on their way from the last node of a chain to the client, through the handlers of all nodes.
  \<^item> \<open>Control\<close>: the control endpoint of the layer-4 proxy (\<open>requestHandler\<close>, \<open>openTCPProxy\<close>, \<open>openUDPProxy\<close>) and its accept loop.
  \<^item> \<open>Udp_Proxy\<close>: the UDP demultiplexer \<open>udpServiceProxy\<close> with its map of clients, its mutex and its callback, as a function on what the socket yields and as a step relation. Clients do not disturb each other;
    it never waits for its own mutex; how the mutex is lost.
  \<^item> \<open>Startup\<close>: the configuration (\<open>conf/conf.go\<close>) and the three \<open>main\<close> functions as sequences of steps that may end the process (\<open>action\<close>); the locale \<open>proxy_startup\<close> is what the mains of both proxies promise. The precedence of
    bootstraps, the modes, the pairing of protocols and handlers, the exits.
  \<^item> \<open>Allocator_Process\<close>: the allocator as a process, from its \<open>main\<close> through requests and the ticks of its culling timer (\<open>allocator/allocator.go\<close>). It touches only its own containers; when it panics.
  \<^item> This theory: properties that need several components, namely the idle limit from the proxy's metrics line to the allocator's verdict, the dialogue of manager and allocator, the first minute
    of a service from its \<open>main\<close> to the culling rounds, and the network that the proxy of an allocated container joins.

  \<^bold>\<open>Not modelled.\<close> The usage texts (\<open>customUsage\<close>), log output and log flags (the \<open>init\<close> functions), which are only printed; the Prometheus endpoint of the allocator, a handler of a library; the framing and buffering
  inside \<open>chainMsgCommunicator\<close> (a communicator is its stream, and sending and receiving a message are operations of the world). What \<open>flag.Parse\<close> makes of the command line, and decoding the configuration from JSON, are operations of the host. The handling of one datagram in \<open>udpServiceProxy\<close> is one step:
  notifications of closed streams come between datagrams, not between the two attempts to send one.
\<close>

section \<open>Properties that span components\<close>

text \<open>
  C15. The idle limit, end to end: if the metrics endpoint of a service is its proxy's \<open>httpMetricsHandler\<close>, the allocator condemns the service in a culling round
  exactly when at least 61 full seconds have passed between the last serviced request and the reading of the clock. What one side prints the other
  reads back exactly, for all instants, including differences that saturate the 64-bit duration.
\<close>
theorem service_condemned_iff_idle:
  assumes "HttpGet E (''http://127.0.0.1:'' @ mp) w = ((resp, nil_error), w1)"
    and "ReadBody E resp w1 = ((wBody (fst (httpMetricsHandler P lca wp)), nil_error), w2)"
  shows "must_cull E mp w = (61 * Second \<le> fst (Now P wp) - Tolsr lca, w2)"
  using assms by (simp add: must_cull_def metrics_parse idle_over_60)

text \<open>Witness of C15: a service that has been idle for 75 seconds, in a world whose other metrics endpoint reports 5.\<close>
theorem service_condemned_iff_idle_witness:
  "fst (must_cull (demo_allocator True) ''9002'' 0)"
proof -
  have h: "HttpGet (demo_allocator True) (''http://127.0.0.1:'' @ ''9002'') 0 = ((2, None), 0)"
    by (simp add: demo_allocator_def)
  have "wBody (fst (httpMetricsHandler demo_ops \<lparr>P2PHash = [], Tolsr = 5\<rparr> 75900000000)) = ''75'' @ [CHR 0x0A]"
    by code_simp
  then have b: "ReadBody (demo_allocator True) 2 0 =
      ((wBody (fst (httpMetricsHandler demo_ops \<lparr>P2PHash = [], Tolsr = 5\<rparr> 75900000000)), None), 0)"
    by (simp add: demo_allocator_def)
  from service_condemned_iff_idle [OF h b] show ?thesis by (simp add: demo_ops_def Second_def)
qed

subsection \<open>One allocation dialogue\<close>

text \<open>
  The text an allocator has sent on its stream is an observation \<open>out\<close> of its world. The documented behaviour of the operations involved: a
  successful write appends its argument; nothing else the handler calls sends anything; \<open>GetIPAddress\<close> yields a dotted quad and \<open>GetFreePort\<close> a port number.
\<close>

definition dotted_quad :: "string \<Rightarrow> bool" where
  "dotted_quad ip \<longleftrightarrow> (\<exists>a b c d. ip = a @ ''.'' @ b @ ''.'' @ c @ ''.'' @ d \<and> decimal 3 a \<and> decimal 3 b \<and> decimal 3 c \<and> decimal 3 d)"

definition sends_to :: "('w, 'z) alloc_ops_scheme \<Rightarrow> ('w \<Rightarrow> string) \<Rightarrow> bool" where
  "sends_to A out \<longleftrightarrow>
     (\<forall>s str w. fst (WriteString A s str w) = nil_error \<and> out (snd (WriteString A s str w)) = out w @ str) \<and>
     (\<forall>s w. out (Flush A s w) = out w \<and> out (StreamClose A s w) = out w \<and> out (snd (ReadString A s w)) = out w) \<and>
     (\<forall>img w. out (snd (PullImage A img w)) = out w) \<and> (\<forall>cfg w. out (snd (RunContainer A cfg w)) = out w) \<and>
     (\<forall>w. out (snd (GetIPAddress A w)) = out w \<and> out (snd (GetFreePort A w)) = out w)"

definition network_values :: "('w, 'z) alloc_ops_scheme \<Rightarrow> bool" where
  "network_values A \<longleftrightarrow>
     (\<forall>ip w w'. GetIPAddress A w = ((ip, nil_error), w') \<longrightarrow> dotted_quad ip) \<and>
     (\<forall>p w w'. GetFreePort A w = ((p, nil_error), w') \<longrightarrow> 0 \<le> p \<and> p \<le> 65535)"

lemma sends_toD:
  assumes "sends_to A out"
  shows "WriteString A s str w = (err, w') \<Longrightarrow> err = nil_error \<and> out w' = out w @ str"
    and "out (Flush A s w) = out w" and "out (StreamClose A s w) = out w"
    and "ReadString A s w = (r, w') \<Longrightarrow> out w' = out w"
    and "PullImage A img w = (e, w') \<Longrightarrow> out w' = out w"
    and "RunContainer A cfg w = (rc, w') \<Longrightarrow> out w' = out w"
    and "GetIPAddress A w = (ri, w') \<Longrightarrow> out w' = out w"
    and "GetFreePort A w = (rp, w') \<Longrightarrow> out w' = out w"
  using assms unfolding sends_to_def by (metis fst_conv snd_conv)+

lemma lca_write_sends:
  "sends_to A out \<Longrightarrow> lca_write A s msg w = (err, w') \<Longrightarrow> err = nil_error \<and> out w' = out w @ msg @ [CHR 0x0A]"
  by (auto simp: lca_write_def sends_toD(2) dest: sends_toD(1) split: prod.splits if_splits)

lemma cmdStartProgram_sends:
  assumes "sends_to A out" and "network_values A" and "cmdStartProgram A bs psk h svcs s w = (result, svcs', w')"
  shows "(\<exists>ip pp sp mp cid w5 w6. result = [] \<and>
            RunContainer A (docker_config h ip (Itoa pp) (Itoa sp) (Itoa mp) bs psk) w5 = ((cid, nil_error), w6) \<and>
            svcs' = svcs(Itoa mp \<mapsto> cid) \<and> dotted_quad ip \<and> 0 \<le> sp \<and> sp \<le> 65535 \<and>
            out w' = out w @ ip @ '':'' @ Itoa sp @ [CHR 0x0A, CHR 0x0A]) \<or>
         (result = LCAPErrAllocFail \<and> svcs' = svcs \<and> out w' = out w)"
proof -
  obtain e0 w1 where p: "PullImage A h w = (e0, w1)" by (metis prod.exhaust)
  obtain ip e1 w2 where i: "GetIPAddress A w1 = ((ip, e1), w2)" by (metis prod.exhaust)
  obtain pp e2 w3 where f1: "GetFreePort A w2 = ((pp, e2), w3)" by (metis prod.exhaust)
  obtain sp e3 w4 where f2: "GetFreePort A w3 = ((sp, e3), w4)" by (metis prod.exhaust)
  obtain mp e4 w5 where f3: "GetFreePort A w4 = ((mp, e4), w5)" by (metis prod.exhaust)
  obtain cid e5 w6 where
    r: "RunContainer A (docker_config h ip (Itoa pp) (Itoa sp) (Itoa mp) bs psk) w5 = ((cid, e5), w6)" by (metis prod.exhaust)
  obtain e6 w7 where wr: "lca_write A s (ip @ '':'' @ Itoa sp @ [CHR 0x0A]) w6 = (e6, w7)" by (metis prod.exhaust)
  note out = sends_toD(5) [OF assms(1) p] sends_toD(7) [OF assms(1) i] sends_toD(8) [OF assms(1) f1]
    sends_toD(8) [OF assms(1) f2] sends_toD(8) [OF assms(1) f3] sends_toD(6) [OF assms(1) r] lca_write_sends [OF assms(1) wr]
  show ?thesis
  proof (cases "e0 = nil_error \<and> e1 = nil_error \<and> e2 = nil_error \<and> e3 = nil_error \<and> e4 = nil_error \<and> e5 = nil_error")
    case True
    with assms(3) p i f1 f2 f3 r wr out have "result = [] \<and> svcs' = svcs(Itoa mp \<mapsto> cid) \<and> w' = w7"
      by (simp add: cmdStartProgram_def)
    moreover from True assms(2) i f2 have "dotted_quad ip" "0 \<le> sp" "sp \<le> 65535" unfolding network_values_def by blast+
    moreover note r True
    ultimately show ?thesis using out by (intro disjI1 exI [of _ ip] exI [of _ pp] exI [of _ sp] exI [of _ mp] exI [of _ cid]) auto
  next
    case False
    with assms(3) p i f1 f2 f3 r out show ?thesis
      by (auto simp: cmdStartProgram_def split: if_splits)
  qed
qed

lemma takeWhile_line: "CHR 0x0A \<notin> set u \<Longrightarrow> takeWhile (\<lambda>c. c \<noteq> CHR 0x0A) (u @ CHR 0x0A # v) = u"
  by (induction u) auto

lemma decimal_no_newline: "decimal n s \<Longrightarrow> CHR 0x0A \<notin> set s"
  by (auto simp: decimal_def is_digit_def)

lemma length_nat_digits: "n < 10 ^ Suc k \<Longrightarrow> length (nat_digits n) \<le> Suc k"
proof (induction k arbitrary: n)
  case 0
  then show ?case by (subst nat_digits.simps) simp
next
  case (Suc k)
  from Suc.prems have "n div 10 < 10 ^ Suc k" by (simp add: div_less_iff_less_mult mult.commute)
  from Suc.IH [OF this] show ?case by (subst nat_digits.simps) simp
qed

lemma decimal_port: "0 \<le> p \<Longrightarrow> p \<le> 65535 \<Longrightarrow> decimal 5 (Itoa p)"
  using length_nat_digits [of "nat p" 4] nat_digits_all [of "nat p"]
  by (auto simp: decimal_def Itoa_def list_all_iff Suc_le_eq)

lemma address_line:
  assumes "dotted_quad ip" and "0 \<le> p" and "p \<le> 65535"
  shows "re_match addr_re (ip @ '':'' @ Itoa p)" and "CHR 0x0A \<notin> set (ip @ '':'' @ Itoa p)"
proof -
  from assms(1) obtain a b c d where ip: "ip = a @ ''.'' @ b @ ''.'' @ c @ ''.'' @ d"
    and dec: "decimal 3 a" "decimal 3 b" "decimal 3 c" "decimal 3 d" unfolding dotted_quad_def by blast
  note port = decimal_port [OF assms(2,3)]
  with ip dec show "re_match addr_re (ip @ '':'' @ Itoa p)"
    unfolding addr_re_lang by (intro exI conjI) (assumption | simp)+
  from ip dec port show "CHR 0x0A \<notin> set (ip @ '':'' @ Itoa p)"
    by (auto dest: decimal_no_newline)
qed

lemma alloc_fail_no_match: "\<not> re_match addr_re LCAPErrAllocFail" "CHR 0x0A \<notin> set LCAPErrAllocFail"
  by code_simp+

text \<open>
  C12. Manager and allocator agree on the outcome of an allocation: the request line that \<open>requestAlloc\<close> writes is executed by the allocator's handler, which answers
  on the stream; when the manager reads the first line of that answer, it accepts it if and only if the allocator has recorded a new container, and
  then the address it returns is the one the container was started with; in the other case it reports an error and the allocator's book-keeping is unchanged.
\<close>
theorem allocation_dialogue:
  assumes "sends_to A out" and "network_values A"
    and "ReadString A s wa = ((LCAAPCmdStartProgram @ '' '' @ h @ [CHR 0x0A], nil_error), wa1)" and "CHR 0x0A \<notin> set h"
    and "NewLCAHandler A bs psk a s wa = Some (a', wa')" and "out wa = []"
    and "lca_write M t (LCAAPCmdStartProgram @ '' '' @ h) wm = (nil_error, wm1)"
    and "ReadString M t wm1 = ((takeWhile (\<lambda>c. c \<noteq> CHR 0x0A) (out wa') @ [CHR 0x0A], nil_error), wm2)"
  shows "(\<exists>ip pp sp mp cid w5 w6. requestAlloc M t h wm = ((ip @ '':'' @ Itoa sp, nil_error), wm2) \<and>
            RunContainer A (docker_config h ip (Itoa pp) (Itoa sp) (Itoa mp) bs psk) w5 = ((cid, nil_error), w6) \<and>
            services a' = (services a)(Itoa mp \<mapsto> cid)) \<or>
         ((\<exists>e. requestAlloc M t h wm = (([], Some e), wm2)) \<and> services a' = services a)"
proof -
  obtain result svcs w2 where r: "cmdStartProgram A bs psk h (services a) s wa1 = (result, svcs, w2)" by (metis prod.exhaust)
  have "ReadString A s wa = (((LCAAPCmdStartProgram @ '' '' @ h) @ [CHR 0x0A], nil_error), wa1)" using assms(3) by simp
  from handler_runs_request [OF this assms(4)] assms(5) r
  have a': "services a' = svcs" and wa': "wa' = StreamClose A s (if result \<noteq> [] then snd (lca_write A s result w2) else w2)"
    by auto
  have "out wa1 = []" using sends_toD(4) [OF assms(1,3)] assms(6) by simp
  from cmdStartProgram_sends [OF assms(1,2) r, unfolded this append_Nil] consider
    (started) ip pp sp mp cid w5 w6 where "result = []" "RunContainer A (docker_config h ip (Itoa pp) (Itoa sp) (Itoa mp) bs psk) w5 = ((cid, nil_error), w6)"
      "svcs = (services a)(Itoa mp \<mapsto> cid)" "dotted_quad ip" "0 \<le> sp" "sp \<le> 65535"
      "out w2 = ip @ '':'' @ Itoa sp @ [CHR 0x0A, CHR 0x0A]"
    | (failed) "result = LCAPErrAllocFail" "svcs = services a" "out w2 = []" by blast
  then show ?thesis
  proof cases
    case started
    note line = address_line [OF started(4-6)]
    from started(1,7) wa' have "out wa' = (ip @ '':'' @ Itoa sp) @ CHR 0x0A # [CHR 0x0A]" by (simp add: sends_toD(3) [OF assms(1)])
    with takeWhile_line [OF line(2)] assms(8)
    have "lca_read M t wm1 = ((ip @ '':'' @ Itoa sp, nil_error), wm2)"
      by (intro lca_read_eq) simp
    with assms(7) line(1) have "requestAlloc M t h wm = ((ip @ '':'' @ Itoa sp, nil_error), wm2)" by (simp add: requestAlloc_def)
    with a' started(2,3) show ?thesis by blast
  next
    case failed
    have "result \<noteq> []" by (simp add: failed(1) LCAPErrAllocFail_def)
    with lca_write_sends [OF assms(1), of s result w2] failed(3) wa' have "out wa' = LCAPErrAllocFail @ [CHR 0x0A]"
      by (cases "lca_write A s result w2") (simp add: sends_toD(3) [OF assms(1)] failed(1))
    with takeWhile_line [OF alloc_fail_no_match(2)] assms(8)
    have "lca_read M t wm1 = ((LCAPErrAllocFail, nil_error), wm2)"
      by (intro lca_read_eq) simp
    with assms(7) alloc_fail_no_match(1) have "\<exists>e. requestAlloc M t h wm = (([], Some e), wm2)" by (simp add: requestAlloc_def)
    with a' failed(2) show ?thesis by blast
  qed
qed

text \<open>
  A concrete dialogue: the allocator of \<open>demo_allocator\<close> on a world that keeps the text sent beside the clock.
\<close>

definition demo_session :: "(int \<times> string) alloc_ops" where
  "demo_session = \<lparr>
     Now = (\<lambda>w. (fst w, w)), GetServiceWithHostRouting = (\<lambda>n w. ((demo_info n, None), w)),
     Ping = (\<lambda>d p w. (50, w)), LessThan = LessThan demo_ops,
     FindPeers = (\<lambda>n w. ((1, None), w)), SortPeers = (\<lambda>c w. ([], w)), NewStream = (\<lambda>p q w. ((7, None), w)),
     StreamReset = (\<lambda>s w. w), StreamClose = (\<lambda>s w. w),
     WriteString = (\<lambda>s str (t, out). (None, (t, out @ str))), Flush = (\<lambda>s w. w),
     ReadString = (\<lambda>s w. ((LCAAPCmdStartProgram @ '' '' @ ''d-web'' @ [CHR 0x0A], None), w)),
     ReadAll = (\<lambda>s w. (([], None), w)), RequestWrite = (\<lambda>s r w. (None, w)),
     ReadRequest = (\<lambda>s w. ((\<lparr>RequestURI = ''/'', ReqRest = []\<rparr>, None), w)),
     ReadResponse = ReadResponse demo_lca, URLParse = URLParse demo_lca, RoundTrip = (\<lambda>u r w. ((None, None), w)),
     ResponseWrite = (\<lambda>s r w. (None, w)), NewNode = (\<lambda>cfg w. (None, w)), Advertise = (\<lambda>h w. w),
     PullImage = (\<lambda>img w. (None, w)), GetIPAddress = (\<lambda>w. ((''10.0.0.1'', None), w)),
     GetFreePort = (\<lambda>w. ((8000, None), w)), RunContainer = (\<lambda>cfg w. ((''c'', None), w)),
     StopContainer = (\<lambda>c w. w), DeleteContainer = (\<lambda>c w. w),
     Whoami = (\<lambda>w. (([], None), w)), SetStreamHandler = (\<lambda>p w. w),
     HttpGet = (\<lambda>u w. ((0, None), w)), ReadBody = (\<lambda>b w. (([], None), w))\<rparr>"

lemma demo_session_laws: "sends_to demo_session snd" "network_values demo_session"
proof -
  show "sends_to demo_session snd" by (simp add: sends_to_def demo_session_def split_def)
  have "dotted_quad ''10.0.0.1''"
    unfolding dotted_quad_def
    by (rule exI [of _ "''10''"], rule exI [of _ "''0''"], rule exI [of _ "''0''"], rule exI [of _ "''1''"])
      (simp add: decimal_def is_digit_def)
  then show "network_values demo_session" by (simp add: network_values_def demo_session_def)
qed

text \<open>Witness of C12: an allocation of \<open>d-web\<close> by a manager whose stream returns the first line of the answer.\<close>
theorem allocation_dialogue_witness:
  "\<exists>a' wa'. NewLCAHandler demo_session [] ''psk'' \<lparr>services = Map.empty\<rparr> 3 (0, []) = Some (a', wa') \<and>
     ((\<exists>ip sp mp cid. requestAlloc (demo_lca\<lparr>ReadString :=
           \<lambda>s w. ((takeWhile (\<lambda>c. c \<noteq> CHR 0x0A) (snd wa') @ [CHR 0x0A], None), w)\<rparr>) 7 ''d-web'' 0 = ((ip @ '':'' @ Itoa sp, None), 0) \<and>
         services a' = [Itoa mp \<mapsto> cid]) \<or>
      ((\<exists>e. requestAlloc (demo_lca\<lparr>ReadString :=
           \<lambda>s w. ((takeWhile (\<lambda>c. c \<noteq> CHR 0x0A) (snd wa') @ [CHR 0x0A], None), w)\<rparr>) 7 ''d-web'' 0 = (([], Some e), 0)) \<and>
         services a' = Map.empty))"
proof -
  have rd: "ReadString demo_session 3 (0, []) = ((LCAAPCmdStartProgram @ '' '' @ ''d-web'' @ [CHR 0x0A], None), (0, []))"
    by (simp add: demo_session_def)
  have nl: "CHR 0x0A \<notin> set ''d-web''" by simp
  have "\<exists>r. NewLCAHandler demo_session [] ''psk'' \<lparr>services = Map.empty\<rparr> 3 (0, []) = Some r"
    using handler_runs_request [of demo_session 3 "(0, [])" "''d-web''" "(0, [])" "[]" "''psk''" "\<lparr>services = Map.empty\<rparr>"] rd nl
    by (auto split: prod.split)
  then obtain a' wa' where run: "NewLCAHandler demo_session [] ''psk'' \<lparr>services = Map.empty\<rparr> 3 (0, []) = Some (a', wa')" by auto
  let ?M = "demo_lca\<lparr>ReadString := \<lambda>s w. ((takeWhile (\<lambda>c. c \<noteq> CHR 0x0A) (snd wa') @ [CHR 0x0A], None), w)\<rparr>"
  have wr: "lca_write ?M 7 (LCAAPCmdStartProgram @ '' '' @ ''d-web'') 0 = (None, 0)"
    by (simp add: lca_write_def demo_lca_def)
  have rm: "ReadString ?M 7 0 = ((takeWhile (\<lambda>c. c \<noteq> CHR 0x0A) (snd wa') @ [CHR 0x0A], None), 0)" by simp
  from allocation_dialogue [OF demo_session_laws rd nl run _ wr rm] run show ?thesis by (simp del: split_paired_Ex) blast
qed

subsection \<open>A service from its start\<close>

text \<open>
  The documented behaviour of \<open>time.Now\<close>, whose readings carry a monotonic clock: \<open>Now\<close> reads \<open>clock\<close>, and nothing the
  request handler calls sets it back.
\<close>

definition monotonic_clock :: "('w, 'z) lca_ops_scheme \<Rightarrow> ('w \<Rightarrow> time) \<Rightarrow> bool" where
  "monotonic_clock P clock \<longleftrightarrow>
     (\<forall>w. fst (Now P w) = clock w \<and> clock w \<le> clock (snd (Now P w))) \<and>
     (\<forall>s w. clock w \<le> clock (snd (ReadRequest P s w)) \<and> clock w \<le> clock (Flush P s w) \<and> clock w \<le> clock (StreamClose P s w)) \<and>
     (\<forall>s str w. clock w \<le> clock (snd (WriteString P s str w))) \<and>
     (\<forall>u r w. clock w \<le> clock (snd (RoundTrip P u r w))) \<and>
     (\<forall>s r w. clock w \<le> clock (snd (ResponseWrite P s r w)))"

lemma monotonic_clockD:
  assumes "monotonic_clock P clock"
  shows "Now P w = (t, w') \<Longrightarrow> t = clock w \<and> clock w \<le> clock w'"
    and "ReadRequest P s w = (q, w') \<Longrightarrow> clock w \<le> clock w'"
    and "clock w \<le> clock (Flush P s w)" and "clock w \<le> clock (StreamClose P s w)"
    and "WriteString P s str w = (e, w') \<Longrightarrow> clock w \<le> clock w'"
    and "RoundTrip P u r w = (a, w') \<Longrightarrow> clock w \<le> clock w'"
    and "ResponseWrite P s x w = (e, w') \<Longrightarrow> clock w \<le> clock w'"
  using assms unfolding monotonic_clock_def by (metis fst_conv snd_conv)+

lemma lca_write_clock: "monotonic_clock P clock \<Longrightarrow> lca_write P s msg w = (e, w') \<Longrightarrow> clock w \<le> clock w'"
  by (auto simp: lca_write_def dest: monotonic_clockD(5) intro: order_trans monotonic_clockD(3) split: prod.splits if_splits)

text \<open>What the handler does to the time of the last serviced request: nothing, or a reading of the clock not earlier than the call.\<close>

lemma RequestHandler_time:
  assumes "monotonic_clock P clock" and "RequestHandler P addr lca s v = (lca', v')"
  shows "clock v \<le> clock v' \<and> (lca' = lca \<or> clock v \<le> Tolsr lca')"
proof -
  obtain fin v1 where b: "handler_body P addr lca s v = (fin, lca', v1)" and v': "v' = StreamClose P s v1"
    using assms(2) by (auto simp: RequestHandler_def split: prod.splits)
  have "clock v \<le> clock v1 \<and> (lca' = lca \<or> clock v \<le> Tolsr lca')"
    using b unfolding handler_body_def pingService_def
    by (auto simp: Let_def split: prod.splits if_splits option.splits
        dest!: lca_write_clock [OF assms(1)] monotonic_clockD(1,2,5,6,7) [OF assms(1)])
  then show ?thesis using v' monotonic_clockD(4) [OF assms(1), of v1 s] by auto
qed

text \<open>
  The manager of a proxy and the world while it serves: time passes, and the handler is called for streams that arrive.
\<close>

inductive serving :: "('w, 'z) lca_ops_scheme \<Rightarrow> ('w \<Rightarrow> time) \<Rightarrow> string \<Rightarrow> LCAManager \<Rightarrow> 'w \<Rightarrow> LCAManager \<Rightarrow> 'w \<Rightarrow> bool"
  for P :: "('w, 'z) lca_ops_scheme" and clock serviceAddress lca0 w0 where
  idle: "serving P clock serviceAddress lca0 w0 lca0 w0"
| elapse: "serving P clock serviceAddress lca0 w0 lca v \<Longrightarrow> clock v \<le> clock v' \<Longrightarrow> serving P clock serviceAddress lca0 w0 lca v'"
| served: "serving P clock serviceAddress lca0 w0 lca v \<Longrightarrow> RequestHandler P serviceAddress lca s v = (lca', v') \<Longrightarrow>
    serving P clock serviceAddress lca0 w0 lca' v'"

lemma serving_later:
  assumes "monotonic_clock P clock" and "Tolsr lca0 \<le> clock w0"
  shows "serving P clock serviceAddress lca0 w0 lca v \<Longrightarrow> Tolsr lca0 \<le> clock v \<and> Tolsr lca0 \<le> Tolsr lca"
proof (induction rule: serving.induct)
  case (served lca v s lca' v')
  with RequestHandler_time [OF assms(1) served.hyps(2)] show ?case by auto
qed (use assms(2) in auto)

text \<open>
  C17. A new service gets its minute: if the HTTP proxy of a service has started with a metrics endpoint, then, whatever requests it has served since, with whatever outcome, the allocator does not condemn it in a
  culling round that reads its metrics less than 61 seconds after the start; the time that counts is the one \<open>main\<close> has set. The clock is assumed to be monotonic.
\<close>
theorem new_service_survives:
  assumes "proxy_main P H w = (Inr p, w')" and "(metricsAddr, H_httpMetricsHandler) \<in> set (servers p)"
    and "monotonic_clock P clock" and "serving P clock serviceAddress (manager p) w' lca u'"
    and "HttpGet A (''http://127.0.0.1:'' @ mp) v = ((resp, nil_error), v1)"
    and "ReadBody A resp v1 = ((wBody (fst (httpMetricsHandler P lca wp)), nil_error), v2)"
  shows "\<exists>u t. Now P u = (t, w') \<and> Tolsr (manager p) = t \<and> (fst (Now P wp) - t < 61 * Second \<longrightarrow> must_cull A mp v = (False, v2))"
proof -
  from assms(1,2) obtain u where now: "Now P u = (Tolsr (manager p), w')" by (rule service_start_time)
  with monotonic_clockD(1) [OF assms(3) now] serving_later [OF assms(3) _ assms(4)] assms(5,6) show ?thesis
    by (intro exI [of _ u] exI [of _ "Tolsr (manager p)"]) (simp add: must_cull_def metrics_parse idle_over_60)
qed

text \<open>Witness of C17: the proxy of \<open>web\<close>, having served one request, seven seconds after its start.\<close>
theorem new_service_survives_witness: "must_cull (demo_allocator True) ''9001'' 0 = (False, 0)"
proof -
  let ?m = "\<lparr>P2PHash = ''h-web'', Tolsr = 0\<rparr>"
  let ?m' = "\<lparr>P2PHash = ''h-web'', Tolsr = 2000000000\<rparr>"
  have h: "HttpGet (demo_allocator True) (''http://127.0.0.1:'' @ ''9001'') 0 = ((1, None), 0)" by (simp add: demo_allocator_def)
  have "wBody (fst (httpMetricsHandler demo_lca ?m' 7000000000)) = ''5'' @ [CHR 0x0A]" by code_simp
  then have b: "ReadBody (demo_allocator True) 1 0 = ((wBody (fst (httpMetricsHandler demo_lca ?m' 7000000000)), None), 0)"
    by (simp add: demo_allocator_def)
  have m: "monotonic_clock demo_lca id" by (simp add: monotonic_clock_def demo_lca_def demo_ops_def)
  have r: "RequestHandler demo_lca [] ?m 3 2000000000 = (?m', 2001000000)"
    by (simp add: RequestHandler_def handler_body_def pingService_def demo_lca_def demo_ops_def)
  have s: "serving demo_lca id [] ?m 1000000 ?m' 2001000000"
    by (rule serving.served [OF serving.elapse [OF serving.idle] r]) simp
  have "(''127.0.0.1:9001'', H_httpMetricsHandler) \<in> set (servers \<lparr>manager = ?m, registryCache = NewRegistryCache 3600,
      peerCache = fst (NewPeerCache None), servers = [(''127.0.0.1:80'', H_httpRequestHandler), (''127.0.0.1:9001'', H_httpMetricsHandler)]\<rparr>)" by simp
  from new_service_survives [OF demo_proxy_main this m _ h b, of "[]"] s show ?thesis
    by (auto simp: demo_lca_def demo_ops_def Second_def)
qed

subsection \<open>A proxy in the container of an allocator\<close>

text \<open>
  The documented behaviour of \<open>util\<close> on the environment. In a container, the environment variables are the entries \<open>NAME=value\<close> it was started with; \<open>P2P_BOOTSTRAPS\<close> lists addresses separated by spaces.
\<close>

definition runs_in :: "string list \<Rightarrow> (string \<Rightarrow> string option) \<Rightarrow> 'w host_ops \<Rightarrow> bool" where
  "runs_in env psk_of H \<longleftrightarrow>
     (\<forall>val w. ''P2P_BOOTSTRAPS='' @ val \<in> set env \<longrightarrow> GetEnvBootstraps H w = ((Split CHR '' '' val, nil_error), w)) \<and>
     (\<forall>val w. ''P2P_PSK='' @ val \<in> set env \<longrightarrow> GetEnvPSK H w = ((psk_of val, nil_error), w))"

text \<open>A start without options for the network: no flags, and a configuration file without bootstraps.\<close>

definition relies_on_environment :: "'w host_ops \<Rightarrow> bool" where
  "relies_on_environment H \<longleftrightarrow>
     (\<forall>v c v'. FlagParse H v = (Some c, v') \<longrightarrow> flag_bootstraps c = [] \<and> flag_psk c = None) \<and>
     (\<forall>bytes config. UnmarshalConfig H bytes = (config, nil_error) \<longrightarrow> Bootstraps config = [])"

lemma docker_config_env: "''P2P_BOOTSTRAPS='' @ Join '' '' bs \<in> set (Env (docker_config h ip pp sp mp bs sPsk))"
  "''P2P_PSK='' @ sPsk \<in> set (Env (docker_config h ip pp sp mp bs sPsk))"
  by (simp_all add: docker_config_def)

lemma specified_from_environment:
  assumes "specified_config H c cfg" and "relies_on_environment H" and "runs_in (Env (docker_config h ip pp sp mp bs sPsk)) psk_of H"
    and "bs \<noteq> []" and "\<forall>b \<in> set bs. CHR '' '' \<notin> set b"
  shows "BootstrapPeers cfg = bs \<and> PSK cfg = psk_of sPsk"
proof -
  from assms(1,2) obtain bytes config where "flag_bootstraps c = []" "flag_psk c = None" "Bootstraps config = []"
    and "bootstraps_by_precedence H c config (BootstrapPeers cfg)" and psk: "\<exists>v v'. GetEnvPSK H v = ((PSK cfg, nil_error), v')"
    unfolding specified_config_def relies_on_environment_def by (metis (full_types))
  then have "\<exists>v v'. GetEnvBootstraps H v = ((BootstrapPeers cfg, nil_error), v')" by (simp add: bootstraps_by_precedence_def)
  moreover have "GetEnvBootstraps H v = ((bs, nil_error), v)" and "GetEnvPSK H v = ((psk_of sPsk, nil_error), v)" for v
    using assms(3) docker_config_env [where bs = bs and h = h and ip = ip and pp = pp and sp = sp and mp = mp and sPsk = sPsk] Split_Join [OF assms(4,5)] unfolding runs_in_def by (metis (full_types))+
  ultimately show ?thesis using psk by auto
qed

text \<open>
  C13. A service that an allocator has started joins the allocator's network: if a container is on the books of an allocator process, and the proxy in it starts without network options of its own, then the
  proxy's node is created with the bootstraps of the allocator's node followed by one of the allocator's own listening addresses, and with the key of the same passphrase. The list that the
  allocator joins into one environment variable is the list the proxy gets, since addresses contain no spaces.
\<close>
theorem allocated_proxy_joins_network:
  assumes "allocator_reach A G bs sPsk a" and "services a mp = Some cid" and "passphrase_laws G psk_of" and "\<forall>b \<in> set bs. CHR '' '' \<notin> set b"
    and "\<And>h ip pp sp v v'. RunContainer A (docker_config h ip pp sp mp bs sPsk) v = ((cid, nil_error), v') \<Longrightarrow>
      runs_in (Env (docker_config h ip pp sp mp bs sPsk)) psk_of H"
    and "relies_on_environment H" and "proxy_main P H w = (Inr p, w')"
  shows "\<exists>cfg cfg' addr addrs ua ua' ub ub' up up'. NewNode A cfg ua = (nil_error, ua') \<and> NewNode P cfg' up = (nil_error, up') \<and>
    Whoami A ub = ((addrs, nil_error), ub') \<and> addr \<in> set addrs \<and>
    BootstrapPeers cfg' = BootstrapPeers cfg @ [addr] \<and> PSK cfg' = PSK cfg"
proof -
  from assms(1) obtain w0 a0 w1 where "allocator_main A G w0 = (Inr (Some (a0, bs, sPsk)), w1)" by (rule allocator_reach_started)
  then obtain cfg addr addrs ua ua' ub ub' where node: "NewNode A cfg ua = (nil_error, ua')" "Whoami A ub = ((addrs, nil_error), ub')" "addr \<in> set addrs"
    "bs = BootstrapPeers cfg @ [addr]" "PSK cfg = psk_of sPsk" by (rule allocator_main_network [OF _ assms(3)])
  from allocator_reach_own [OF assms(1)] assms(2) obtain h ip pp sp v v' where
    "RunContainer A (docker_config h ip pp sp mp bs sPsk) v = ((cid, nil_error), v')" unfolding own_containers_def started_container_def by blast
  note env = assms(5) [OF this]
  from assms(7) obtain c pcfg ad up up' where "specified_config H c pcfg" and up: "NewNode P (with_manager pcfg ad) up = (nil_error, up')" by (rule hp.node) simp
  from specified_from_environment [OF this(1) assms(6) env _ assms(4)] node(4,5)
  have "BootstrapPeers (with_manager pcfg ad) = BootstrapPeers cfg @ [addr] \<and> PSK (with_manager pcfg ad) = PSK cfg" by (simp add: with_manager_def)
  with node up show ?thesis by blast
qed

text \<open>The host of the proxy in a container of \<open>demo_public\<close>.\<close>

definition demo_contained :: "int host_ops" where
  "demo_contained = (demo_host [''80''])\<lparr>GetEnvBootstraps := \<lambda>w. (([''/ip4/10.0.0.9/tcp/4001'', ''/ip4/10.0.0.1/tcp/4001''], None), w)\<rparr>"

lemma demo_contained_laws:
  "passphrase_laws (demo_host []) (\<lambda>s. Some ''hash'')" "relies_on_environment demo_contained"
  "runs_in (Env (docker_config h ip pp sp mp [''/ip4/10.0.0.9/tcp/4001'', ''/ip4/10.0.0.1/tcp/4001''] ''secret'')) (\<lambda>s. Some ''hash'') demo_contained"
proof -
  show "passphrase_laws (demo_host []) (\<lambda>s. Some ''hash'')" by (simp add: passphrase_laws_def demo_host_def demo_line_def)
  show "relies_on_environment demo_contained" by (auto simp: relies_on_environment_def demo_contained_def demo_host_def demo_line_def)
  show "runs_in (Env (docker_config h ip pp sp mp [''/ip4/10.0.0.9/tcp/4001'', ''/ip4/10.0.0.1/tcp/4001''] ''secret'')) (\<lambda>s. Some ''hash'') demo_contained"
    by (simp add: runs_in_def docker_config_def demo_contained_def demo_host_def)
qed

lemma demo_contained_main: "\<exists>p. proxy_main demo_lca demo_contained 0 = (Inr p, 0)"
  by (simp add: proxy_main_def proxy_prepare_def commandLine_def andThen_def orFatal_def readConfig_def configPath_def chooseBootstraps_def choosePSK_def
      demo_contained_def demo_host_def demo_start_simps)

text \<open>Witness of C13: the proxy in the container that \<open>demo_public\<close> starts for its first request.\<close>
theorem allocated_proxy_joins_network_witness:
  "\<exists>cfg cfg' addr ua ua' up up'. NewNode demo_public cfg ua = (nil_error, ua') \<and> NewNode demo_lca cfg' up = (nil_error, up') \<and>
     BootstrapPeers cfg' = BootstrapPeers cfg @ [addr] \<and> PSK cfg' = PSK cfg"
proof -
  note reach = allocator_reach.request [OF allocator_reach.start [OF demo_public_main] demo_public_request]
  obtain p where main: "proxy_main demo_lca demo_contained 0 = (Inr p, 0)" using demo_contained_main by blast
  have "services \<lparr>services = [Itoa 8002 \<mapsto> ''cid-d-web'']\<rparr> (Itoa 8002) = Some ''cid-d-web''" by simp
  from allocated_proxy_joins_network [OF reach this demo_contained_laws(1) _ demo_contained_laws(3,2) main] show ?thesis by auto
qed

end
